(* ===== verification/Prelude.thy ===== *)
theory Prelude
  imports Main "HOL-Library.AList"
begin

text \<open>
  The prelude of the development: the pieces of the Go language and of its standard library that
  several components of pepperbus use, with the lemmas the component proofs share.

  \<^item> A Go string or byte slice is a sequence of bytes, a \<^typ>\<open>string\<close> (\<^typ>\<open>char list\<close>, one
    \<^typ>\<open>char\<close> per byte).
  \<^item> A call that may panic returns a value of type \<open>'a go\<close>.
  \<^item> \<open>int64\<close> (and \<open>int\<close>, 64 bits wide on the supported platforms) is \<^typ>\<open>int\<close> with the wrap-around
    \<open>i64\<close> written out at every arithmetic operation.
  \<^item> \<open>strconv\<close>: \<open>FormatUint\<close>, \<open>FormatInt\<close>, \<open>ParseUint\<close>, \<open>ParseInt\<close> in base 10, with the value they
    return beside an error.
  \<^item> \<open>strings\<close>: \<open>Split\<close>, \<open>SplitN\<close> with limit 2, \<open>Contains\<close>, \<open>Join\<close>.
  \<^item> A Go map that the code ranges over is an association list with distinct keys; the order of the
    list is the order in which the runtime happens to iterate.
\<close>

named_theorems go_simps \<open>unfolding rules for the modelled library calls\<close>
named_theorems inv_intros \<open>introduction rules for the component invariants\<close>

abbreviation CR :: char where "CR \<equiv> CHR 0x0D"
abbreviation LF :: char where "LF \<equiv> CHR 0x0A"
abbreviation CRLF :: string where "CRLF \<equiv> [CR, LF]"

subsection \<open>Panics\<close>

datatype 'a go = Panic | Ret 'a

fun go_bind :: "'a go \<Rightarrow> ('a \<Rightarrow> 'b go) \<Rightarrow> 'b go" where
  "go_bind Panic f = Panic"
| "go_bind (Ret a) f = f a"

lemma go_bind_Ret_iff [simp]: "go_bind m f = Ret b \<longleftrightarrow> (\<exists>a. m = Ret a \<and> f a = Ret b)"
  by (cases m) auto

lemma go_bind_no_panic: "m \<noteq> Panic \<Longrightarrow> (\<And>a. m = Ret a \<Longrightarrow> f a \<noteq> Panic) \<Longrightarrow> go_bind m f \<noteq> Panic"
  by (cases m) auto

subsection \<open>64-bit signed integers\<close>

definition i64 :: "int \<Rightarrow> int" where
  "i64 x = (x + 2 ^ 63) mod 2 ^ 64 - 2 ^ 63"

definition in_i64 :: "int \<Rightarrow> bool" where
  "in_i64 x \<longleftrightarrow> - (2 ^ 63) \<le> x \<and> x < 2 ^ 63"

lemma i64_id [simp]: "in_i64 x \<Longrightarrow> i64 x = x"
  by (simp add: i64_def in_i64_def)

lemma in_i64_i64 [simp]: "in_i64 (i64 x)"
proof -
  have "0 \<le> (x + 2 ^ 63) mod 2 ^ 64" and "(x + 2 ^ 63) mod 2 ^ 64 < (2::int) ^ 64"
    by simp_all
  then show ?thesis by (simp add: i64_def in_i64_def)
qed

lemma i64_add [simp]: "i64 (i64 a + b) = i64 (a + b)" "i64 (a + i64 b) = i64 (a + b)"
  by (simp_all add: i64_def mod_simps algebra_simps)

lemma in_i64_small: "- (2 ^ 62) \<le> x \<Longrightarrow> x \<le> 2 ^ 62 \<Longrightarrow> in_i64 x"
  by (simp add: in_i64_def)

lemma in_i64_0 [simp]: "in_i64 0" and in_i64_1 [simp]: "in_i64 1"
  by (simp_all add: in_i64_def)

lemma i64_Suc: "in_i64 (x + 1) \<Longrightarrow> i64 (x + 1) = x + 1"
  by simp

subsection \<open>Decimal numbers: strconv\<close>

definition digit_char :: "nat \<Rightarrow> char" where
  "digit_char d = char_of (48 + d)"

definition digit_val :: "char \<Rightarrow> nat option" where
  "digit_val c = (if 48 \<le> (of_char c :: nat) \<and> (of_char c :: nat) \<le> 57
                  then Some (of_char c - 48) else None)"

lemma digit_val_char [simp]: "d < 10 \<Longrightarrow> digit_val (digit_char d) = Some d"
  by (simp add: digit_val_def digit_char_def)

lemma digit_char_no_digit: "d < 10 \<Longrightarrow> digit_val c = None \<Longrightarrow> digit_char d \<noteq> c"
  using digit_val_char by fastforce

fun show_nat :: "nat \<Rightarrow> string" where
  "show_nat n = (if n < 10 then [digit_char n] else show_nat (n div 10) @ [digit_char (n mod 10)])"

declare show_nat.simps [simp del]

definition show_int :: "int \<Rightarrow> string" where
  "show_int n = (if n < 0 then CHR ''-'' # show_nat (nat (- n)) else show_nat (nat n))"

definition all_digits :: "string \<Rightarrow> bool" where
  "all_digits s \<longleftrightarrow> list_all (\<lambda>c. digit_val c \<noteq> None) s"

definition digits_val :: "nat \<Rightarrow> string \<Rightarrow> nat" where
  "digits_val = foldl (\<lambda>a c. a * 10 + the (digit_val c))"

lemma all_digits_simps [simp]:
  "all_digits []" "all_digits (c # s) \<longleftrightarrow> digit_val c \<noteq> None \<and> all_digits s"
  "all_digits (s @ t) \<longleftrightarrow> all_digits s \<and> all_digits t"
  by (simp_all add: all_digits_def)

lemma digits_val_simps [simp]:
  "digits_val a [] = a"
  "digits_val a (c # s) = digits_val (a * 10 + the (digit_val c)) s"
  "digits_val a (s @ t) = digits_val (digits_val a s) t"
  by (simp_all add: digits_val_def)

lemma digits_val_mono: "a \<le> digits_val a s"
proof (induction s arbitrary: a)
  case (Cons c s)
  have "a \<le> a * 10 + the (digit_val c)" by simp
  also have "\<dots> \<le> digits_val (a * 10 + the (digit_val c)) s" by (rule Cons)
  finally show ?case by simp
qed simp

lemma show_nat_digits [simp]: "all_digits (show_nat n)"
proof (induction n rule: show_nat.induct)
  case (1 n)
  then show ?case by (simp add: show_nat.simps [of n])
qed

lemma show_nat_val [simp]: "digits_val 0 (show_nat n) = n"
proof (induction n rule: show_nat.induct)
  case (1 n)
  then show ?case by (cases "n < 10") (simp_all add: show_nat.simps [of n])
qed

lemma show_nat_ne [simp]: "show_nat n \<noteq> []"
  by (subst show_nat.simps) simp

lemma show_nat_inj [simp]: "show_nat m = show_nat n \<longleftrightarrow> m = n"
  using show_nat_val by metis

lemma no_digit_in_show_nat: "digit_val c = None \<Longrightarrow> c \<notin> set (show_nat n)"
  using show_nat_digits [of n] by (auto simp: all_digits_def list_all_iff)

datatype num_err = ErrSyntax | ErrRange

definition maxUint64 :: nat where
  "maxUint64 = 2 ^ 64 - 1"

text \<open>
  \<open>strconv.ParseUint(s, 10, 64)\<close>: the empty string and any byte that is not a digit are a syntax
  error with value 0; the first prefix above the maximum is a range error with the maximum as value.
\<close>

fun ParseUint_loop :: "nat \<Rightarrow> string \<Rightarrow> nat \<times> num_err option" where
  "ParseUint_loop n [] = (n, None)"
| "ParseUint_loop n (c # s) =
     (case digit_val c of
        None \<Rightarrow> (0, Some ErrSyntax)
      | Some d \<Rightarrow> if maxUint64 < n * 10 + d then (maxUint64, Some ErrRange)
                  else ParseUint_loop (n * 10 + d) s)"

definition ParseUint :: "string \<Rightarrow> nat \<times> num_err option" where
  "ParseUint s = (if s = [] then (0, Some ErrSyntax) else ParseUint_loop 0 s)"

lemma ParseUint_loop_digits:
  "all_digits s \<Longrightarrow> digits_val n s \<le> maxUint64 \<Longrightarrow> ParseUint_loop n s = (digits_val n s, None)"
proof (induction s arbitrary: n)
  case (Cons c s)
  then obtain d where d: "digit_val c = Some d" by auto
  with Cons.prems have "n * 10 + d \<le> maxUint64"
    using digits_val_mono [of "n * 10 + d" s] by simp
  with Cons d show ?case by simp
qed simp

lemma ParseUint_show_nat [simp]: "n \<le> maxUint64 \<Longrightarrow> ParseUint (show_nat n) = (n, None)"
  by (simp add: ParseUint_def ParseUint_loop_digits)

lemma ParseUint_loop_bound: "ParseUint_loop n s = (v, e) \<Longrightarrow> n \<le> maxUint64 \<Longrightarrow> v \<le> maxUint64"
  by (induction n s rule: ParseUint_loop.induct) (auto split: option.splits if_splits)

lemma ParseUint_bound: "fst (ParseUint s) \<le> maxUint64"
  using ParseUint_loop_bound [of 0 s] by (cases "ParseUint_loop 0 s") (auto simp: ParseUint_def)

text \<open>\<open>strconv.ParseInt(s, 10, 64)\<close>: an optional sign, then \<open>ParseUint\<close>, then the signed range.\<close>

definition ParseInt_signed :: "bool \<Rightarrow> string \<Rightarrow> int \<times> num_err option" where
  "ParseInt_signed neg s =
     (case ParseUint s of
        (un, Some ErrSyntax) \<Rightarrow> (0, Some ErrSyntax)
      | (un, e) \<Rightarrow>
          if \<not> neg \<and> 2 ^ 63 \<le> un then (2 ^ 63 - 1, Some ErrRange)
          else if neg \<and> 2 ^ 63 < un then (- (2 ^ 63), Some ErrRange)
          else (if neg then - int un else int un, None))"

definition ParseInt :: "string \<Rightarrow> int \<times> num_err option" where
  "ParseInt s =
     (case s of
        [] \<Rightarrow> (0, Some ErrSyntax)
      | c # r \<Rightarrow> if c = CHR ''+'' then ParseInt_signed False r
                 else if c = CHR ''-'' then ParseInt_signed True r
                 else ParseInt_signed False s)"

lemma digit_val_sign [simp]: "digit_val (CHR ''+'') = None" "digit_val (CHR ''-'') = None"
  by (simp_all add: digit_val_def)

lemma show_nat_hd_digit: "show_nat n = c # r \<Longrightarrow> digit_val c \<noteq> None"
  using show_nat_digits [of n] by simp

lemma ParseInt_show_nat: "n < 2 ^ 63 \<Longrightarrow> ParseInt (show_nat n) = (int n, None)"
proof -
  assume n: "n < 2 ^ 63"
  obtain c r where cr: "show_nat n = c # r" by (cases "show_nat n") auto
  then have "digit_val c \<noteq> None" by (rule show_nat_hd_digit)
  then have ne: "c \<noteq> CHR ''+''" "c \<noteq> CHR ''-''" by auto
  have "ParseUint (c # r) = (n, None)"
    using ParseUint_show_nat [of n] n by (simp add: maxUint64_def cr)
  with ne n show ?thesis by (simp add: ParseInt_def ParseInt_signed_def cr)
qed

lemma ParseInt_show_int [simp]: "in_i64 n \<Longrightarrow> ParseInt (show_int n) = (n, None)"
proof (cases "n < 0")
  case True
  assume "in_i64 n"
  with True have b: "nat (- n) \<le> 2 ^ 63" by (simp add: in_i64_def)
  then have "ParseUint (show_nat (nat (- n))) = (nat (- n), None)"
    by (simp add: maxUint64_def)
  with True b show ?thesis by (simp add: ParseInt_def ParseInt_signed_def show_int_def)
next
  case False
  assume "in_i64 n"
  with False have "nat n < 2 ^ 63" by (simp add: in_i64_def)
  with False show ?thesis by (simp add: show_int_def ParseInt_show_nat)
qed

subsection \<open>strings.Split, SplitN, Contains, Join\<close>

text \<open>
  \<open>strings.Split(s, sep)\<close> for a non-empty separator: cut at the leftmost occurrence, go on behind it.
\<close>

definition has_prefix :: "string \<Rightarrow> string \<Rightarrow> bool" where
  "has_prefix p s \<longleftrightarrow> take (length p) s = p"

fun split_acc :: "string \<Rightarrow> string \<Rightarrow> string \<Rightarrow> string list" where
  "split_acc sep acc [] = [rev acc]"
| "split_acc sep acc (c # s) =
     (if has_prefix sep (c # s) then rev acc # split_acc sep [] (drop (length sep - 1) s)
      else split_acc sep (c # acc) s)"

definition strings_Split :: "string \<Rightarrow> string \<Rightarrow> string list" where
  "strings_Split s sep = split_acc sep [] s"

text \<open>\<open>strings.SplitN(s, sep, 2)\<close> with a one-byte separator.\<close>

definition strings_SplitN2 :: "string \<Rightarrow> char \<Rightarrow> string list" where
  "strings_SplitN2 s c =
     (case dropWhile (\<lambda>x. x \<noteq> c) s of
        [] \<Rightarrow> [s]
      | _ # r \<Rightarrow> [takeWhile (\<lambda>x. x \<noteq> c) s, r])"

fun strings_Contains :: "string \<Rightarrow> string \<Rightarrow> bool" where
  "strings_Contains [] sub = (sub = [])"
| "strings_Contains (c # s) sub = (has_prefix sub (c # s) \<or> strings_Contains s sub)"

fun strings_Join :: "string list \<Rightarrow> string \<Rightarrow> string" where
  "strings_Join [] sep = []"
| "strings_Join [x] sep = x"
| "strings_Join (x # y # xs) sep = x @ sep @ strings_Join (y # xs) sep"

lemma has_prefix_append [simp]: "has_prefix p (p @ s)"
  by (simp add: has_prefix_def)

lemma has_prefix_iff: "has_prefix p s \<longleftrightarrow> (\<exists>t. s = p @ t)"
  by (metis append_take_drop_id has_prefix_append has_prefix_def)

lemma has_prefix_single [simp]: "has_prefix [c] (x # s) \<longleftrightarrow> x = c"
  by (auto simp: has_prefix_def)

lemma split_acc_ne [simp]: "split_acc sep acc s \<noteq> []"
  by (induction sep acc s rule: split_acc.induct) auto

lemma strings_Split_ne [simp]: "strings_Split s sep \<noteq> []"
  by (simp add: strings_Split_def)

lemma strings_Join_Cons: "xs \<noteq> [] \<Longrightarrow> strings_Join (x # xs) sep = x @ sep @ strings_Join xs sep"
  by (cases xs) auto

lemma split_acc_Join: "sep \<noteq> [] \<Longrightarrow> strings_Join (split_acc sep acc s) sep = rev acc @ s"
proof (induction sep acc s rule: split_acc.induct)
  case (2 sep acc c s)
  show ?case
  proof (cases "has_prefix sep (c # s)")
    case True
    then obtain t where t: "c # s = sep @ t" by (auto simp: has_prefix_iff)
    with "2.prems" have "drop (length sep - 1) s = t" by (cases sep) auto
    with 2 True have "strings_Join (split_acc sep acc (c # s)) sep = rev acc @ sep @ t"
      by (simp add: strings_Join_Cons)
    with t show ?thesis by simp
  next
    case False
    with 2 show ?thesis by simp
  qed
qed simp

text \<open>Joining what was split gives the string back, for every string and every separator.\<close>

lemma strings_Split_Join: "sep \<noteq> [] \<Longrightarrow> strings_Join (strings_Split s sep) sep = s"
  by (simp add: strings_Split_def split_acc_Join)

text \<open>Splitting at a one-byte separator.\<close>

lemma split_acc_no_sep: "c \<notin> set s \<Longrightarrow> split_acc [c] acc s = [rev acc @ s]"
  by (induction s arbitrary: acc) auto

lemma split_acc_sep: "c \<notin> set s \<Longrightarrow> split_acc [c] acc (s @ c # t) = (rev acc @ s) # split_acc [c] [] t"
  by (induction s arbitrary: acc) auto

lemma strings_Split_no_sep: "c \<notin> set s \<Longrightarrow> strings_Split s [c] = [s]"
  by (simp add: strings_Split_def split_acc_no_sep)

lemma strings_Split_sep: "c \<notin> set s \<Longrightarrow> strings_Split (s @ c # t) [c] = s # strings_Split t [c]"
  by (simp add: strings_Split_def split_acc_sep)

lemma strings_Split_Cons [simp]: "strings_Split (c # t) [c] = [] # strings_Split t [c]"
  by (simp add: strings_Split_def)

lemma split_acc_parts: "p \<in> set (split_acc [c] acc s) \<Longrightarrow> c \<notin> set acc \<Longrightarrow> c \<notin> set p"
  by (induction "[c]" acc s rule: split_acc.induct) (auto split: if_splits)

lemma strings_Split_parts: "p \<in> set (strings_Split s [c]) \<Longrightarrow> c \<notin> set p"
  by (auto simp: strings_Split_def dest: split_acc_parts)

lemma cut_no_sep: "c \<notin> set s \<Longrightarrow> dropWhile (\<lambda>x. x \<noteq> c) s = []"
  by (induction s) auto

lemma cut_sep:
  "c \<notin> set s \<Longrightarrow> dropWhile (\<lambda>x. x \<noteq> c) (s @ c # t) = c # t \<and> takeWhile (\<lambda>x. x \<noteq> c) (s @ c # t) = s"
  by (induction s) auto

lemma strings_SplitN2_no_sep: "c \<notin> set s \<Longrightarrow> strings_SplitN2 s c = [s]"
  by (simp add: strings_SplitN2_def cut_no_sep)

lemma strings_SplitN2_sep: "c \<notin> set s \<Longrightarrow> strings_SplitN2 (s @ c # t) c = [s, t]"
  using cut_sep [of c s t] by (simp add: strings_SplitN2_def del: dropWhile_append2 takeWhile_append2)

lemma strings_SplitN2_cases:
  "(c \<notin> set s \<and> strings_SplitN2 s c = [s]) \<or>
   (\<exists>a b. s = a @ c # b \<and> c \<notin> set a \<and> strings_SplitN2 s c = [a, b])"
proof (cases "c \<in> set s")
  case True
  then obtain a b where "s = a @ c # b" "c \<notin> set a" by (auto dest: split_list_first)
  then show ?thesis by (auto simp: strings_SplitN2_sep)
qed (simp add: strings_SplitN2_no_sep)

subsection \<open>Association lists as Go maps\<close>

type_synonym ('k, 'v) gomap = "('k \<times> 'v) list"

abbreviation keys :: "('k, 'v) gomap \<Rightarrow> 'k list" where
  "keys m \<equiv> map fst m"

definition wf_map :: "('k, 'v) gomap \<Rightarrow> bool" where
  "wf_map m \<longleftrightarrow> distinct (keys m)"

lemma wf_map_Nil [simp, inv_intros]: "wf_map []"
  by (simp add: wf_map_def)

lemma wf_map_update [simp, inv_intros]: "wf_map m \<Longrightarrow> wf_map (AList.update k v m)"
  by (simp add: wf_map_def distinct_update)

lemma wf_map_delete [simp, inv_intros]: "wf_map m \<Longrightarrow> wf_map (AList.delete k m)"
  by (simp add: wf_map_def distinct_delete)

lemma map_of_update [simp]: "map_of (AList.update k v m) = (map_of m)(k \<mapsto> v)"
  by (rule update_conv')

lemma map_of_delete [simp]: "map_of (AList.delete k m) = (map_of m)(k := None)"
  by (rule delete_conv')

lemma map_of_in_wf: "wf_map m \<Longrightarrow> (k, v) \<in> set m \<Longrightarrow> map_of m k = Some v"
  by (simp add: wf_map_def)

lemma wf_map_map_val [simp]: "wf_map (map (\<lambda>(k, v). (k, f k v)) m) \<longleftrightarrow> wf_map m"
  by (simp add: wf_map_def comp_def case_prod_beta)

lemma list_all_map_of: "wf_map m \<Longrightarrow> list_all P m \<longleftrightarrow> (\<forall>k v. map_of m k = Some v \<longrightarrow> P (k, v))"
  by (auto simp: list_all_iff map_of_in_wf dest: map_of_SomeD)

lemma go_bind_cong_Ret: "m = Ret a \<Longrightarrow> go_bind m f = f a"
  by simp

lemma ParseInt_range: "ParseInt s = (n, None) \<Longrightarrow> in_i64 n"
  by (auto simp: ParseInt_def ParseInt_signed_def in_i64_def split: list.splits if_splits prod.splits option.splits num_err.splits)

text \<open>
  \<open>make(chan *T, n)\<close> panics for a negative size and for one whose buffer of pointers exceeds the address
  space of 48 bits, less the header of the channel.
\<close>

definition chan_size_ok :: "int \<Rightarrow> bool" where
  "chan_size_ok n \<longleftrightarrow> 0 \<le> n \<and> 8 * n \<le> 2 ^ 48 - 96"

end
