(* ===== verification/Json.thy ===== *)
theory Json
  imports Prelude
begin

text \<open>
  The part of Go's \<open>encoding/json\<close> that pepperbus relies on: \<open>json.Marshal\<close> of structs, slices,
  strings, integers and booleans, and the parser behind \<open>json.Unmarshal\<close>. Jobs travel through Redis
  as JSON text (\<open>job.go\<close>, \<open>Encode\<close> and \<open>Decode\<close>) and the gateway answers in JSON.

  Strings are byte sequences: marshalling escapes quotes, backslashes, control bytes, the HTML
  characters and U+2028/U+2029, and replaces every byte that is not part of a well-formed UTF-8
  sequence; unmarshalling reads the escapes back and re-encodes the runes. The lemmas show that a
  well-formed UTF-8 string survives the round trip, and with it every value built from strings,
  integers, booleans, arrays and objects, nested to any depth.
\<close>

subsection \<open>UTF-8\<close>

abbreviation byte_of :: "char \<Rightarrow> nat" where
  "byte_of c \<equiv> of_char c"

definition RuneError :: nat where
  "RuneError = 65533"

definition cont_byte :: "nat \<Rightarrow> bool" where
  "cont_byte b \<longleftrightarrow> 128 \<le> b \<and> b \<le> 191"

text \<open>\<open>utf8.DecodeRune\<close>: the rune and its width; \<open>(RuneError, 1)\<close> for an ill-formed sequence.\<close>

definition decode_rune2 :: "nat \<Rightarrow> nat \<Rightarrow> nat \<times> nat" where
  "decode_rune2 b0 b1 =
     (if cont_byte b1 then ((b0 - 192) * 64 + (b1 - 128), 2) else (RuneError, 1))"

definition decode_rune3 :: "nat \<Rightarrow> nat \<Rightarrow> nat \<Rightarrow> nat \<times> nat" where
  "decode_rune3 b0 b1 b2 =
     (if (if b0 = 224 then 160 else 128) \<le> b1 \<and> b1 \<le> (if b0 = 237 then 159 else 191) \<and> cont_byte b2
      then ((b0 - 224) * 4096 + (b1 - 128) * 64 + (b2 - 128), 3) else (RuneError, 1))"

definition decode_rune4 :: "nat \<Rightarrow> nat \<Rightarrow> nat \<Rightarrow> nat \<Rightarrow> nat \<times> nat" where
  "decode_rune4 b0 b1 b2 b3 =
     (if (if b0 = 240 then 144 else 128) \<le> b1 \<and> b1 \<le> (if b0 = 244 then 143 else 191)
         \<and> cont_byte b2 \<and> cont_byte b3
      then ((b0 - 240) * 262144 + (b1 - 128) * 4096 + (b2 - 128) * 64 + (b3 - 128), 4)
      else (RuneError, 1))"

definition decode_rune :: "string \<Rightarrow> nat \<times> nat" where
  "decode_rune s =
     (case s of
        [] \<Rightarrow> (RuneError, 0)
      | c0 # s0 \<Rightarrow>
          if byte_of c0 < 128 then (byte_of c0, 1)
          else if byte_of c0 < 194 \<or> 244 < byte_of c0 then (RuneError, 1)
          else if byte_of c0 < 224 then
            (case s0 of c1 # _ \<Rightarrow> decode_rune2 (byte_of c0) (byte_of c1) | _ \<Rightarrow> (RuneError, 1))
          else if byte_of c0 < 240 then
            (case s0 of
               c1 # c2 # _ \<Rightarrow> decode_rune3 (byte_of c0) (byte_of c1) (byte_of c2)
             | _ \<Rightarrow> (RuneError, 1))
          else
            (case s0 of
               c1 # c2 # c3 # _ \<Rightarrow>
                 decode_rune4 (byte_of c0) (byte_of c1) (byte_of c2) (byte_of c3)
             | _ \<Rightarrow> (RuneError, 1)))"

text \<open>\<open>utf8.EncodeRune\<close>: surrogates and values above U+10FFFF are written as U+FFFD.\<close>

definition encode_rune :: "nat \<Rightarrow> string" where
  "encode_rune r0 =
     (let r = (if 1114111 < r0 \<or> (55296 \<le> r0 \<and> r0 \<le> 57343) then RuneError else r0)
      in map char_of
           (if r < 128 then [r]
            else if r < 2048 then [192 + r div 64, 128 + r mod 64]
            else if r < 65536 then [224 + r div 4096, 128 + (r div 64) mod 64, 128 + r mod 64]
            else [240 + r div 262144, 128 + (r div 4096) mod 64, 128 + (r div 64) mod 64,
                  128 + r mod 64]))"

lemma byte_lt [simp]: "byte_of c < 256"
  by (cases c) (simp add: of_char_def)

lemma decode_rune_width: "s \<noteq> [] \<Longrightarrow> 1 \<le> snd (decode_rune s) \<and> snd (decode_rune s) \<le> length s"
  by (cases s)
     (auto simp: decode_rune_def decode_rune2_def decode_rune3_def decode_rune4_def Let_def
       split: list.splits)

lemma base64_div_mod: "z < 64 \<Longrightarrow> (a * 64 + z) div 64 = a \<and> (a * 64 + z) mod 64 = (z::nat)"
  by simp

lemma encode_decode2:
  assumes "194 \<le> b0" "b0 < 224" "decode_rune2 b0 b1 = (r, n)" "n \<noteq> 1"
  shows "n = 2 \<and> encode_rune r = [char_of b0, char_of b1]"
proof -
  obtain x y where xy: "b0 = 192 + x" "b1 = 128 + y" and b: "2 \<le> x" "x < 32" "y < 64"
    and n: "n = 2" and r: "r = x * 64 + y"
    using assms
    by (auto simp: decode_rune2_def cont_byte_def split: if_splits
        intro!: that [of "b0 - 192" "b1 - 128"])
  have "r div 64 = x" "r mod 64 = y" "128 \<le> r" "r < 2048"
    using r b base64_div_mod [of y x] by auto
  with xy n show ?thesis by (simp add: encode_rune_def Let_def)
qed

lemma encode_decode3:
  assumes "224 \<le> b0" "b0 < 240" "decode_rune3 b0 b1 b2 = (r, n)" "n \<noteq> 1"
  shows "n = 3 \<and> encode_rune r = [char_of b0, char_of b1, char_of b2]"
proof -
  obtain x y z where xyz: "b0 = 224 + x" "b1 = 128 + y" "b2 = 128 + z"
    and b: "x < 16" "y < 64" "z < 64" "x = 0 \<Longrightarrow> 32 \<le> y" "x = 13 \<Longrightarrow> y < 32"
    and n: "n = 3" and r: "r = (x * 64 + y) * 64 + z"
    using assms
    by (auto simp: decode_rune3_def cont_byte_def split: if_splits
        intro!: that [of "b0 - 224" "b1 - 128" "b2 - 128"])
  have d: "r div 64 = x * 64 + y" "r mod 64 = z" "(r div 64) mod 64 = y" "(r div 64) div 64 = x"
    using r b base64_div_mod [of z "x * 64 + y"] base64_div_mod [of y x] by simp_all
  then have d': "r div 4096 = x" by (simp add: div_mult2_eq [of r 64 64, simplified])
  have "2048 \<le> r" "r < 65536" "\<not> (55296 \<le> r \<and> r \<le> 57343)"
    using r b by (cases "x = 0"; cases "x = 13"; auto)+
  with d d' xyz n show ?thesis by (auto simp: encode_rune_def Let_def)
qed

lemma encode_decode4:
  assumes "240 \<le> b0" "b0 \<le> 244" "decode_rune4 b0 b1 b2 b3 = (r, n)" "n \<noteq> 1"
  shows "n = 4 \<and> encode_rune r = [char_of b0, char_of b1, char_of b2, char_of b3]"
proof -
  obtain x y z u where xyz: "b0 = 240 + x" "b1 = 128 + y" "b2 = 128 + z" "b3 = 128 + u"
    and b: "x \<le> 4" "y < 64" "z < 64" "u < 64" "x = 0 \<Longrightarrow> 16 \<le> y" "x = 4 \<Longrightarrow> y < 16"
    and n: "n = 4" and r0: "r = x * 262144 + y * 4096 + z * 64 + u"
    using assms
    by (auto simp: decode_rune4_def cont_byte_def split: if_splits
        intro!: that [of "b0 - 240" "b1 - 128" "b2 - 128" "b3 - 128"])
  have r: "r = ((x * 64 + y) * 64 + z) * 64 + u" using r0 by simp
  have d: "r mod 64 = u" "(r div 64) mod 64 = z" "((r div 64) div 64) mod 64 = y"
    "((r div 64) div 64) div 64 = x"
    using r b base64_div_mod [of u "(x * 64 + y) * 64 + z"] base64_div_mod [of z "x * 64 + y"]
      base64_div_mod [of y x] by simp_all
  then have d': "r div 262144 = x" "(r div 4096) mod 64 = y"
    by (simp_all add: div_mult2_eq [of r 64 64, simplified] div_mult2_eq [of r 4096 64, simplified])
  have "65536 \<le> r" "r \<le> 1114111"
    using r b by (cases "x = 0"; cases "x = 4"; auto)+
  with d d' xyz n show ?thesis by (auto simp: encode_rune_def Let_def)
qed

text \<open>Re-encoding a decoded rune gives the same bytes, unless the sequence was ill-formed.\<close>

lemma encode_decode_rune:
  assumes "decode_rune s = (r, n)" "s \<noteq> []" "\<not> (r = RuneError \<and> n = 1)"
  shows "encode_rune r = take n s"
proof -
  obtain c0 s0 where s: "s = c0 # s0" using assms(2) by (cases s) auto
  show ?thesis
  proof (cases "byte_of c0 < 128")
    case True
    with assms s show ?thesis
      by (auto simp: decode_rune_def encode_rune_def Let_def RuneError_def)
  next
    case False
    have n1: "n \<noteq> 1"
      using assms s False
      by (auto simp: decode_rune_def decode_rune2_def decode_rune3_def decode_rune4_def
          split: list.splits if_splits)
    consider "byte_of c0 < 224" | "224 \<le> byte_of c0" "byte_of c0 < 240" | "240 \<le> byte_of c0"
      by linarith
    then show ?thesis
    proof cases
      case 1
      then show ?thesis using assms s False n1
        by (auto simp: decode_rune_def split: if_splits list.splits dest!: encode_decode2 [rotated 2])
    next
      case 2
      then show ?thesis using assms s n1
        by (auto simp: decode_rune_def split: if_splits list.splits dest!: encode_decode3 [rotated 2])
    next
      case 3
      then show ?thesis using assms s n1
        by (auto simp: decode_rune_def split: if_splits list.splits dest!: encode_decode4 [rotated 2])
    qed
  qed
qed

subsection \<open>Marshalling\<close>

datatype json =
    JNull | JBool bool | JNum string | JStr string
  | JArr "json list" | JObj "(string \<times> json) list"

abbreviation quote_char :: char where "quote_char \<equiv> CHR 0x22"
abbreviation backslash :: char where "backslash \<equiv> CHR 0x5C"

definition hex_char :: "nat \<Rightarrow> char" where
  "hex_char n = (if n < 10 then char_of (48 + n) else char_of (87 + n))"

text \<open>One byte below 0x80: \<open>encodeState.string\<close> with \<open>escapeHTML\<close> on.\<close>

definition escape_ascii :: "char \<Rightarrow> string" where
  "escape_ascii c =
     (if c = quote_char \<or> c = backslash then [backslash, c]
      else if c = CHR 0x0A then [backslash, CHR ''n'']
      else if c = CHR 0x0D then [backslash, CHR ''r'']
      else if c = CHR 0x09 then [backslash, CHR ''t'']
      else if byte_of c < 32 \<or> c = CHR ''<'' \<or> c = CHR ''>'' \<or> c = CHR ''&''
      then [backslash, CHR ''u'', CHR ''0'', CHR ''0'',
            hex_char (byte_of c div 16), hex_char (byte_of c mod 16)]
      else [c])"

fun json_escape :: "string \<Rightarrow> string" where
  "json_escape [] = []"
| "json_escape (c # s) =
     (if byte_of c < 128 then escape_ascii c @ json_escape s
      else
        let r = fst (decode_rune (c # s)); n = snd (decode_rune (c # s)) in
        if r = RuneError \<and> n = 1 then backslash # ''ufffd'' @ json_escape s
        else if r = 8232 \<or> r = 8233
        then backslash # ''u202'' @ hex_char (r mod 16) # json_escape (drop (n - 1) s)
        else take n (c # s) @ json_escape (drop (n - 1) s))"

definition json_quote :: "string \<Rightarrow> string" where
  "json_quote s = quote_char # json_escape s @ [quote_char]"

fun json_marshal :: "json \<Rightarrow> string" where
  "json_marshal JNull = ''null''"
| "json_marshal (JBool b) = (if b then ''true'' else ''false'')"
| "json_marshal (JNum raw) = raw"
| "json_marshal (JStr s) = json_quote s"
| "json_marshal (JArr vs) =
     CHR ''['' # strings_Join (map json_marshal vs) '','' @ '']''"
| "json_marshal (JObj kvs) =
     CHR ''{'' # strings_Join (map (\<lambda>kv. json_quote (fst kv) @ '':'' @ json_marshal (snd kv)) kvs) '',''
     @ ''}''"

subsection \<open>Parsing\<close>

definition is_ws :: "char \<Rightarrow> bool" where
  "is_ws c \<longleftrightarrow> c = CHR '' '' \<or> c = CHR 0x09 \<or> c = CHR 0x0A \<or> c = CHR 0x0D"

definition skip_ws :: "string \<Rightarrow> string" where
  "skip_ws = dropWhile is_ws"

definition hex_val :: "char \<Rightarrow> nat option" where
  "hex_val c =
     (let b = byte_of c in
      if 48 \<le> b \<and> b \<le> 57 then Some (b - 48)
      else if 97 \<le> b \<and> b \<le> 102 then Some (b - 87)
      else if 65 \<le> b \<and> b \<le> 70 then Some (b - 55)
      else None)"

text \<open>Four hexadecimal digits, and a whole \<open>\uXXXX\<close> escape.\<close>

definition hex4 :: "string \<Rightarrow> (nat \<times> string) option" where
  "hex4 s =
     (case s of
        a # b # c # d # r \<Rightarrow>
          (case (hex_val a, hex_val b, hex_val c, hex_val d) of
             (Some a', Some b', Some c', Some d') \<Rightarrow>
               Some (a' * 4096 + b' * 256 + c' * 16 + d', r)
           | _ \<Rightarrow> None)
      | _ \<Rightarrow> None)"

definition hex_escape :: "string \<Rightarrow> (nat \<times> string) option" where
  "hex_escape s =
     (case s of
        b # u # r \<Rightarrow> if b = backslash \<and> u = CHR ''u'' then hex4 r else None
      | _ \<Rightarrow> None)"

definition surrogate :: "nat \<Rightarrow> bool" where
  "surrogate r \<longleftrightarrow> 55296 \<le> r \<and> r \<le> 57343"

text \<open>\<open>utf16.DecodeRune\<close> of a surrogate and the escape that follows it, if they form a pair.\<close>

definition surrogate_pair :: "nat \<Rightarrow> nat \<Rightarrow> nat option" where
  "surrogate_pair r1 r2 =
     (if r1 < 56320 \<and> 56320 \<le> r2 \<and> r2 \<le> 57343
      then Some ((r1 - 55296) * 1024 + (r2 - 56320) + 65536) else None)"

definition unescape_char :: "char \<Rightarrow> char option" where
  "unescape_char e =
     (if e = quote_char \<or> e = backslash \<or> e = CHR ''/'' then Some e
      else if e = CHR ''b'' then Some (CHR 0x08)
      else if e = CHR ''f'' then Some (CHR 0x0C)
      else if e = CHR ''n'' then Some (CHR 0x0A)
      else if e = CHR ''r'' then Some (CHR 0x0D)
      else if e = CHR ''t'' then Some (CHR 0x09)
      else None)"

abbreviation prepend :: "string \<Rightarrow> (string \<times> string) option \<Rightarrow> (string \<times> string) option" where
  "prepend t \<equiv> map_option (\<lambda>(u, r). (t @ u, r))"

lemma hex4_len: "hex4 s = Some (r, t) \<Longrightarrow> length s = length t + 4"
  by (auto simp: hex4_def split: list.splits option.splits)

lemma hex_escape_len: "hex_escape s = Some (r, t) \<Longrightarrow> length s = length t + 6"
  by (auto simp: hex_escape_def dest: hex4_len split: list.splits if_splits)

text \<open>
  \<open>unquote s\<close> reads a string literal behind its opening quote: the bytes it stands for and the rest
  behind the closing quote.
\<close>

function unquote :: "string \<Rightarrow> (string \<times> string) option" where
  "unquote [] = None"
| "unquote (c # s) =
     (if c = quote_char then Some ([], s)
      else if c = backslash then
        (case s of
           [] \<Rightarrow> None
         | e # s' \<Rightarrow>
             if e = CHR ''u'' then
               (case hex4 s' of
                  None \<Rightarrow> None
                | Some (r, s2) \<Rightarrow>
                    if surrogate r then
                      (case hex_escape s2 of
                         None \<Rightarrow> prepend (encode_rune RuneError) (unquote s2)
                       | Some (r2, s3) \<Rightarrow>
                           (case surrogate_pair r r2 of
                              None \<Rightarrow> prepend (encode_rune RuneError) (unquote s2)
                            | Some rr \<Rightarrow> prepend (encode_rune rr) (unquote s3)))
                    else prepend (encode_rune r) (unquote s2))
             else
               (case unescape_char e of
                  None \<Rightarrow> None
                | Some d \<Rightarrow> prepend [d] (unquote s')))
      else if byte_of c < 32 then None
      else if byte_of c < 128 then prepend [c] (unquote s)
      else prepend (encode_rune (fst (decode_rune (c # s))))
             (unquote (drop (snd (decode_rune (c # s)) - 1) s)))"
  by pat_completeness auto
termination
  by (relation "measure length") (auto dest!: hex4_len hex_escape_len)

declare unquote.simps [simp del]

lemma unquote_len: "unquote s = Some (t, r) \<Longrightarrow> length r < length s"
proof (induction s arbitrary: t r rule: unquote.induct)
  case (2 c s)
  then show ?case
    by (fastforce simp: unquote.simps(2) [of c s] dest: hex4_len hex_escape_len
        split: if_splits list.splits option.splits)
qed (simp add: unquote.simps)

definition is_digit :: "char \<Rightarrow> bool" where
  "is_digit c \<longleftrightarrow> digit_val c \<noteq> None"

definition scan_digits :: "string \<Rightarrow> (string \<times> string) option" where
  "scan_digits s =
     (if takeWhile is_digit s = [] then None else Some (takeWhile is_digit s, dropWhile is_digit s))"

text \<open>The number grammar: sign, integer part without a leading zero, fraction, exponent.\<close>

definition scan_int :: "string \<Rightarrow> (string \<times> string) option" where
  "scan_int s = (case s of c # r \<Rightarrow> if c = CHR ''0'' then Some ([c], r) else scan_digits s | _ \<Rightarrow> None)"

definition scan_frac :: "string \<Rightarrow> (string \<times> string) option" where
  "scan_frac s =
     (case s of c # r \<Rightarrow> if c = CHR ''.'' then prepend [c] (scan_digits r) else Some ([], s)
      | _ \<Rightarrow> Some ([], s))"

definition scan_exp :: "string \<Rightarrow> (string \<times> string) option" where
  "scan_exp s =
     (case s of
        c # r \<Rightarrow>
          if c = CHR ''e'' \<or> c = CHR ''E'' then
            (case r of
               d # r' \<Rightarrow> if d = CHR ''+'' \<or> d = CHR ''-'' then prepend [c, d] (scan_digits r')
                          else prepend [c] (scan_digits r)
             | _ \<Rightarrow> None)
          else Some ([], s)
      | _ \<Rightarrow> Some ([], s))"

definition scan_unsigned :: "string \<Rightarrow> (string \<times> string) option" where
  "scan_unsigned s =
     (case scan_int s of
        None \<Rightarrow> None
      | Some (a, r) \<Rightarrow>
          (case scan_frac r of
             None \<Rightarrow> None
           | Some (b, r') \<Rightarrow> prepend (a @ b) (scan_exp r')))"

definition scan_number :: "string \<Rightarrow> (string \<times> string) option" where
  "scan_number s =
     (case s of c # r \<Rightarrow> if c = CHR ''-'' then prepend [c] (scan_unsigned r) else scan_unsigned s
      | _ \<Rightarrow> None)"

definition scan_literal :: "string \<Rightarrow> json \<Rightarrow> string \<Rightarrow> (json \<times> string) option" where
  "scan_literal lit v s = (if has_prefix lit s then Some (v, drop (length lit) s) else None)"

text \<open>
  Values, array elements and object members. The guards \<open>length r < length s\<close> always hold
  (\<open>parse_len\<close> below); they make the recursion well-founded.
\<close>

lemma skip_ws_len: "length (skip_ws s) \<le> length s"
  by (simp add: skip_ws_def length_dropWhile_le)

lemma skip_ws_Cons_len: "skip_ws s = c # r \<Longrightarrow> length r < length s"
  using skip_ws_len [of s] by simp

function parse_value :: "string \<Rightarrow> (json \<times> string) option"
  and parse_elems :: "string \<Rightarrow> (json list \<times> string) option"
  and parse_members :: "string \<Rightarrow> ((string \<times> json) list \<times> string) option" where
  "parse_value s =
     (case skip_ws s of
        [] \<Rightarrow> None
      | c # r \<Rightarrow>
          if c = quote_char then map_option (\<lambda>(t, r'). (JStr t, r')) (unquote r)
          else if c = CHR ''{'' then
            (if take 1 (skip_ws r) = ''}'' then Some (JObj [], drop 1 (skip_ws r))
             else map_option (\<lambda>(kvs, r'). (JObj kvs, r')) (parse_members r))
          else if c = CHR ''['' then
            (if take 1 (skip_ws r) = '']'' then Some (JArr [], drop 1 (skip_ws r))
             else map_option (\<lambda>(vs, r'). (JArr vs, r')) (parse_elems r))
          else if c = CHR ''t'' then scan_literal ''true'' (JBool True) (c # r)
          else if c = CHR ''f'' then scan_literal ''false'' (JBool False) (c # r)
          else if c = CHR ''n'' then scan_literal ''null'' JNull (c # r)
          else map_option (\<lambda>(raw, r'). (JNum raw, r')) (scan_number (c # r)))"
| "parse_elems s =
     (case parse_value s of
        None \<Rightarrow> None
      | Some (v, r) \<Rightarrow>
          (case skip_ws r of
             [] \<Rightarrow> None
           | c # r' \<Rightarrow>
               if c = CHR '','' \<and> length r' < length s
               then map_option (\<lambda>(vs, t). (v # vs, t)) (parse_elems r')
               else if c = CHR '']'' then Some ([v], r') else None))"
| "parse_members s =
     (case skip_ws s of
        [] \<Rightarrow> None
      | q # r0 \<Rightarrow>
          if q \<noteq> quote_char then None
          else
            (case unquote r0 of
               None \<Rightarrow> None
             | Some (k, r1) \<Rightarrow>
                 (case skip_ws r1 of
                    [] \<Rightarrow> None
                  | d # r2 \<Rightarrow>
                      if d \<noteq> CHR '':'' then None
                      else
                        (case parse_value r2 of
                           None \<Rightarrow> None
                         | Some (v, r) \<Rightarrow>
                             (case skip_ws r of
                                [] \<Rightarrow> None
                              | c # r' \<Rightarrow>
                                  if c = CHR '','' \<and> length r' < length s
                                  then map_option (\<lambda>(kvs, t). ((k, v) # kvs, t)) (parse_members r')
                                  else if c = CHR ''}'' then Some ([(k, v)], r') else None)))))"
  by pat_completeness auto
termination
  by (relation "measure (case_sum (\<lambda>s. 2 * length s) (case_sum (\<lambda>s. 2 * length s + 1) (\<lambda>s. 2 * length s + 1)))")
     (auto dest!: skip_ws_Cons_len unquote_len)

declare parse_value.simps [simp del] parse_elems.simps [simp del] parse_members.simps [simp del]

definition json_parse :: "string \<Rightarrow> json option" where
  "json_parse s =
     (case parse_value s of
        None \<Rightarrow> None
      | Some (v, r) \<Rightarrow> if skip_ws r = [] then Some v else None)"

subsection \<open>Round trips\<close>

fun valid_utf8 :: "string \<Rightarrow> bool" where
  "valid_utf8 [] = True"
| "valid_utf8 (c # s) =
     (\<not> (fst (decode_rune (c # s)) = RuneError \<and> snd (decode_rune (c # s)) = 1)
      \<and> valid_utf8 (drop (snd (decode_rune (c # s)) - 1) s))"

declare valid_utf8.simps(2) [simp del]

lemma decode_rune_ascii: "byte_of c < 128 \<Longrightarrow> decode_rune (c # s) = (byte_of c, 1)"
  by (simp add: decode_rune_def)

lemma valid_utf8_ascii: "list_all (\<lambda>c. byte_of c < 128) s \<Longrightarrow> valid_utf8 s"
  by (induction s) (auto simp: valid_utf8.simps(2) decode_rune_ascii RuneError_def)

lemma valid_utf8_append_ascii:
  "byte_of c < 128 \<Longrightarrow> valid_utf8 (c # s) \<longleftrightarrow> valid_utf8 s"
  by (auto simp: valid_utf8.simps(2) decode_rune_ascii RuneError_def)

lemma valid_utf8_digits: "all_digits s \<Longrightarrow> valid_utf8 s"
  by (rule valid_utf8_ascii) (auto simp: all_digits_def list_all_iff digit_val_def split: if_splits)

lemma hex_val_char [simp]: "n < 16 \<Longrightarrow> hex_val (hex_char n) = Some n"
  by (auto simp: hex_val_def hex_char_def Let_def)

lemma hex4_low:
  "h < 16 \<Longrightarrow> l < 16 \<Longrightarrow> hex4 (CHR ''0'' # CHR ''0'' # hex_char h # hex_char l # t) = Some (h * 16 + l, t)"
proof -
  have "hex_val (CHR ''0'') = Some 0" by (simp add: hex_val_def)
  then show "h < 16 \<Longrightarrow> l < 16 \<Longrightarrow> ?thesis" by (simp add: hex4_def)
qed

lemma encode_rune_ascii: "byte_of c < 128 \<Longrightarrow> encode_rune (byte_of c) = [c]"
  by (simp add: encode_rune_def Let_def)

lemma unquote_u:
  "hex4 s = Some (r, t) \<Longrightarrow> \<not> surrogate r \<Longrightarrow>
   unquote (backslash # CHR ''u'' # s) = prepend (encode_rune r) (unquote t)"
  by (simp add: unquote.simps)

lemma unquote_esc:
  "unescape_char e = Some d \<Longrightarrow> e \<noteq> CHR ''u'' \<Longrightarrow>
   unquote (backslash # e # t) = prepend [d] (unquote t)"
  by (simp add: unquote.simps)

lemma unquote_escape_ascii:
  assumes "byte_of c < 128"
  shows "unquote (escape_ascii c @ t) = prepend [c] (unquote t)"
proof -
  have plain: ?thesis if "escape_ascii c = [c]" "c \<noteq> quote_char" "c \<noteq> backslash" "\<not> byte_of c < 32"
    using that assms by (simp add: unquote.simps)
  have hex: ?thesis
    if "escape_ascii c = [backslash, CHR 0x75, CHR 0x30, CHR 0x30,
              hex_char (byte_of c div 16), hex_char (byte_of c mod 16)]"
  proof -
    have "byte_of c div 16 * 16 + byte_of c mod 16 = byte_of c" by (rule div_mult_mod_eq)
    then have "hex4 (CHR 0x30 # CHR 0x30 # hex_char (byte_of c div 16) # hex_char (byte_of c mod 16) # t)
        = Some (byte_of c, t)"
      using hex4_low [of "byte_of c div 16" "byte_of c mod 16" t] assms by simp
    moreover have "\<not> surrogate (byte_of c)" using assms by (simp add: surrogate_def)
    ultimately show ?thesis
      using that assms by (simp add: unquote_u encode_rune_ascii)
  qed
  show ?thesis
  proof (cases "c = quote_char \<or> c = backslash \<or> c = CHR 0x0A \<or> c = CHR 0x0D \<or> c = CHR 0x09")
    case True
    then show ?thesis
      by (elim disjE) (simp_all add: escape_ascii_def unescape_char_def unquote_esc)
  next
    case ne: False
    show ?thesis
    proof (cases "byte_of c < 32 \<or> c = CHR ''<'' \<or> c = CHR ''>'' \<or> c = CHR ''&''")
      case True
      with ne show ?thesis by (intro hex) (simp add: escape_ascii_def)
    next
      case False
      with ne show ?thesis by (intro plain) (simp_all add: escape_ascii_def)
    qed
  qed
qed

lemma decode_rune_cong2:
  "\<not> byte_of c0 < 194 \<Longrightarrow> byte_of c0 < 224 \<Longrightarrow> decode_rune (c0 # c1 # s) = decode_rune2 (byte_of c0) (byte_of c1)"
  by (simp add: decode_rune_def)

lemma decode_rune_cong3:
  "224 \<le> byte_of c0 \<Longrightarrow> byte_of c0 < 240 \<Longrightarrow>
   decode_rune (c0 # c1 # c2 # s) = decode_rune3 (byte_of c0) (byte_of c1) (byte_of c2)"
  by (simp add: decode_rune_def)

lemma decode_rune_cong4:
  "240 \<le> byte_of c0 \<Longrightarrow> byte_of c0 \<le> 244 \<Longrightarrow>
   decode_rune (c0 # c1 # c2 # c3 # s) = decode_rune4 (byte_of c0) (byte_of c1) (byte_of c2) (byte_of c3)"
  by (simp add: decode_rune_def)

lemma decode_rune_wide_cases:
  assumes "decode_rune (c0 # s) = (r, n)" "\<not> byte_of c0 < 128" "n \<noteq> 1"
  obtains (two) c1 s1 where "s = c1 # s1" "n = 2" "\<not> byte_of c0 < 194" "byte_of c0 < 224"
    | (three) c1 c2 s1 where "s = c1 # c2 # s1" "n = 3" "224 \<le> byte_of c0" "byte_of c0 < 240"
    | (four) c1 c2 c3 s1 where "s = c1 # c2 # c3 # s1" "n = 4" "240 \<le> byte_of c0" "byte_of c0 \<le> 244"
proof -
  have rng: "\<not> byte_of c0 < 194" "byte_of c0 \<le> 244"
    using assms by (auto simp: decode_rune_def split: if_splits)
  consider "byte_of c0 < 224" | "224 \<le> byte_of c0" "byte_of c0 < 240" | "240 \<le> byte_of c0"
    by linarith
  then show thesis
  proof cases
    case 1
    with assms rng two show ?thesis
      by (auto simp: decode_rune_def decode_rune2_def split: list.splits if_splits)
  next
    case 2
    with assms rng three show ?thesis
      by (auto simp: decode_rune_def decode_rune3_def split: list.splits if_splits)
  next
    case 3
    with assms rng four show ?thesis
      by (auto simp: decode_rune_def decode_rune4_def split: list.splits if_splits)
  qed
qed

lemma decode_rune_cong:
  assumes "decode_rune (c0 # s) = (r, n)" "\<not> byte_of c0 < 128" "n \<noteq> 1"
  shows "decode_rune (take n (c0 # s) @ t) = (r, n)"
  using assms
proof (cases rule: decode_rune_wide_cases)
  case two
  with assms(1) show ?thesis by (simp add: decode_rune_cong2)
next
  case three
  with assms(1) show ?thesis by (simp add: decode_rune_cong3)
next
  case four
  with assms(1) show ?thesis by (simp add: decode_rune_cong4)
qed

lemma decode_rune_wide:
  assumes "decode_rune (c # s) = (r, n)" "\<not> byte_of c < 128" "\<not> (r = RuneError \<and> n = 1)"
  shows "n \<noteq> 1"
  using assms
  by (auto simp: decode_rune_def decode_rune2_def decode_rune3_def decode_rune4_def
      split: list.splits if_splits)

lemma unquote_wide:
  assumes "decode_rune (c # s) = (r, n)" "\<not> byte_of c < 128" "\<not> (r = RuneError \<and> n = 1)"
  shows "unquote (take n (c # s) @ t) = prepend (take n (c # s)) (unquote t)"
proof -
  have n: "n \<noteq> 1" using assms by (rule decode_rune_wide)
  have w: "1 \<le> n" "n \<le> length (c # s)" using decode_rune_width [of "c # s"] assms(1) by auto
  have d: "decode_rune (take n (c # s) @ t) = (r, n)"
    using decode_rune_cong [OF assms(1,2) n] .
  have c: "c \<noteq> quote_char" "c \<noteq> backslash" "\<not> byte_of c < 32"
    using assms(2) by auto
  obtain m where m: "n = Suc m" using w(1) by (cases n) auto
  have "length (take m s) = m" using w(2) m by simp
  then have "drop m (take m s @ t) = t" by simp
  then show ?thesis
    using c assms(2) d m encode_decode_rune [OF assms(1) _ assms(3)]
    by (simp add: unquote.simps(2))
qed

text \<open>
  A string as it comes back from marshalling and unmarshalling: every byte that does not belong to
  well-formed UTF-8 becomes U+FFFD.
\<close>

fun to_valid :: "string \<Rightarrow> string" where
  "to_valid [] = []"
| "to_valid (c # s) =
     (let r = fst (decode_rune (c # s)); n = snd (decode_rune (c # s)) in
      if r = RuneError \<and> n = 1 then encode_rune RuneError @ to_valid s
      else take n (c # s) @ to_valid (drop (n - 1) s))"

declare to_valid.simps(2) [simp del]

lemma to_valid_ascii: "byte_of c < 128 \<Longrightarrow> to_valid (c # s) = c # to_valid s"
  by (simp add: to_valid.simps(2) decode_rune_ascii RuneError_def)

lemma to_valid_id: "valid_utf8 s \<Longrightarrow> to_valid s = s"
proof (induction s rule: to_valid.induct)
  case (2 c s)
  obtain r n where rn: "decode_rune (c # s) = (r, n)" by (cases "decode_rune (c # s)")
  then have ok: "\<not> (r = RuneError \<and> n = 1)" "valid_utf8 (drop (n - 1) s)"
    using "2.prems" by (simp_all add: valid_utf8.simps(2))
  have "1 \<le> n" using decode_rune_width [of "c # s"] rn by auto
  then show ?case using "2.IH"(2) [OF refl refl] rn ok by (cases n) (auto simp: to_valid.simps(2))
qed simp

lemma unquote_escape: "unquote (json_escape s @ quote_char # t) = Some (to_valid s, t)"
proof (induction s rule: json_escape.induct)
  case 1
  then show ?case by (simp add: unquote.simps)
next
  case (2 c s)
  obtain r n where rn: "decode_rune (c # s) = (r, n)" by (cases "decode_rune (c # s)")
  consider "byte_of c < 128" | "\<not> byte_of c < 128" "r = RuneError \<and> n = 1"
    | "\<not> byte_of c < 128" "\<not> (r = RuneError \<and> n = 1)" "r = 8232 \<or> r = 8233"
    | "\<not> byte_of c < 128" "\<not> (r = RuneError \<and> n = 1)" "\<not> (r = 8232 \<or> r = 8233)" by blast
  then show ?case
  proof cases
    case 1
    then show ?thesis using "2.IH" by (simp add: unquote_escape_ascii to_valid_ascii)
  next
    case 2
    have "hex4 (''fffd'' @ u) = Some (RuneError, u)" for u by (simp add: hex4_def hex_val_def RuneError_def)
    moreover have "\<not> surrogate RuneError" by (simp add: surrogate_def RuneError_def)
    ultimately show ?thesis using 2 rn "2.IH" by (simp add: unquote_u to_valid.simps(2))
  next
    case 3
    have "hex4 (''202'' @ hex_char (r mod 16) # u) = Some (r, u)" for u
      using 3(3) by (auto simp: hex4_def hex_val_def hex_char_def)
    moreover have "\<not> surrogate r" using 3(3) by (auto simp: surrogate_def)
    moreover have "encode_rune r = take n (c # s)" using encode_decode_rune [OF rn] 3 by simp
    ultimately show ?thesis using 3 rn "2.IH" by (auto simp: unquote_u Let_def to_valid.simps(2))
  next
    case 4
    show ?thesis using 4 rn "2.IH" unquote_wide [OF rn 4(1,2)] by (auto simp: Let_def to_valid.simps(2))
  qed
qed

lemma takeWhile_digits:
  "all_digits s \<Longrightarrow> (r = [] \<or> \<not> is_digit (hd r)) \<Longrightarrow>
   takeWhile is_digit (s @ r) = s \<and> dropWhile is_digit (s @ r) = r"
  by (induction s) (cases r; auto simp: is_digit_def)+

lemma show_nat_hd0: "0 < n \<Longrightarrow> hd (show_nat n) \<noteq> CHR ''0''"
proof (induction n rule: show_nat.induct)
  case (1 n)
  show ?case
  proof (cases "n < 10")
    case True
    have "digit_val (CHR ''0'') = Some 0" by (simp add: digit_val_def)
    then have "digit_char n \<noteq> CHR ''0''"
      using digit_val_char [OF True] "1.prems" by (metis less_numeral_extra(3) option.inject)
    with True show ?thesis by (simp add: show_nat.simps [of n])
  next
    case False
    with 1 show ?thesis by (simp add: show_nat.simps [of n])
  qed
qed

definition delim :: "string \<Rightarrow> bool" where
  "delim r \<longleftrightarrow> r = [] \<or> hd r = CHR '','' \<or> hd r = CHR ''}'' \<or> hd r = CHR '']''"

lemma delim_not_digit: "delim r \<Longrightarrow> r = [] \<or> \<not> is_digit (hd r)"
  by (auto simp: delim_def is_digit_def digit_val_def)

lemma delim_scan: "delim r \<Longrightarrow> scan_frac r = Some ([], r) \<and> scan_exp r = Some ([], r)"
  by (cases r) (auto simp: delim_def scan_frac_def scan_exp_def)

lemma scan_int_show_nat:
  assumes "delim r" shows "scan_int (show_nat n @ r) = Some (show_nat n, r)"
proof (cases "n = 0")
  case True
  have "show_nat 0 = [CHR ''0'']" by code_simp
  with True show ?thesis by (simp add: scan_int_def)
next
  case False
  obtain c t where ct: "show_nat n = c # t" by (cases "show_nat n") auto
  with False have "c \<noteq> CHR ''0''" using show_nat_hd0 [of n] by simp
  with ct show ?thesis
    using takeWhile_digits [OF show_nat_digits delim_not_digit [OF assms], of n]
    by (simp add: scan_int_def scan_digits_def)
qed

lemma scan_unsigned_show_nat: "delim r \<Longrightarrow> scan_unsigned (show_nat n @ r) = Some (show_nat n, r)"
  by (simp add: scan_unsigned_def scan_int_show_nat delim_scan)

lemma scan_number_show_int: "delim r \<Longrightarrow> scan_number (show_int i @ r) = Some (show_int i, r)"
proof (cases "i < 0")
  case True
  assume "delim r"
  with True show ?thesis by (simp add: scan_number_def show_int_def scan_unsigned_show_nat)
next
  case False
  assume r: "delim r"
  obtain c t where ct: "show_nat (nat i) = c # t" by (cases "show_nat (nat i)") auto
  then have "c \<noteq> CHR ''-''" using show_nat_hd_digit [OF ct] by auto
  with False r ct show ?thesis
    using scan_unsigned_show_nat [OF r, of "nat i"] by (simp add: scan_number_def show_int_def)
qed

text \<open>The scalars of a flat struct: strings, integers, booleans.\<close>

fun scalar_ok :: "json \<Rightarrow> bool" where
  "scalar_ok (JStr s) = valid_utf8 s"
| "scalar_ok (JBool b) = True"
| "scalar_ok JNull = True"
| "scalar_ok (JNum raw) = (\<exists>i. raw = show_int i)"
| "scalar_ok _ = False"

text \<open>Values whose numbers are integers in decimal, and such a value as it comes back.\<close>

fun nums_ok :: "json \<Rightarrow> bool" where
  "nums_ok (JNum raw) = (\<exists>i. raw = show_int i)"
| "nums_ok (JArr vs) = list_all nums_ok vs"
| "nums_ok (JObj kvs) = list_all (\<lambda>kv. nums_ok (snd kv)) kvs"
| "nums_ok _ = True"

fun json_clean :: "json \<Rightarrow> json" where
  "json_clean (JStr s) = JStr (to_valid s)"
| "json_clean (JArr vs) = JArr (map json_clean vs)"
| "json_clean (JObj kvs) = JObj (map (\<lambda>kv. (to_valid (fst kv), json_clean (snd kv))) kvs)"
| "json_clean v = v"

lemma skip_ws_Cons [simp]: "\<not> is_ws c \<Longrightarrow> skip_ws (c # s) = c # s"
  by (simp add: skip_ws_def)

lemma not_ws [simp]:
  "\<not> is_ws quote_char" "\<not> is_ws (CHR '','')" "\<not> is_ws (CHR ''}'')" "\<not> is_ws (CHR ''{'')"
  "\<not> is_ws (CHR '':'')" "\<not> is_ws (CHR ''['')" "\<not> is_ws (CHR '']'')" "\<not> is_ws (CHR ''t'')"
  "\<not> is_ws (CHR ''f'')" "\<not> is_ws (CHR ''n'')" "\<not> is_ws (CHR ''-'')"
  by (simp_all add: is_ws_def)

lemma is_digit_not_ws: "is_digit c \<Longrightarrow> \<not> is_ws c"
  by (auto simp: is_digit_def is_ws_def digit_val_def split: if_splits)

lemma show_int_hd:
  "\<exists>c t. show_int i = c # t \<and> (is_digit c \<or> c = CHR ''-'')"
proof (cases "i < 0")
  case False
  obtain c t where "show_nat (nat i) = c # t" by (cases "show_nat (nat i)") auto
  with False show ?thesis using show_nat_hd_digit by (auto simp: show_int_def is_digit_def)
qed (simp add: show_int_def)

lemma is_digit_ne:
  assumes "is_digit c"
  shows "c \<noteq> quote_char" "c \<noteq> CHR ''{''" "c \<noteq> CHR ''[''" "c \<noteq> CHR ''t''" "c \<noteq> CHR ''f''" "c \<noteq> CHR ''n''"
  using assms by (auto simp: is_digit_def digit_val_def split: if_splits)

lemma parse_value_int: "delim r \<Longrightarrow> parse_value (show_int i @ r) = Some (JNum (show_int i), r)"
proof -
  assume r: "delim r"
  obtain c t where ct: "show_int i = c # t" and c: "is_digit c \<or> c = CHR ''-''"
    using show_int_hd by blast
  have ws: "skip_ws (show_int i @ r) = c # t @ r"
    using ct c is_digit_not_ws by auto
  have "c \<noteq> quote_char \<and> c \<noteq> CHR ''{'' \<and> c \<noteq> CHR ''['' \<and> c \<noteq> CHR ''t'' \<and> c \<noteq> CHR ''f'' \<and> c \<noteq> CHR ''n''"
    using c is_digit_ne [of c] by auto
  with ws scan_number_show_int [OF r, of i] ct show ?thesis
    by (simp add: parse_value.simps)
qed

abbreviation member_text :: "string \<times> json \<Rightarrow> string" where
  "member_text \<equiv> \<lambda>kv. json_quote (fst kv) @ '':'' @ json_marshal (snd kv)"

text \<open>A text that is read as a value, whatever delimiter follows it.\<close>

definition reads_as :: "string \<Rightarrow> json \<Rightarrow> bool" where
  "reads_as t v \<longleftrightarrow> (\<forall>r. delim r \<longrightarrow> parse_value (t @ r) = Some (v, r))"

lemma delim_Cons [simp]: "delim (CHR '','' # r)" "delim (CHR ''}'' # r)" "delim (CHR '']'' # r)" "delim []"
  by (simp_all add: delim_def)

lemma parse_members_join:
  "kvs \<noteq> [] \<Longrightarrow> \<forall>(k, v) \<in> set kvs. reads_as (json_marshal v) (json_clean v) \<Longrightarrow>
   parse_members (strings_Join (map member_text kvs) '','' @ CHR ''}'' # t)
     = Some (map (\<lambda>kv. (to_valid (fst kv), json_clean (snd kv))) kvs, t)"
proof (induction kvs)
  case (Cons kv kvs)
  obtain k v where kv: "kv = (k, v)" by (cases kv)
  have v: "\<And>r. delim r \<Longrightarrow> parse_value (json_marshal v @ r) = Some (json_clean v, r)"
    using Cons.prems kv by (auto simp: reads_as_def)
  show ?case
  proof (cases "kvs = []")
    case True
    with v kv show ?thesis by (simp add: parse_members.simps json_quote_def unquote_escape)
  next
    case False
    define rest where "rest = strings_Join (map member_text kvs) '','' @ CHR ''}'' # t"
    have IH: "parse_members rest = Some (map (\<lambda>kv. (to_valid (fst kv), json_clean (snd kv))) kvs, t)"
      using Cons False by (auto simp: rest_def)
    have eq: "strings_Join (map member_text (kv # kvs)) '','' @ CHR ''}'' # t
        = quote_char # json_escape k @ quote_char # CHR '':'' # json_marshal v @ CHR '','' # rest"
      using False kv by (simp add: strings_Join_Cons json_quote_def rest_def)
    show ?thesis unfolding eq
      using v kv IH by (simp add: parse_members.simps unquote_escape)
  qed
qed simp

lemma parse_elems_join:
  "vs \<noteq> [] \<Longrightarrow> \<forall>v \<in> set vs. reads_as (json_marshal v) (json_clean v) \<Longrightarrow>
   parse_elems (strings_Join (map json_marshal vs) '','' @ CHR '']'' # t) = Some (map json_clean vs, t)"
proof (induction vs)
  case (Cons v vs)
  have v: "\<And>r. delim r \<Longrightarrow> parse_value (json_marshal v @ r) = Some (json_clean v, r)"
    using Cons.prems by (auto simp: reads_as_def)
  show ?case
  proof (cases "vs = []")
    case True
    with v show ?thesis by (simp add: parse_elems.simps)
  next
    case False
    define rest where "rest = strings_Join (map json_marshal vs) '','' @ CHR '']'' # t"
    have IH: "parse_elems rest = Some (map json_clean vs, t)" using Cons False by (auto simp: rest_def)
    have eq: "strings_Join (map json_marshal (v # vs)) '','' @ CHR '']'' # t = json_marshal v @ CHR '','' # rest"
      using False by (simp add: strings_Join_Cons rest_def)
    show ?thesis unfolding eq using v IH by (simp add: parse_elems.simps [of "json_marshal v @ _"])
  qed
qed simp

text \<open>The values that survive: well-formed strings and keys, integers in decimal, nested to any depth.\<close>

fun json_ok :: "json \<Rightarrow> bool" where
  "json_ok (JArr vs) = list_all json_ok vs"
| "json_ok (JObj kvs) = list_all (\<lambda>kv. valid_utf8 (fst kv) \<and> json_ok (snd kv)) kvs"
| "json_ok v = scalar_ok v"

lemma scalar_json_ok [simp]: "scalar_ok v \<Longrightarrow> json_ok v"
  by (cases v) simp_all

lemma json_ok_clean: "json_ok v \<Longrightarrow> nums_ok v \<and> json_clean v = v"
proof (induction v)
  case (JArr vs)
  then show ?case by (auto simp: list_all_iff intro: map_idI)
next
  case (JObj kvs)
  then show ?case by (fastforce simp: list_all_iff to_valid_id intro: map_idI)
qed (simp_all add: to_valid_id)

lemma json_marshal_hd:
  assumes "nums_ok v"
  shows "\<exists>c t. json_marshal v = c # t \<and> \<not> is_ws c \<and> c \<noteq> CHR '']''"
proof (cases v)
  case (JNum raw)
  then obtain i where "raw = show_int i" using assms by auto
  with JNum show ?thesis
    using show_int_hd [of i] is_digit_not_ws by (auto simp: is_digit_def digit_val_def split: if_splits)
qed (simp_all add: json_quote_def)

lemma reads_object:
  assumes "\<forall>(k, v) \<in> set kvs. reads_as (json_marshal v) (json_clean v)"
  shows "reads_as (json_marshal (JObj kvs)) (json_clean (JObj kvs))"
proof (cases "kvs = []")
  case True
  then show ?thesis by (simp add: reads_as_def parse_value.simps)
next
  case False
  have "take 1 (skip_ws (strings_Join (map member_text kvs) '','' @ CHR ''}'' # r)) \<noteq> ''}''" for r
    using False by (cases kvs; cases "tl kvs") (auto simp: json_quote_def)
  with parse_members_join [OF False assms] show ?thesis
    by (simp add: reads_as_def parse_value.simps)
qed

lemma reads_array:
  assumes "\<forall>v \<in> set vs. nums_ok v \<and> reads_as (json_marshal v) (json_clean v)"
  shows "reads_as (json_marshal (JArr vs)) (json_clean (JArr vs))"
proof (cases "vs = []")
  case True
  then show ?thesis by (simp add: reads_as_def parse_value.simps)
next
  case False
  then obtain v vs' where vs: "vs = v # vs'" by (cases vs) auto
  then obtain c t where "json_marshal v = c # t" "\<not> is_ws c" "c \<noteq> CHR '']''"
    using assms json_marshal_hd [of v] by auto
  then have "take 1 (skip_ws (strings_Join (map json_marshal vs) '','' @ CHR '']'' # r)) \<noteq> '']''" for r
    using vs by (cases vs') auto
  with parse_elems_join [OF False, of "_"] assms show ?thesis
    by (simp add: reads_as_def parse_value.simps)
qed

lemma marshal_reads_as: "nums_ok v \<Longrightarrow> reads_as (json_marshal v) (json_clean v)"
proof (induction v)
  case (JArr vs)
  then show ?case by (intro reads_array) (auto simp: list_all_iff)
next
  case (JObj kvs)
  then show ?case by (intro reads_object) (fastforce simp: list_all_iff)
next
  case (JNum raw)
  then show ?case by (auto simp: reads_as_def parse_value_int)
next
  case (JStr s)
  show ?case by (simp add: reads_as_def parse_value.simps json_quote_def unquote_escape)
qed (simp_all add: reads_as_def parse_value.simps scan_literal_def has_prefix_def)

text \<open>Every value is read back as it was written, but for ill-formed bytes.\<close>

lemma json_parse_marshal: "nums_ok v \<Longrightarrow> json_parse (json_marshal v) = Some (json_clean v)"
  using marshal_reads_as [of v] by (auto simp: reads_as_def json_parse_def skip_ws_def dest!: spec [of _ "[]"])

lemma json_round_trip: "json_ok v \<Longrightarrow> json_parse (json_marshal v) = Some v"
  using json_parse_marshal [of v] json_ok_clean [of v] by simp

text \<open>Every parser consumes input, so the guards of the recursion above never cut it short.\<close>

lemma scan_digits_len: "scan_digits s = Some (t, r) \<Longrightarrow> length r < length s"
  by (cases s) (auto simp: scan_digits_def length_dropWhile_le le_imp_less_Suc split: if_splits)

lemma scan_int_len: "scan_int s = Some (t, r) \<Longrightarrow> length r < length s"
  by (auto simp: scan_int_def dest: scan_digits_len split: list.splits if_splits)

lemma scan_frac_len: "scan_frac s = Some (t, r) \<Longrightarrow> length r \<le> length s"
  by (auto simp: scan_frac_def dest!: scan_digits_len split: list.splits if_splits)

lemma scan_exp_len: "scan_exp s = Some (t, r) \<Longrightarrow> length r \<le> length s"
  by (auto simp: scan_exp_def dest!: scan_digits_len split: list.splits if_splits)

lemma scan_unsigned_len: "scan_unsigned s = Some (t, r) \<Longrightarrow> length r < length s"
  by (auto simp: scan_unsigned_def split: option.splits
      dest!: scan_int_len scan_frac_len scan_exp_len)

lemma scan_number_len: "scan_number s = Some (t, r) \<Longrightarrow> length r < length s"
  by (auto simp: scan_number_def split: list.splits if_splits dest!: scan_unsigned_len)

lemma scan_literal_len: "scan_literal l v s = Some (w, r) \<Longrightarrow> l \<noteq> [] \<Longrightarrow> length r < length s"
  by (auto simp: scan_literal_def has_prefix_iff split: if_splits)

lemma parse_len:
  "parse_value s = Some (v, r) \<Longrightarrow> length r < length s"
  "parse_elems s = Some (vs, r) \<Longrightarrow> length r < length s"
  "parse_members s = Some (kvs, r) \<Longrightarrow> length r < length s"
proof (induction s and s and s arbitrary: v r and vs r and kvs r
       rule: parse_value_parse_elems_parse_members.induct)
  case (1 s)
  obtain c t where ct: "skip_ws s = c # t"
    using "1.prems" by (auto simp: parse_value.simps [of s] split: list.splits)
  have lt: "length t < length s" using ct by (rule skip_ws_Cons_len)
  have le: "length (skip_ws t) \<le> length t" by (rule skip_ws_len)
  show ?case
    using "1.prems" "1.IH" [OF ct] ct lt le
    by (fastforce simp: parse_value.simps [of s]
        dest: unquote_len scan_literal_len scan_number_len split: if_splits)
next
  case (2 s)
  then show ?case
    by (fastforce simp: parse_elems.simps [of s] dest: skip_ws_Cons_len
        split: list.splits if_splits option.splits)
next
  case (3 s)
  then show ?case
    by (fastforce simp: parse_members.simps [of s] dest: skip_ws_Cons_len unquote_len
        split: list.splits if_splits option.splits)
qed

text \<open>Every rune is encoded as well-formed UTF-8.\<close>

lemma encode_rune_norm: "\<exists>r'. encode_rune r = encode_rune r' \<and> r' \<le> 1114111 \<and> \<not> (55296 \<le> r' \<and> r' \<le> 57343)"
proof (cases "1114111 < r \<or> (55296 \<le> r \<and> r \<le> 57343)")
  case True
  then have "encode_rune r = encode_rune RuneError" by (simp add: encode_rune_def RuneError_def)
  then show ?thesis by (intro exI [of _ RuneError]) (simp add: RuneError_def)
next
  case False
  then show ?thesis by (intro exI [of _ r]) simp
qed

lemma div_chain: "r div 4096 = (r div 64) div 64" "r div 262144 = (r div 4096) div (64 :: nat)" for r :: nat
  by (simp_all add: div_mult2_eq [symmetric])

lemma decode_encode_rune:
  assumes "r \<le> 1114111" "\<not> (55296 \<le> r \<and> r \<le> 57343)"
  shows "decode_rune (encode_rune r @ s) = (r, length (encode_rune r))"
proof -
  have ok: "\<not> (1114111 < r \<or> (55296 \<le> r \<and> r \<le> 57343))" using assms by simp
  consider "r < 128" | "128 \<le> r" "r < 2048" | "2048 \<le> r" "r < 65536" | "65536 \<le> r" by linarith
  then show ?thesis
  proof cases
    case 1
    then show ?thesis using assms by (simp add: encode_rune_def decode_rune_def)
  next
    case 2
    define x where "x = r div 64"
    define y where "y = r mod 64"
    have r: "r = x * 64 + y" "y < 64" "2 \<le> x" "x < 32" using 2 by (auto simp: x_def y_def)
    then show ?thesis using 2 by (simp add: encode_rune_def decode_rune_def decode_rune2_def cont_byte_def x_def [symmetric] y_def [symmetric])
  next
    case 3
    define q where "q = r div 64"
    define z where "z = r mod 64"
    define x where "x = q div 64"
    define y where "y = q mod 64"
    have r: "r = q * 64 + z" "q = x * 64 + y" "z < 64" "y < 64" "x < 16" using 3 by (auto simp: x_def y_def q_def z_def)
    have x: "x = 0 \<longrightarrow> 32 \<le> y" "x = 13 \<longrightarrow> y < 32" using 3 assms r by auto
    have e: "encode_rune r = [char_of (224 + x), char_of (128 + y), char_of (128 + z)]"
      using 3 unfolding encode_rune_def if_not_P [OF ok] by (simp add: div_chain q_def z_def x_def y_def)
    have "decode_rune3 (224 + x) (128 + y) (128 + z) = (r, 3)"
      using x r by (auto simp: decode_rune3_def cont_byte_def)
    then show ?thesis unfolding e using r(3-5) by (simp add: decode_rune_def)
  next
    case 4
    define p where "p = r div 64"
    define u where "u = r mod 64"
    define q where "q = p div 64"
    define z where "z = p mod 64"
    define x where "x = q div 64"
    define y where "y = q mod 64"
    have r: "r = p * 64 + u" "p = q * 64 + z" "q = x * 64 + y" "u < 64" "z < 64" "y < 64" by (auto simp: x_def y_def q_def z_def p_def u_def)
    have x: "x \<le> 4" "x = 0 \<longrightarrow> 16 \<le> y" "x = 4 \<longrightarrow> y < 16" using 4 assms r by auto
    have e: "encode_rune r = [char_of (240 + x), char_of (128 + y), char_of (128 + z), char_of (128 + u)]"
      using 4 unfolding encode_rune_def if_not_P [OF ok] by (simp add: div_chain p_def u_def q_def z_def x_def y_def)
    have "decode_rune4 (240 + x) (128 + y) (128 + z) (128 + u) = (r, 4)"
      using x r by (auto simp: decode_rune4_def cont_byte_def)
    then show ?thesis unfolding e using r(4-6) x(1) by (simp add: decode_rune_def)
  qed
qed

lemma valid_encode_rune:
  assumes "valid_utf8 s"
  shows "valid_utf8 (encode_rune r @ s)"
proof -
  obtain r' where r': "encode_rune r = encode_rune r'" "r' \<le> 1114111" "\<not> (55296 \<le> r' \<and> r' \<le> 57343)" using encode_rune_norm by blast
  obtain c cs where c: "encode_rune r' = c # cs" by (cases "encode_rune r'") (auto simp: encode_rune_def split: if_splits)
  have "r' = RuneError \<Longrightarrow> length (encode_rune r') = 3" by (simp add: encode_rune_def RuneError_def)
  then show ?thesis using decode_encode_rune [OF r'(2,3), of s] c assms by (auto simp: r'(1) valid_utf8.simps(2))
qed

lemma unquote_valid: "unquote s = Some (t, r) \<Longrightarrow> valid_utf8 t"
proof (induction s arbitrary: t r rule: unquote.induct)
  case (2 c s)
  have esc: "unescape_char e = Some d \<Longrightarrow> byte_of d < 128" for e d by (auto simp: unescape_char_def split: if_splits)
  show ?case using "2.prems" "2.IH"
    by (fastforce simp: unquote.simps(2) [of c s] valid_encode_rune valid_utf8_append_ascii dest: esc split: if_splits list.splits option.splits)
qed (simp add: unquote.simps)

lemma to_valid_iff: "to_valid s = s \<longleftrightarrow> valid_utf8 s"
  using unquote_valid [OF unquote_escape, of s] to_valid_id [of s] by metis

text \<open>The strings of a parsed value are well-formed, whatever bytes were parsed.\<close>

definition str_ok :: "json \<Rightarrow> bool" where
  "str_ok v = (case v of JStr t \<Rightarrow> valid_utf8 t | _ \<Rightarrow> True)"

lemma parse_value_str: "parse_value s = Some (v, r) \<Longrightarrow> str_ok v"
  by (subst (asm) parse_value.simps)
     (auto simp: str_ok_def scan_literal_def dest: unquote_valid split: list.splits if_splits)

lemma parse_members_str: "parse_members s = Some (kvs, r) \<Longrightarrow> \<forall>(k, v) \<in> set kvs. str_ok v"
proof (induction s arbitrary: kvs r rule: measure_induct_rule [of length])
  case (less s)
  note p = less.prems [unfolded parse_members.simps [of s]]
  from p obtain q r0 where 1: "skip_ws s = q # r0" by (cases "skip_ws s") auto
  with p have q: "q = quote_char" by (auto split: if_splits)
  from p 1 q obtain k r1 where 2: "unquote r0 = Some (k, r1)" by (cases "unquote r0") auto
  from p 1 q 2 obtain d r2 where 3: "skip_ws r1 = d # r2" by (cases "skip_ws r1") auto
  with p 1 q 2 have d: "d = CHR '':''" by (auto split: if_splits)
  from p 1 q 2 3 d obtain v x where 4: "parse_value r2 = Some (v, x)" by (cases "parse_value r2") auto
  from p 1 q 2 3 d 4 obtain c r' where 5: "skip_ws x = c # r'" by (cases "skip_ws x") auto
  have v: "str_ok v" using parse_value_str [OF 4] .
  show ?case
  proof (cases "c = CHR '','' \<and> length r' < length s")
    case True
    then obtain kvs' where "parse_members r' = Some (kvs', r)" "kvs = (k, v) # kvs'" using p 1 q 2 3 d 4 5 by auto
    then show ?thesis using less.IH [of r'] True v by auto
  next
    case False
    then have "kvs = [(k, v)]" using p 1 q 2 3 d 4 5 by (auto split: if_splits)
    then show ?thesis using v by simp
  qed
qed

lemma parse_object_str: "json_parse s = Some (JObj kvs) \<Longrightarrow> \<forall>(k, v) \<in> set kvs. str_ok v"
proof -
  assume "json_parse s = Some (JObj kvs)"
  then obtain r where "parse_value s = Some (JObj kvs, r)" by (auto simp: json_parse_def split: option.splits if_splits)
  then have "kvs = [] \<or> (\<exists>u t. parse_members u = Some (kvs, t))"
    by (subst (asm) parse_value.simps) (auto simp: scan_literal_def split: list.splits if_splits)
  then show ?thesis using parse_members_str by fastforce
qed

end
