(* ===== verification/Job.thy ===== *)
theory Job
  imports Json
begin

text \<open>
  Jobs and batches of jobs (\<open>job.go\<close>) and the identifiers attached to them (\<open>GenId\<close> and
  \<open>GenTraceId\<close> of \<open>id.go\<close>).

  A \<open>Job\<close> is stored in Redis as the JSON text of its nine fields. The struct tags of the last five
  fields are written with a full-width colon, so \<open>encoding/json\<close> does not see them and uses the Go
  field names as keys. \<open>Decode\<close> is \<open>json.Unmarshal\<close> into an existing \<open>Job\<close>: keys are matched
  without regard to case, a value of the wrong type leaves its field alone and reports an error, a
  text that is not JSON leaves the whole job alone.

  The identifier generator \<open>idgen\<close> is a third-party package: it is the parameter \<open>gen\<close>, a function
  from the generator's state to the next number and state.
\<close>

type_synonym QueueName = string
type_synonym TopicName = string

record Job =
  JobId :: string
  InTraceId :: string
  Content :: string
  Retry :: int
  RetryTimes :: int
  RetryTime :: int
  IsRetry :: bool
  BeginRetry :: bool
  RetryResidueTime :: int

definition new_Job :: Job where
  "new_Job = \<lparr>JobId = [], InTraceId = [], Content = [], Retry = 0, RetryTimes = 0, RetryTime = 0,
     IsRetry = False, BeginRetry = False, RetryResidueTime = 0\<rparr>"

record Jobs =
  inTraceId :: string
  outTraceId :: string
  queueName :: QueueName
  topicName :: TopicName
  retrying :: bool
  Slice :: "Job list"

subsection \<open>JSON of a job\<close>

definition Job_json :: "Job \<Rightarrow> json" where
  "Job_json j = JObj
     [(''id'', JStr (JobId j)), (''inTraceId'', JStr (InTraceId j)), (''content'', JStr (Content j)),
      (''retrying'', JNum (show_int (Retry j))), (''RetryTimes'', JNum (show_int (RetryTimes j))),
      (''RetryTime'', JNum (show_int (RetryTime j))), (''IsRetry'', JBool (IsRetry j)),
      (''BeginRetry'', JBool (BeginRetry j)),
      (''RetryResidueTime'', JNum (show_int (RetryResidueTime j)))]"

text \<open>\<open>json.Marshal\<close> of this struct cannot fail; the error case is kept in the type, as in the code.\<close>

definition Job_Encode :: "Job \<Rightarrow> string + string" where
  "Job_Encode j = Inr (json_marshal (Job_json j))"

definition Job_String :: "Job \<Rightarrow> string" where
  "Job_String j = (case Job_Encode j of Inl e \<Rightarrow> e | Inr s \<Rightarrow> s)"

definition lower :: "char \<Rightarrow> char" where
  "lower c = (if 65 \<le> byte_of c \<and> byte_of c \<le> 90 then char_of (byte_of c + 32) else c)"

text \<open>Key folding of \<open>encoding/json\<close>: ASCII case, the long s and the Kelvin sign.\<close>

fun fold_key :: "string \<Rightarrow> string" where
  "fold_key [] = []"
| "fold_key (c # s) =
     (if c = CHR 0xC5 \<and> take 1 s = [CHR 0xBF] then CHR ''s'' # fold_key (drop 1 s)
      else if c = CHR 0xE2 \<and> take 2 s = [CHR 0x84, CHR 0xAA] then CHR ''k'' # fold_key (drop 2 s)
      else lower c # fold_key s)"

definition store_str :: "json \<Rightarrow> string \<Rightarrow> string \<times> bool" where
  "store_str v old = (case v of JStr s \<Rightarrow> (s, True) | JNull \<Rightarrow> (old, True) | _ \<Rightarrow> (old, False))"

definition store_int :: "json \<Rightarrow> int \<Rightarrow> int \<times> bool" where
  "store_int v old =
     (case v of
        JNum raw \<Rightarrow> (case ParseInt raw of (n, None) \<Rightarrow> (n, True) | _ \<Rightarrow> (old, False))
      | JNull \<Rightarrow> (old, True)
      | _ \<Rightarrow> (old, False))"

definition store_bool :: "json \<Rightarrow> bool \<Rightarrow> bool \<times> bool" where
  "store_bool v old = (case v of JBool b \<Rightarrow> (b, True) | JNull \<Rightarrow> (old, True) | _ \<Rightarrow> (old, False))"

definition Job_set :: "Job \<Rightarrow> string \<times> json \<Rightarrow> Job \<times> bool" where
  "Job_set j kv =
     (let k = fold_key (fst kv); v = snd kv in
      if k = ''id'' then (let (x, ok) = store_str v (JobId j) in (j\<lparr>JobId := x\<rparr>, ok))
      else if k = ''intraceid'' then (let (x, ok) = store_str v (InTraceId j) in (j\<lparr>InTraceId := x\<rparr>, ok))
      else if k = ''content'' then (let (x, ok) = store_str v (Content j) in (j\<lparr>Content := x\<rparr>, ok))
      else if k = ''retrying'' then (let (x, ok) = store_int v (Retry j) in (j\<lparr>Retry := x\<rparr>, ok))
      else if k = ''retrytimes'' then (let (x, ok) = store_int v (RetryTimes j) in (j\<lparr>RetryTimes := x\<rparr>, ok))
      else if k = ''retrytime'' then (let (x, ok) = store_int v (RetryTime j) in (j\<lparr>RetryTime := x\<rparr>, ok))
      else if k = ''isretry'' then (let (x, ok) = store_bool v (IsRetry j) in (j\<lparr>IsRetry := x\<rparr>, ok))
      else if k = ''beginretry'' then (let (x, ok) = store_bool v (BeginRetry j) in (j\<lparr>BeginRetry := x\<rparr>, ok))
      else if k = ''retryresiduetime''
      then (let (x, ok) = store_int v (RetryResidueTime j) in (j\<lparr>RetryResidueTime := x\<rparr>, ok))
      else (j, True))"

fun Job_set_all :: "Job \<times> bool \<Rightarrow> (string \<times> json) list \<Rightarrow> Job \<times> bool" where
  "Job_set_all (j, ok) [] = (j, ok)"
| "Job_set_all (j, ok) (kv # kvs) = (let (j', ok') = Job_set j kv in Job_set_all (j', ok \<and> ok') kvs)"

text \<open>\<open>Decode\<close>: the job after unmarshalling and whether the returned error is nil.\<close>

definition Job_Decode :: "Job \<Rightarrow> string \<Rightarrow> Job \<times> bool" where
  "Job_Decode j data =
     (case json_parse data of
        None \<Rightarrow> (j, False)
      | Some JNull \<Rightarrow> (j, True)
      | Some (JObj kvs) \<Rightarrow> Job_set_all (j, True) kvs
      | Some _ \<Rightarrow> (j, False))"

definition wf_job :: "Job \<Rightarrow> bool" where
  "wf_job j \<longleftrightarrow> valid_utf8 (JobId j) \<and> valid_utf8 (InTraceId j) \<and> valid_utf8 (Content j)
     \<and> in_i64 (Retry j) \<and> in_i64 (RetryTimes j) \<and> in_i64 (RetryTime j) \<and> in_i64 (RetryResidueTime j)"

lemma store_simps [simp]:
  "store_str (JStr s) old = (s, True)"
  "store_bool (JBool b) old' = (b, True)"
  "in_i64 n \<Longrightarrow> store_int (JNum (show_int n)) old'' = (n, True)"
  by (simp_all add: store_str_def store_bool_def store_int_def)

lemma fold_job_keys [simp]:
  "fold_key ''id'' = ''id''" "fold_key ''inTraceId'' = ''intraceid''" "fold_key ''content'' = ''content''"
  "fold_key ''retrying'' = ''retrying''" "fold_key ''RetryTimes'' = ''retrytimes''"
  "fold_key ''RetryTime'' = ''retrytime''" "fold_key ''IsRetry'' = ''isretry''"
  "fold_key ''BeginRetry'' = ''beginretry''" "fold_key ''RetryResidueTime'' = ''retryresiduetime''"
  by code_simp+

lemma valid_job_keys [simp]:
  "valid_utf8 ''id''" "valid_utf8 ''inTraceId''" "valid_utf8 ''content''" "valid_utf8 ''retrying''"
  "valid_utf8 ''RetryTimes''" "valid_utf8 ''RetryTime''" "valid_utf8 ''IsRetry''"
  "valid_utf8 ''BeginRetry''" "valid_utf8 ''RetryResidueTime''"
  by (simp_all add: valid_utf8_ascii)

lemma fold_valid_keys [simp]:
  "to_valid ''id'' = ''id''" "to_valid ''inTraceId'' = ''inTraceId''" "to_valid ''content'' = ''content''"
  "to_valid ''retrying'' = ''retrying''" "to_valid ''RetryTimes'' = ''RetryTimes''" "to_valid ''RetryTime'' = ''RetryTime''"
  "to_valid ''IsRetry'' = ''IsRetry''" "to_valid ''BeginRetry'' = ''BeginRetry''"
  "to_valid ''RetryResidueTime'' = ''RetryResidueTime''"
  by (simp_all add: to_valid_iff)

text \<open>The job as it comes back from its JSON: in its texts every ill-formed byte is replaced.\<close>

definition clean_job :: "Job \<Rightarrow> Job" where
  "clean_job j = j\<lparr>JobId := to_valid (JobId j), InTraceId := to_valid (InTraceId j), Content := to_valid (Content j)\<rparr>"

definition counters_ok :: "Job \<Rightarrow> bool" where
  "counters_ok j \<longleftrightarrow> in_i64 (Retry j) \<and> in_i64 (RetryTimes j) \<and> in_i64 (RetryTime j) \<and> in_i64 (RetryResidueTime j)"

lemma wf_job_clean: "wf_job j \<longleftrightarrow> counters_ok j \<and> clean_job j = j"
proof -
  have "clean_job j = j \<longleftrightarrow> to_valid (JobId j) = JobId j \<and> to_valid (InTraceId j) = InTraceId j \<and> to_valid (Content j) = Content j"
    by (cases j) (simp add: clean_job_def)
  then show ?thesis by (auto simp: wf_job_def counters_ok_def to_valid_iff)
qed

lemma Job_json_ok: "wf_job j \<Longrightarrow> json_ok (Job_json j)"
  by (auto simp: Job_json_def wf_job_def)

lemma json_parse_Job: "wf_job j \<Longrightarrow> json_parse (json_marshal (Job_json j)) = Some (Job_json j)"
  by (rule json_round_trip) (rule Job_json_ok)

lemma Job_set_fields:
  "Job_set j (''id'', JStr s) = (j\<lparr>JobId := s\<rparr>, True)"
  "Job_set j (''inTraceId'', JStr s) = (j\<lparr>InTraceId := s\<rparr>, True)"
  "Job_set j (''content'', JStr s) = (j\<lparr>Content := s\<rparr>, True)"
  "Job_set j (''IsRetry'', JBool b) = (j\<lparr>IsRetry := b\<rparr>, True)"
  "Job_set j (''BeginRetry'', JBool b) = (j\<lparr>BeginRetry := b\<rparr>, True)"
  "in_i64 n \<Longrightarrow> Job_set j (''retrying'', JNum (show_int n)) = (j\<lparr>Retry := n\<rparr>, True)"
  "in_i64 n \<Longrightarrow> Job_set j (''RetryTimes'', JNum (show_int n)) = (j\<lparr>RetryTimes := n\<rparr>, True)"
  "in_i64 n \<Longrightarrow> Job_set j (''RetryTime'', JNum (show_int n)) = (j\<lparr>RetryTime := n\<rparr>, True)"
  "in_i64 n \<Longrightarrow> Job_set j (''RetryResidueTime'', JNum (show_int n)) = (j\<lparr>RetryResidueTime := n\<rparr>, True)"
  unfolding Job_set_def fst_conv snd_conv fold_job_keys Let_def by simp_all

lemma Job_set_all_json:
  assumes "counters_ok j"
  shows "\<exists>kvs. json_clean (Job_json j) = JObj kvs \<and> Job_set_all (j0, True) kvs = (clean_job j, True)"
proof -
  have i: "in_i64 (Retry j)" "in_i64 (RetryTimes j)" "in_i64 (RetryTime j)" "in_i64 (RetryResidueTime j)"
    using assms by (simp_all add: counters_ok_def)
  show ?thesis unfolding Job_json_def clean_job_def
    by (simp add: Job_set_fields i)
qed

lemma Job_Decode_Encode_clean:
  assumes "counters_ok j"
  shows "\<exists>s. Job_Encode j = Inr s \<and> Job_Decode j0 s = (clean_job j, True)"
proof -
  obtain kvs where "json_clean (Job_json j) = JObj kvs" "Job_set_all (j0, True) kvs = (clean_job j, True)"
    using Job_set_all_json [OF assms] by blast
  moreover have "nums_ok (Job_json j)" by (auto simp: Job_json_def)
  ultimately show ?thesis by (simp add: Job_Encode_def Job_Decode_def json_parse_marshal)
qed

lemma Job_Decode_Encode:
  assumes "wf_job j"
  shows "\<exists>s. Job_Encode j = Inr s \<and> Job_Decode j0 s = (j, True)"
  using Job_Decode_Encode_clean [of j j0] assms by (simp add: wf_job_clean)

subsection \<open>Batches\<close>

text \<open>\<open>Jobs\<close> marshals its only exported field.\<close>

definition Jobs_Encode :: "Jobs \<Rightarrow> string" where
  "Jobs_Encode jobs = json_marshal (JObj [(''jobs'', JArr (map Job_json (Slice jobs)))])"

lemma json_parse_Slice:
  "\<forall>j \<in> set js. wf_job j \<Longrightarrow> json_parse (json_marshal (JArr (map Job_json js))) = Some (JArr (map Job_json js))"
  by (rule json_round_trip) (simp add: list_all_iff Job_json_ok)

lemma json_parse_Jobs:
  "\<forall>j \<in> set (Slice jobs). wf_job j \<Longrightarrow>
   json_parse (Jobs_Encode jobs) = Some (JObj [(''jobs'', JArr (map Job_json (Slice jobs)))])"
  unfolding Jobs_Encode_def by (rule json_round_trip) (simp add: list_all_iff Job_json_ok valid_utf8_ascii)

definition bool_text :: "bool \<Rightarrow> string" where
  "bool_text b = (if b then ''true'' else ''false'')"

definition Jobs_String :: "Jobs \<Rightarrow> string" where
  "Jobs_String jobs =
     (let list_text = ''['' @ strings_Join (map Job_String (Slice jobs)) '' '' @ '']'' in
      if inTraceId jobs = []
      then queueName jobs @ ''/'' @ topicName jobs @ '': outTraceId: '' @ outTraceId jobs
           @ '' retrying: '' @ bool_text (retrying jobs) @ '' jobs: '' @ list_text
      else queueName jobs @ ''/'' @ topicName jobs @ '': inTraceId: '' @ inTraceId jobs
           @ '' retrying: '' @ bool_text (retrying jobs) @ '' jobs: '' @ list_text)"

subsection \<open>Identifiers and ParseJob\<close>

type_synonym 'g idgen = "'g \<Rightarrow> nat \<times> 'g"

definition GenId :: "'g idgen \<Rightarrow> 'g \<Rightarrow> string \<times> 'g" where
  "GenId gen g = (let (n, g') = gen g in (show_nat n, g'))"

definition GenTraceId :: "'g idgen \<Rightarrow> string \<Rightarrow> 'g \<Rightarrow> string \<times> 'g" where
  "GenTraceId gen ServiceId g = (let (n, g') = gen g in (show_nat n @ ServiceId, g'))"

fun ParseJob_loop :: "'g idgen \<Rightarrow> string \<Rightarrow> 'g \<Rightarrow> string list \<Rightarrow> Job list \<times> 'g" where
  "ParseJob_loop gen tid g [] = ([], g)"
| "ParseJob_loop gen tid g (content # contents) =
     (let (id, g') = GenId gen g;
          job = new_Job\<lparr>InTraceId := tid, JobId := id, Content := content\<rparr>;
          (js, g'') = ParseJob_loop gen tid g' contents
      in (job # js, g''))"

text \<open>
  \<open>ParseJob\<close>: the first argument is \<open>queue/topic\<close>, the others are contents. It reads
  \<open>contents[0]\<close> unconditionally, so it panics on an empty argument list. The topic is dropped.
\<close>

definition ParseJob ::
  "'g idgen \<Rightarrow> string \<Rightarrow> 'g \<Rightarrow> string list \<Rightarrow> (string + Jobs \<times> string list) go \<times> 'g" where
  "ParseJob gen ServiceId g contents =
     (case contents of
        [] \<Rightarrow> (Panic, g)
      | meta # rest \<Rightarrow>
          (case strings_SplitN2 meta (CHR ''/'') of
             qn # tn # _ \<Rightarrow>
               (let (tid, g') = GenTraceId gen ServiceId g;
                    (slice, g'') = ParseJob_loop gen tid g' rest
                in (Ret (Inr (\<lparr>inTraceId = tid, outTraceId = [], queueName = qn, topicName = [],
                               retrying = False, Slice = slice\<rparr>, map JobId slice)), g''))
           | _ \<Rightarrow> (Ret (Inl (''ParseJob fail: invalid job meta info: '' @ meta)), g)))"

lemma ParseJob_loop_contents: "map Content (fst (ParseJob_loop gen tid g cs)) = cs"
  by (induction cs arbitrary: g) (auto simp: Let_def case_prod_beta)

lemma ParseJob_loop_tid: "j \<in> set (fst (ParseJob_loop gen tid g cs)) \<Longrightarrow> InTraceId j = tid"
  by (induction cs arbitrary: g) (auto simp: Let_def case_prod_beta)

lemma ParseJob_loop_fresh:
  "j \<in> set (fst (ParseJob_loop gen tid g cs)) \<Longrightarrow>
   Retry j = 0 \<and> RetryTimes j = 0 \<and> RetryTime j = 0 \<and> \<not> IsRetry j \<and> \<not> BeginRetry j \<and> RetryResidueTime j = 0"
  by (induction cs arbitrary: g) (auto simp: Let_def case_prod_beta new_Job_def)

lemma Job_set_wf:
  assumes "wf_job j" "str_ok (snd kv)"
  shows "wf_job (fst (Job_set j kv))"
proof -
  have str: "valid_utf8 old \<Longrightarrow> valid_utf8 (fst (store_str (snd kv) old))" for old
    using assms(2) by (auto simp: store_str_def str_ok_def split: json.splits)
  have num: "in_i64 old \<Longrightarrow> in_i64 (fst (store_int (snd kv) old))" for old
    by (auto simp: store_int_def dest: ParseInt_range split: json.splits prod.splits option.splits)
  show ?thesis using assms(1) str num by (auto simp: Job_set_def wf_job_def Let_def case_prod_beta)
qed

lemma Job_set_all_wf: "wf_job j \<Longrightarrow> \<forall>(k, v) \<in> set kvs. str_ok v \<Longrightarrow> wf_job (fst (Job_set_all (j, b) kvs))"
proof (induction kvs arbitrary: j b)
  case (Cons kv kvs)
  have "wf_job (fst (Job_set j kv))" using Job_set_wf [OF Cons.prems(1)] Cons.prems(2) by auto
  then show ?case using Cons.IH Cons.prems(2) by (simp add: Let_def case_prod_beta)
qed simp

text \<open>Whatever text is decoded, the job is well-formed.\<close>

lemma Job_Decode_wf: "wf_job j \<Longrightarrow> wf_job (fst (Job_Decode j text))"
  by (auto simp: Job_Decode_def dest: parse_object_str intro!: Job_set_all_wf split: option.splits json.splits)

lemma new_Job_wf [simp]: "wf_job new_Job"
  by (simp add: wf_job_def new_Job_def)

end
