(* ===== verification/RedisCommands.thy ===== *)
theory RedisCommands
  imports Prelude
begin

text \<open>
  The typed command methods of the Redis client (\<open>utility/msgRedis/commands.go\<close>). Every method
  builds an argument list, sends it through \<open>CallN\<close> and turns the decoded reply into its result.

  \<open>CallN\<close> is the parameter \<open>calln\<close> of each method: given a command name, its arguments and the state
  \<open>w\<close> of the connection and of the server behind it, an error or a reply, and the new state.
  The file \<open>RedisConn\<close> models \<open>CallN\<close> itself.

  A result is the pair of the Go result: the value and the error, \<open>None\<close> for nil. A method that
  converts every element of a reply with a type assertion panics on an element of another type.
\<close>

datatype reply = RNil | RInt int | RBytes string | RArr "reply list"

datatype redis_err =
    ErrKeyNotExist | ErrBadArgs | ErrEmptyDB | ErrResponseType
  | ErrNil | ErrBadType | ErrBadTerminator
  | CommonErr string \<comment> \<open>\<open>errors.New(CommonErrPrefix + text)\<close>\<close>
  | PlainErr string \<comment> \<open>any other error, with its text\<close>

datatype arg = AInt int | AStr string | ABytes string | ABool bool | ANil
  | AFloat string \<comment> \<open>a float with its shortest decimal text\<close>

type_synonym 'w callN = "string \<Rightarrow> arg list \<Rightarrow> 'w \<Rightarrow> (redis_err + reply) \<times> 'w"
type_synonym 'a res = "'a \<times> redis_err option"

subsection \<open>Shapes of results\<close>

definition int_reply :: "redis_err + reply \<Rightarrow> int res" where
  "int_reply r =
     (case r of
        Inl e \<Rightarrow> (-1, Some e)
      | Inr (RInt n) \<Rightarrow> (n, None)
      | Inr _ \<Rightarrow> (-1, Some ErrResponseType))"

definition bool_reply :: "redis_err + reply \<Rightarrow> bool res" where
  "bool_reply r =
     (case r of
        Inl e \<Rightarrow> (False, Some e)
      | Inr (RInt n) \<Rightarrow> (n = 1, None)
      | Inr _ \<Rightarrow> (False, Some ErrResponseType))"

text \<open>A byte slice may be nil: \<open>None\<close>.\<close>

definition bytes_reply :: "redis_err + reply \<Rightarrow> string option res" where
  "bytes_reply r =
     (case r of
        Inl e \<Rightarrow> (None, Some e)
      | Inr (RBytes b) \<Rightarrow> (Some b, None)
      | Inr _ \<Rightarrow> (None, Some ErrResponseType))"

definition bytes_nil_reply :: "redis_err + reply \<Rightarrow> string option res" where
  "bytes_nil_reply r =
     (case r of
        Inr RNil \<Rightarrow> (None, Some ErrKeyNotExist)
      | _ \<Rightarrow> bytes_reply r)"

definition arr_reply :: "redis_err + reply \<Rightarrow> reply list option res" where
  "arr_reply r =
     (case r of
        Inl e \<Rightarrow> (None, Some e)
      | Inr (RArr vs) \<Rightarrow> (Some vs, None)
      | Inr _ \<Rightarrow> (None, Some ErrResponseType))"

definition arr_nil_reply :: "redis_err + reply \<Rightarrow> reply list option res" where
  "arr_nil_reply r =
     (case r of
        Inr RNil \<Rightarrow> (None, Some ErrKeyNotExist)
      | _ \<Rightarrow> arr_reply r)"

text \<open>The loops that assert every element to be a byte slice.\<close>

fun as_bytes :: "reply list \<Rightarrow> string list go" where
  "as_bytes [] = Ret []"
| "as_bytes (RBytes b # vs) = go_bind (as_bytes vs) (\<lambda>bs. Ret (b # bs))"
| "as_bytes (_ # vs) = Panic"

definition members_reply :: "redis_err + reply \<Rightarrow> string list option res go" where
  "members_reply r =
     (case arr_reply r of
        (Some vs, None) \<Rightarrow> go_bind (as_bytes vs) (\<lambda>bs. Ret (Some bs, None))
      | (_, e) \<Rightarrow> Ret (None, e))"

lemmas reply_defs = int_reply_def bool_reply_def bytes_reply_def bytes_nil_reply_def
  arr_reply_def arr_nil_reply_def members_reply_def

abbreviation run :: "(redis_err + reply \<Rightarrow> 'a) \<Rightarrow> (redis_err + reply) \<times> 'w \<Rightarrow> 'a \<times> 'w" where
  "run f p \<equiv> (case p of (r, w) \<Rightarrow> (f r, w))"

subsection \<open>Lists\<close>

definition BLPOP :: "'w callN \<Rightarrow> string list \<Rightarrow> int \<Rightarrow> 'w \<Rightarrow> reply list option res \<times> 'w" where
  "BLPOP calln ks timeout w = run arr_nil_reply (calln ''BLPOP'' (map AStr ks @ [AInt timeout]) w)"

definition BRPOP :: "'w callN \<Rightarrow> string list \<Rightarrow> int \<Rightarrow> 'w \<Rightarrow> reply list option res \<times> 'w" where
  "BRPOP calln ks timeout w = run arr_nil_reply (calln ''BRPOP'' (map AStr ks @ [AInt timeout]) w)"

definition BRPOPLPUSH :: "'w callN \<Rightarrow> string \<Rightarrow> string \<Rightarrow> int \<Rightarrow> 'w \<Rightarrow> string option res \<times> 'w" where
  "BRPOPLPUSH calln source dest timeout w =
     run bytes_nil_reply (calln ''BRPOPLPUSH'' [AStr source, AStr dest, AInt timeout] w)"

definition LINDEX :: "'w callN \<Rightarrow> string \<Rightarrow> int \<Rightarrow> 'w \<Rightarrow> string option res \<times> 'w" where
  "LINDEX calln key index w = run bytes_nil_reply (calln ''LINDEX'' [AStr key, AInt index] w)"

definition LLEN :: "'w callN \<Rightarrow> string \<Rightarrow> 'w \<Rightarrow> int res \<times> 'w" where
  "LLEN calln key w = run int_reply (calln ''LLEN'' [AStr key] w)"

definition LPOP :: "'w callN \<Rightarrow> string \<Rightarrow> 'w \<Rightarrow> string option res \<times> 'w" where
  "LPOP calln key w = run bytes_nil_reply (calln ''LPOP'' [AStr key] w)"

definition LPUSH :: "'w callN \<Rightarrow> string \<Rightarrow> string list \<Rightarrow> 'w \<Rightarrow> int res \<times> 'w" where
  "LPUSH calln key vs w = run int_reply (calln ''LPUSH'' (AStr key # map AStr vs) w)"

definition LPUSHX :: "'w callN \<Rightarrow> string \<Rightarrow> string \<Rightarrow> 'w \<Rightarrow> int res \<times> 'w" where
  "LPUSHX calln key v w = run int_reply (calln ''LPUSHX'' [AStr key, AStr v] w)"

definition LRANGE :: "'w callN \<Rightarrow> string \<Rightarrow> int \<Rightarrow> int \<Rightarrow> 'w \<Rightarrow> reply list option res \<times> 'w" where
  "LRANGE calln key start stop w = run arr_reply (calln ''LRANGE'' [AStr key, AInt start, AInt stop] w)"

definition LREM :: "'w callN \<Rightarrow> string \<Rightarrow> int \<Rightarrow> string \<Rightarrow> 'w \<Rightarrow> int res \<times> 'w" where
  "LREM calln key count v w = run int_reply (calln ''LREM'' [AStr key, AInt count, AStr v] w)"

definition LSET :: "'w callN \<Rightarrow> string \<Rightarrow> int \<Rightarrow> string \<Rightarrow> 'w \<Rightarrow> string option res \<times> 'w" where
  "LSET calln key index v w = run bytes_reply (calln ''LSET'' [AStr key, AInt index, AStr v] w)"

definition LTRIM :: "'w callN \<Rightarrow> string \<Rightarrow> int \<Rightarrow> int \<Rightarrow> 'w \<Rightarrow> string option res \<times> 'w" where
  "LTRIM calln key start stop w = run bytes_reply (calln ''LTRIM'' [AStr key, AInt start, AInt stop] w)"

definition RPOP :: "'w callN \<Rightarrow> string \<Rightarrow> 'w \<Rightarrow> string option res \<times> 'w" where
  "RPOP calln key w = run bytes_nil_reply (calln ''RPOP'' [AStr key] w)"

definition RPOPLPUSH :: "'w callN \<Rightarrow> string \<Rightarrow> string \<Rightarrow> 'w \<Rightarrow> string option res \<times> 'w" where
  "RPOPLPUSH calln source dest w = run bytes_nil_reply (calln ''RPOPLPUSH'' [AStr source, AStr dest] w)"

definition RPUSH :: "'w callN \<Rightarrow> string \<Rightarrow> string list \<Rightarrow> 'w \<Rightarrow> int res \<times> 'w" where
  "RPUSH calln key vs w = run int_reply (calln ''RPUSH'' (AStr key # map AStr vs) w)"

definition RPUSHX :: "'w callN \<Rightarrow> string \<Rightarrow> string \<Rightarrow> 'w \<Rightarrow> int res \<times> 'w" where
  "RPUSHX calln key v w = run int_reply (calln ''RPUSHX'' [AStr key, AStr v] w)"

definition DEL :: "'w callN \<Rightarrow> string \<Rightarrow> 'w \<Rightarrow> int res \<times> 'w" where
  "DEL calln key w = run int_reply (calln ''DEL'' [AStr key] w)"

end
