(* ===== verification/Storage.thy ===== *)
theory Storage
  imports Job RedisCommands
begin

text \<open>
  The job storage (\<open>storage.go\<close>): the three Redis lists of a topic (jobs to run, jobs to retry, jobs
  that ran out of retries) and the operations on them.

  The Redis service is a parameter: \<open>cl\<close> maps an address to the \<open>CallN\<close> of a connection to that
  address, over the state \<open>w\<close> of the connections and servers. The locale \<open>redis_lists\<close> states the
  documented behaviour of the list commands on a reachable server; \<open>lst w a k\<close> is the list stored
  at key \<open>k\<close> of the server at address \<open>a\<close>.

  A storage whose type is not \<open>redis\<close> has no client, and every use of it panics.
\<close>

datatype QueueTyp = CommonQueue | RetryQueue | TimeoutQueue

definition IsRetryQueue :: "QueueTyp \<Rightarrow> bool" where
  "IsRetryQueue qt \<longleftrightarrow> qt = RetryQueue"

definition IsTimeoutQueue :: "QueueTyp \<Rightarrow> bool" where
  "IsTimeoutQueue qt \<longleftrightarrow> qt = TimeoutQueue"

record StorageConfig =
  sc_Type :: string
  sc_Address :: string
  sc_Auth :: string
  sc_MaxConnNum :: int
  sc_MaxIdleNum :: int
  sc_MaxIdleSeconds :: int

record storage =
  redisCli :: bool \<comment> \<open>whether the client was created\<close>
  address :: string

text \<open>
  \<open>msgRedis.NewMultiPool\<close> of one address makes the pool of an address of two or three parts, and with it a channel
  for the connections (\<open>PooledRedis\<close> shows that it panics in exactly this case).
\<close>

definition pool_panics :: "string \<Rightarrow> int \<Rightarrow> bool" where
  "pool_panics addr maxConnNum \<longleftrightarrow> length (strings_Split addr '':'') \<in> {2, 3} \<and> \<not> chan_size_ok maxConnNum"

definition NewStorage :: "StorageConfig \<Rightarrow> storage go" where
  "NewStorage config =
     (if sc_Type config = ''redis''
      then (let redisAddressWithAuth = sc_Address config @ '':'' @ sc_Auth config
            in if pool_panics redisAddressWithAuth (sc_MaxConnNum config) then Panic
               else Ret \<lparr>redisCli = True, address = redisAddressWithAuth\<rparr>)
      else Ret \<lparr>redisCli = False, address = []\<rparr>)"

lemma NewStorage_total: "chan_size_ok (sc_MaxConnNum sc) \<Longrightarrow> \<exists>s. NewStorage sc = Ret s"
  by (simp add: NewStorage_def pool_panics_def)

definition GetKey :: "QueueName \<Rightarrow> TopicName \<Rightarrow> QueueTyp \<Rightarrow> string" where
  "GetKey qn tn typ =
     (if IsRetryQueue typ then qn @ ''::'' @ tn @ ''::'' @ ''list_retry''
      else if IsTimeoutQueue typ then qn @ ''::'' @ tn @ ''::'' @ ''list_timeout''
      else qn @ ''::'' @ tn @ ''::'' @ ''list'')"

type_synonym 'w client = "string \<Rightarrow> 'w callN"

text \<open>\<open>s.redisCli.Call(s.address)\<close>: a nil client panics.\<close>

definition with_cli :: "storage \<Rightarrow> 'a \<Rightarrow> 'a go" where
  "with_cli s x = (if redisCli s then Ret x else Panic)"

subsection \<open>AddQueue\<close>

fun AddQueue_loop :: "bool \<Rightarrow> Job list \<Rightarrow> Job list \<times> string list" where
  "AddQueue_loop rt [] = ([], [])"
| "AddQueue_loop rt (job # js) =
     (let job' = (if rt then job\<lparr>Retry := i64 (Retry job + 1)\<rparr> else job);
          (js', vs) = AddQueue_loop rt js
      in case Job_Encode job' of
           Inl e \<Rightarrow> (job' # js', vs)
         | Inr v \<Rightarrow> (job' # js', v # vs))"

text \<open>
  The result: the returned error (\<open>None\<close> for nil), the batch as the pointer sees it afterwards, the
  new world. The error of \<open>LPUSH\<close> is only logged.
\<close>

definition AddQueue ::
  "'w client \<Rightarrow> storage \<Rightarrow> Jobs \<Rightarrow> QueueTyp \<Rightarrow> 'w \<Rightarrow> (string option \<times> Jobs \<times> 'w) go" where
  "AddQueue cl s jobs typ w =
     (let key = GetKey (queueName jobs) (topicName jobs) typ;
          jobs1 = (if IsRetryQueue typ then jobs\<lparr>retrying := True\<rparr> else jobs);
          (slice, vs) = AddQueue_loop (retrying jobs1) (Slice jobs1);
          jobs2 = jobs1\<lparr>Slice := slice\<rparr>
      in if vs = [] then Ret (Some ''empty jobs'', jobs2, w)
         else go_bind (with_cli s (LPUSH (cl (address s)) key vs w))
                (\<lambda>(_, w'). Ret (None, jobs2, w')))"

subsection \<open>RetryQueue, CleanQueue, GetLength, GetJobsFromQueue\<close>

text \<open>
  \<open>RetryQueue\<close> loops until the retry list is empty, an error occurs or \<open>count\<close> jobs have moved; with
  other producers at work it need not stop, so the loop has an \<^typ>\<open>'a option\<close> result.
\<close>

partial_function (option) RetryQueue_loop ::
  "'w callN \<Rightarrow> string \<Rightarrow> string \<Rightarrow> int \<Rightarrow> int \<Rightarrow> 'w \<Rightarrow> (int res \<times> 'w) option" where
  "RetryQueue_loop c srcKey destKey count n w =
     (case RPOPLPUSH c srcKey destKey w of
        ((_, Some e), w') \<Rightarrow> if e = ErrKeyNotExist then Some ((n, None), w') else Some ((n, Some e), w')
      | ((_, None), w') \<Rightarrow>
          if 0 < count \<and> count \<le> i64 (n + 1) then Some ((i64 (n + 1), None), w')
          else RetryQueue_loop c srcKey destKey count (i64 (n + 1)) w')"

definition storage_RetryQueue ::
  "'w client \<Rightarrow> storage \<Rightarrow> QueueName \<Rightarrow> TopicName \<Rightarrow> int \<Rightarrow> 'w \<Rightarrow> (int res \<times> 'w) option go" where
  "storage_RetryQueue cl s qn tn count w =
     with_cli s (RetryQueue_loop (cl (address s)) (GetKey qn tn RetryQueue) (GetKey qn tn CommonQueue)
                   count 0 w)"

definition CleanQueue ::
  "'w client \<Rightarrow> storage \<Rightarrow> QueueName \<Rightarrow> TopicName \<Rightarrow> QueueTyp \<Rightarrow> 'w \<Rightarrow> (int res \<times> 'w) go" where
  "CleanQueue cl s qn tn typ w =
     (let key = GetKey qn tn typ in
      go_bind (with_cli s (LLEN (cl (address s)) key w))
        (\<lambda>((len, err), w1).
           if err \<noteq> None then Ret ((len, err), w1)
           else (let ((_, err2), w2) = DEL (cl (address s)) key w1 in Ret ((len, err2), w2))))"

definition GetLength ::
  "'w client \<Rightarrow> storage \<Rightarrow> QueueName \<Rightarrow> TopicName \<Rightarrow> 'w \<Rightarrow>
   ((int \<times> int \<times> int \<times> redis_err option) \<times> 'w) go" where
  "GetLength cl s qn tn w =
     go_bind (with_cli s (LLEN (cl (address s)) (GetKey qn tn CommonQueue) w))
       (\<lambda>((normal, err), w1).
          if err \<noteq> None then Ret ((normal, 0, 0, err), w1)
          else
            (let ((retry, err2), w2) = LLEN (cl (address s)) (GetKey qn tn RetryQueue) w1;
                 ((timeout, _), w3) = LLEN (cl (address s)) (GetKey qn tn TimeoutQueue) w2
             in Ret ((normal, retry, timeout, err2), w3)))"

text \<open>
  \<open>GetJobsFromQueue\<close>: \<open>(None, None)\<close> when the list is empty; the error of \<open>Decode\<close> is ignored. The
  outgoing trace id is drawn before the list is read.
\<close>

definition GetJobsFromQueue ::
  "'w client \<Rightarrow> 'g idgen \<Rightarrow> string \<Rightarrow> storage \<Rightarrow> QueueName \<Rightarrow> TopicName \<Rightarrow> QueueTyp \<Rightarrow> 'g \<Rightarrow> 'w \<Rightarrow>
   (Jobs option res \<times> 'g \<times> 'w) go" where
  "GetJobsFromQueue cl gen sid s q c typ g w =
     (let (tid, g') = GenTraceId gen sid g;
          k = GetKey q c typ
      in go_bind (with_cli s (RPOP (cl (address s)) k w))
           (\<lambda>((content, err), w').
              case err of
                Some e \<Rightarrow> if e = ErrKeyNotExist then Ret ((None, None), g', w') else Ret ((None, Some e), g', w')
              | None \<Rightarrow>
                  (let job = fst (Job_Decode new_Job (case content of None \<Rightarrow> [] | Some b \<Rightarrow> b))
                   in Ret ((Some \<lparr>inTraceId = [], outTraceId = tid, queueName = q, topicName = c,
                                   retrying = False, Slice = [job]\<rparr>, None), g', w'))))"

subsection \<open>Keys\<close>

text \<open>The keys of different topics and of different lists of a topic differ, if names hold no colon.\<close>

lemma colon_split_unique:
  "CHR '':'' \<notin> set a \<Longrightarrow> CHR '':'' \<notin> set a' \<Longrightarrow> a @ CHR '':'' # r = a' @ CHR '':'' # r' \<Longrightarrow> a = a' \<and> r = r'"
proof (induction a arbitrary: a')
  case Nil
  then show ?case by (cases a') auto
next
  case (Cons x a)
  then show ?case by (cases a') auto
qed

definition plain_name :: "string \<Rightarrow> bool" where
  "plain_name n \<longleftrightarrow> CHR '':'' \<notin> set n"

definition list_suffix :: "QueueTyp \<Rightarrow> string" where
  "list_suffix typ =
     (case typ of CommonQueue \<Rightarrow> ''list'' | RetryQueue \<Rightarrow> ''list_retry'' | TimeoutQueue \<Rightarrow> ''list_timeout'')"

lemma GetKey_eq: "GetKey qn tn qt = qn @ ''::'' @ tn @ ''::'' @ list_suffix qt"
  by (cases qt) (simp_all add: GetKey_def list_suffix_def IsRetryQueue_def IsTimeoutQueue_def)

lemma list_suffix_inj [simp]: "list_suffix a = list_suffix b \<longleftrightarrow> a = b"
  by (cases a; cases b) (simp_all add: list_suffix_def)

lemma GetKey_typ_inj [simp]: "GetKey q t a = GetKey q t b \<longleftrightarrow> a = b"
  by (simp add: GetKey_eq)

lemma GetKey_inj:
  assumes "plain_name q" "plain_name t" "plain_name q'" "plain_name t'"
    and "GetKey q t a = GetKey q' t' b"
  shows "q = q' \<and> t = t' \<and> a = b"
proof -
  have e: "q @ CHR '':'' # CHR '':'' # t @ ''::'' @ list_suffix a
      = q' @ CHR '':'' # CHR '':'' # t' @ ''::'' @ list_suffix b"
    using assms(5) by (simp add: GetKey_eq)
  have q: "q = q'" and r: "CHR '':'' # t @ ''::'' @ list_suffix a = CHR '':'' # t' @ ''::'' @ list_suffix b"
    using colon_split_unique [OF _ _ e] assms(1,3) by (auto simp: plain_name_def)
  from r have e2: "t @ CHR '':'' # CHR '':'' # list_suffix a = t' @ CHR '':'' # CHR '':'' # list_suffix b"
    by simp
  have "t = t'" "CHR '':'' # list_suffix a = CHR '':'' # list_suffix b"
    using colon_split_unique [OF _ _ e2] assms(2,4) by (auto simp: plain_name_def)
  with q show ?thesis by simp
qed

subsection \<open>The Redis service\<close>

definition put :: "(string \<Rightarrow> string \<Rightarrow> string list) \<Rightarrow> string \<Rightarrow> string \<Rightarrow> string list \<Rightarrow>
    (string \<Rightarrow> string \<Rightarrow> string list)" where
  "put l a k xs = l(a := (l a)(k := xs))"

lemma put_same [simp]: "put l a k xs a k = xs"
  by (simp add: put_def)

lemma put_other: "(a, k) \<noteq> (a', k') \<Longrightarrow> put l a k xs a' k' = l a' k'"
  by (auto simp: put_def)

lemma put_put [simp]: "put (put l a k xs) a k ys = put l a k ys"
  by (simp add: put_def fun_eq_iff)

lemma put_id [simp]: "put l a k (l a k) = l"
  by (simp add: put_def)

text \<open>
  What the bus relies on: the documented effect of the list commands while the servers are reachable
  and the keys it uses hold lists (\<open>up w\<close>). \<open>LPUSH\<close> inserts the values one after another at the head;
  \<open>RPOP\<close> removes the last element; a missing key behaves as an empty list.
\<close>

locale redis_lists =
  fixes cl :: "'w client"
    and lst :: "'w \<Rightarrow> string \<Rightarrow> string \<Rightarrow> string list"
    and up :: "'w \<Rightarrow> bool"
  assumes lpush: "up w \<Longrightarrow> vs \<noteq> [] \<Longrightarrow>
      \<exists>n w'. cl a ''LPUSH'' (AStr k # map AStr vs) w = (Inr (RInt n), w') \<and> up w'
        \<and> lst w' = put (lst w) a k (rev vs @ lst w a k)"
    and rpop_empty: "up w \<Longrightarrow> lst w a k = [] \<Longrightarrow>
      \<exists>w'. cl a ''RPOP'' [AStr k] w = (Inr RNil, w') \<and> up w' \<and> lst w' = lst w"
    and rpop: "up w \<Longrightarrow> lst w a k = xs @ [x] \<Longrightarrow>
      \<exists>w'. cl a ''RPOP'' [AStr k] w = (Inr (RBytes x), w') \<and> up w' \<and> lst w' = put (lst w) a k xs"
    and llen: "up w \<Longrightarrow>
      \<exists>w'. cl a ''LLEN'' [AStr k] w = (Inr (RInt (int (length (lst w a k)))), w') \<and> up w' \<and> lst w' = lst w"
    and del: "up w \<Longrightarrow>
      \<exists>n w'. cl a ''DEL'' [AStr k] w = (Inr (RInt n), w') \<and> up w' \<and> lst w' = put (lst w) a k []"
    and rpoplpush_empty: "up w \<Longrightarrow> lst w a k = [] \<Longrightarrow>
      \<exists>w'. cl a ''RPOPLPUSH'' [AStr k, AStr k'] w = (Inr RNil, w') \<and> up w' \<and> lst w' = lst w"
    and rpoplpush: "up w \<Longrightarrow> k \<noteq> k' \<Longrightarrow> lst w a k = xs @ [x] \<Longrightarrow>
      \<exists>w'. cl a ''RPOPLPUSH'' [AStr k, AStr k'] w = (Inr (RBytes x), w') \<and> up w'
        \<and> lst w' = put (put (lst w) a k xs) a k' (x # lst w a k')"
    and lrange: "up w \<Longrightarrow> 0 \<le> n \<Longrightarrow>
      \<exists>w'. cl a ''LRANGE'' [AStr k, AInt 0, AInt n] w
          = (Inr (RArr (map RBytes (take (nat n + 1) (lst w a k)))), w') \<and> up w' \<and> lst w' = lst w"
    and ltrim: "up w \<Longrightarrow> 0 \<le> n \<Longrightarrow>
      \<exists>w'. cl a ''LTRIM'' [AStr k, AInt 0, AInt n] w = (Inr (RBytes ''OK''), w') \<and> up w'
        \<and> lst w' = put (lst w) a k (take (nat n + 1) (lst w a k))"

subsection \<open>The storage as FIFO queues of jobs\<close>

text \<open>The jobs of a list, oldest first.\<close>

definition queued :: "(string \<Rightarrow> string \<Rightarrow> string list) \<Rightarrow> storage \<Rightarrow> QueueName \<Rightarrow> TopicName \<Rightarrow> QueueTyp \<Rightarrow> Job list" where
  "queued l s q t typ = map (\<lambda>v. fst (Job_Decode new_Job v)) (rev (l (address s) (GetKey q t typ)))"

definition bump :: "bool \<Rightarrow> Job \<Rightarrow> Job" where
  "bump rt job = (if rt then job\<lparr>Retry := i64 (Retry job + 1)\<rparr> else job)"

lemma bump_False [simp]: "bump False = (\<lambda>j. j)"
  by (simp add: bump_def fun_eq_iff)

lemma wf_job_bump [simp, inv_intros]: "wf_job j \<Longrightarrow> wf_job (bump rt j)"
  by (simp add: wf_job_def bump_def)

definition job_text :: "Job \<Rightarrow> string" where
  "job_text j = json_marshal (Job_json j)"

lemma Job_Encode_text: "Job_Encode j = Inr (job_text j)"
  by (simp add: Job_Encode_def job_text_def)

lemma Job_Decode_text [simp]: "wf_job j \<Longrightarrow> fst (Job_Decode j0 (job_text j)) = j"
  using Job_Decode_Encode [of j j0] by (auto simp: Job_Encode_text)

lemma AddQueue_loop_eq:
  "AddQueue_loop rt js = (map (bump rt) js, map (\<lambda>j. job_text (bump rt j)) js)"
  by (induction js) (simp_all add: bump_def Job_Encode_text Let_def)

definition added :: "Jobs \<Rightarrow> QueueTyp \<Rightarrow> Jobs" where
  "added jobs typ =
     (let rt = (typ = RetryQueue \<or> retrying jobs)
      in jobs\<lparr>retrying := rt, Slice := map (bump rt) (Slice jobs)\<rparr>)"

lemma added_simps [simp]:
  "queueName (added jobs typ) = queueName jobs" "topicName (added jobs typ) = topicName jobs"
  "Slice (added jobs typ) = map (bump (typ = RetryQueue \<or> retrying jobs)) (Slice jobs)"
  by (simp_all add: added_def Let_def)

lemma AddQueue_cases:
  "AddQueue cl s jobs typ w =
     (if Slice jobs = [] then Ret (Some ''empty jobs'', added jobs typ, w)
      else if redisCli s then
        Ret (None, added jobs typ,
             snd (LPUSH (cl (address s)) (GetKey (queueName jobs) (topicName jobs) typ)
                    (map job_text (Slice (added jobs typ))) w))
      else Panic)"
  by (cases "typ = RetryQueue"; cases "retrying jobs")
     (auto simp: AddQueue_def AddQueue_loop_eq Let_def IsRetryQueue_def added_def with_cli_def comp_def
       split: prod.splits)

lemma queued_put_same:
  "queued (put l (address s) (GetKey q t typ) xs) s q t typ
   = map (\<lambda>v. fst (Job_Decode new_Job v)) (rev xs)"
  by (simp add: queued_def)

lemma queued_put_other:
  "GetKey q t typ \<noteq> k \<or> address s \<noteq> a \<Longrightarrow> queued (put l a k xs) s q t typ = queued l s q t typ"
  by (auto simp: queued_def put_def)

lemma decode_texts: "\<forall>j \<in> set js. wf_job j \<Longrightarrow> map (\<lambda>v. fst (Job_Decode new_Job v)) (map job_text js) = js"
  by (induction js) auto

lemma queued_Cons:
  assumes "queued l s q t typ = j # js"
  obtains xs x where "l (address s) (GetKey q t typ) = xs @ [x]" "fst (Job_Decode new_Job x) = j"
    "map (\<lambda>v. fst (Job_Decode new_Job v)) (rev xs) = js"
  using assms by (cases "l (address s) (GetKey q t typ)" rule: rev_cases) (auto simp: queued_def)

lemma queued_Nil: "queued l s q t typ = [] \<longleftrightarrow> l (address s) (GetKey q t typ) = []"
  by (simp add: queued_def)

lemma queued_wf [simp]: "j \<in> set (queued l s q t typ) \<Longrightarrow> wf_job j"
  by (auto simp: queued_def Job_Decode_wf)

lemma queued_head_wf: "queued l s q t typ = j # js \<Longrightarrow> wf_job j"
  using queued_wf [of j l s q t "typ"] by simp

context redis_lists
begin

lemma AddQueue_ok:
  assumes "up w" "redisCli s" "Slice jobs \<noteq> []"
  shows "\<exists>w'. AddQueue cl s jobs typ w = Ret (None, added jobs typ, w') \<and> up w'
     \<and> lst w' = put (lst w) (address s) (GetKey (queueName jobs) (topicName jobs) typ)
         (rev (map job_text (Slice (added jobs typ)))
          @ lst w (address s) (GetKey (queueName jobs) (topicName jobs) typ))"
proof -
  have "map job_text (Slice (added jobs typ)) \<noteq> []" using assms(3) by simp
  from lpush [OF assms(1) this, of "address s" "GetKey (queueName jobs) (topicName jobs) typ"]
  show ?thesis using assms(2,3) by (auto simp: AddQueue_cases LPUSH_def)
qed

lemma AddQueue_enqueues:
  assumes "up w" "redisCli s" "Slice jobs \<noteq> []" "\<forall>j \<in> set (Slice jobs). wf_job j"
  shows "\<exists>w'. AddQueue cl s jobs typ w = Ret (None, added jobs typ, w') \<and> up w'
     \<and> queued (lst w') s (queueName jobs) (topicName jobs) typ
       = queued (lst w) s (queueName jobs) (topicName jobs) typ @ Slice (added jobs typ)
     \<and> (\<forall>s' q t typ'. GetKey q t typ' \<noteq> GetKey (queueName jobs) (topicName jobs) typ \<or> address s' \<noteq> address s
          \<longrightarrow> queued (lst w') s' q t typ' = queued (lst w) s' q t typ')"
proof -
  have wf: "\<forall>j \<in> set (Slice (added jobs typ)). wf_job j" using assms(4) by auto
  obtain w' where w': "AddQueue cl s jobs typ w = Ret (None, added jobs typ, w')" "up w'"
    "lst w' = put (lst w) (address s) (GetKey (queueName jobs) (topicName jobs) typ)
         (rev (map job_text (Slice (added jobs typ)))
          @ lst w (address s) (GetKey (queueName jobs) (topicName jobs) typ))"
    using AddQueue_ok [OF assms(1-3)] by blast
  have "queued (lst w') s (queueName jobs) (topicName jobs) typ
      = queued (lst w) s (queueName jobs) (topicName jobs) typ @ Slice (added jobs typ)"
    using w'(3) decode_texts [OF wf] by (simp add: queued_put_same) (simp add: queued_def)
  with w' show ?thesis by (auto simp: queued_put_other)
qed

lemma GetJobs_empty:
  assumes "up w" "redisCli s" "queued (lst w) s q t typ = []"
  shows "\<exists>w'. GetJobsFromQueue cl gen sid s q t typ g w = Ret ((None, None), snd (GenTraceId gen sid g), w')
     \<and> up w' \<and> lst w' = lst w"
proof -
  have "lst w (address s) (GetKey q t typ) = []" using assms(3) by (simp add: queued_Nil)
  from rpop_empty [OF assms(1) this] show ?thesis using assms(2)
    by (auto simp: GetJobsFromQueue_def with_cli_def RPOP_def reply_defs Let_def case_prod_beta)
qed

lemma GetJobs_dequeues:
  assumes "up w" "redisCli s" "queued (lst w) s q t typ = j # js"
  shows "\<exists>w'. GetJobsFromQueue cl gen sid s q t typ g w
       = Ret ((Some \<lparr>inTraceId = [], outTraceId = fst (GenTraceId gen sid g), queueName = q, topicName = t,
                      retrying = False, Slice = [j]\<rparr>, None), snd (GenTraceId gen sid g), w')
     \<and> up w' \<and> queued (lst w') s q t typ = js
     \<and> (\<forall>s' q' t' typ'. GetKey q' t' typ' \<noteq> GetKey q t typ \<or> address s' \<noteq> address s
          \<longrightarrow> queued (lst w') s' q' t' typ' = queued (lst w) s' q' t' typ')"
proof -
  obtain xs x where x: "lst w (address s) (GetKey q t typ) = xs @ [x]" "fst (Job_Decode new_Job x) = j"
    "map (\<lambda>v. fst (Job_Decode new_Job v)) (rev xs) = js"
    using assms(3) by (rule queued_Cons)
  obtain w' where w': "cl (address s) ''RPOP'' [AStr (GetKey q t typ)] w = (Inr (RBytes x), w')" "up w'"
    "lst w' = put (lst w) (address s) (GetKey q t typ) xs"
    using rpop [OF assms(1) x(1)] by blast
  have "GetJobsFromQueue cl gen sid s q t typ g w
       = Ret ((Some \<lparr>inTraceId = [], outTraceId = fst (GenTraceId gen sid g), queueName = q, topicName = t,
                      retrying = False, Slice = [j]\<rparr>, None), snd (GenTraceId gen sid g), w')"
    using w'(1) assms(2) x(2)
    by (simp add: GetJobsFromQueue_def with_cli_def RPOP_def reply_defs Let_def case_prod_beta)
  moreover have "queued (lst w') s q t typ = js"
    using w'(3) x(3) by (simp add: queued_put_same)
  ultimately show ?thesis using w'(2,3) by (auto simp: queued_put_other)
qed

end

text \<open>How many jobs \<open>RetryQueue\<close> moves: all of them, or at most \<open>count\<close> when \<open>count\<close> is positive.\<close>

definition retry_moves :: "int \<Rightarrow> nat \<Rightarrow> nat" where
  "retry_moves count len = (if 0 < count then min (nat count) len else len)"

context redis_lists
begin

lemma RetryQueue_loop_stops:
  assumes "up w" "lst w a src = xs" "src \<noteq> dst" "0 \<le> n" "n + int (length xs) < 2 ^ 63"
    and "0 < count \<longrightarrow> n < count"
  shows "\<exists>w' m. m = (if 0 < count then min (nat (count - n)) (length xs) else length xs)
     \<and> RetryQueue_loop (cl a) src dst count n w = Some ((n + int m, None), w') \<and> up w'
     \<and> lst w' = put (put (lst w) a src (take (length xs - m) xs)) a dst
                  (drop (length xs - m) xs @ lst w a dst)"
  using assms
proof (induction xs arbitrary: w n rule: rev_induct)
  case Nil
  then obtain w' where "cl a ''RPOPLPUSH'' [AStr src, AStr dst] w = (Inr RNil, w')" "up w'" "lst w' = lst w"
    using rpoplpush_empty [of w a src dst] by auto
  moreover have "put (put (lst w) a src []) a dst (lst w a dst) = lst w"
    using Nil.prems(2) by (auto simp: put_def fun_eq_iff)
  ultimately show ?case using Nil
    by (auto simp: RetryQueue_loop.simps [of "cl a" src dst count n w] RPOPLPUSH_def reply_defs)
next
  case (snoc x xs)
  obtain w1 where w1: "cl a ''RPOPLPUSH'' [AStr src, AStr dst] w = (Inr (RBytes x), w1)" "up w1"
    "lst w1 = put (put (lst w) a src xs) a dst (x # lst w a dst)"
    using rpoplpush [of w src dst a xs x] snoc.prems by auto
  have i: "i64 (n + 1) = n + 1" using snoc.prems by (simp add: in_i64_def)
  show ?case
  proof (cases "0 < count \<and> count \<le> n + 1")
    case True
    then have m: "min (nat (count - n)) (length (xs @ [x])) = 1" using snoc.prems by auto
    show ?thesis using True m w1 i snoc.prems
      by (intro exI [of _ w1] exI [of _ 1])
         (auto simp: RetryQueue_loop.simps [of "cl a" src dst count n w] RPOPLPUSH_def reply_defs)
  next
    case False
    have step: "RetryQueue_loop (cl a) src dst count n w = RetryQueue_loop (cl a) src dst count (n + 1) w1"
      using False w1(1) i
      by (auto simp: RetryQueue_loop.simps [of "cl a" src dst count n w] RPOPLPUSH_def reply_defs)
    have src: "lst w1 a src = xs" and dst: "lst w1 a dst = x # lst w a dst"
      using w1(3) snoc.prems(3) by (simp_all add: put_def)
    obtain w' m where m: "m = (if 0 < count then min (nat (count - (n + 1))) (length xs) else length xs)"
      and r: "RetryQueue_loop (cl a) src dst count (n + 1) w1 = Some ((n + 1 + int m, None), w')" "up w'"
      and l: "lst w' = put (put (lst w1) a src (take (length xs - m) xs)) a dst
                  (drop (length xs - m) xs @ lst w1 a dst)"
      using snoc.IH [OF w1(2) src snoc.prems(3), of "n + 1"] snoc.prems False by auto
    have m': "Suc m = (if 0 < count then min (nat (count - n)) (length (xs @ [x])) else length (xs @ [x]))"
      using m snoc.prems False by auto
    have "m \<le> length xs" using m by auto
    then have "lst w' = put (put (lst w) a src (take (length (xs @ [x]) - Suc m) (xs @ [x]))) a dst
                  (drop (length (xs @ [x]) - Suc m) (xs @ [x]) @ lst w a dst)"
      using l w1(3) dst snoc.prems(3) by (auto simp: put_def fun_eq_iff)
    with m' r step show ?thesis by (intro exI [of _ w'] exI [of _ "Suc m"]) simp
  qed
qed

lemma RetryQueue_moves:
  assumes "up w" "redisCli s" "int (length (queued (lst w) s q t RetryQueue)) < 2 ^ 63"
    and m_def: "m = retry_moves count (length (queued (lst w) s q t RetryQueue))"
  shows "\<exists>w'. storage_RetryQueue cl s q t count w = Ret (Some ((int m, None), w')) \<and> up w'
     \<and> queued (lst w') s q t RetryQueue = drop m (queued (lst w) s q t RetryQueue)
     \<and> queued (lst w') s q t CommonQueue
       = queued (lst w) s q t CommonQueue @ take m (queued (lst w) s q t RetryQueue)
     \<and> queued (lst w') s q t TimeoutQueue = queued (lst w) s q t TimeoutQueue"
proof -
  define xs where "xs = lst w (address s) (GetKey q t RetryQueue)"
  have len: "length (queued (lst w) s q t RetryQueue) = length xs" by (simp add: queued_def xs_def)
  have mm: "m = (if 0 < count then min (nat (count - 0)) (length xs) else length xs)"
    by (simp add: m_def retry_moves_def len)
  obtain w' where r: "RetryQueue_loop (cl (address s)) (GetKey q t RetryQueue) (GetKey q t CommonQueue)
       count 0 w = Some ((int m, None), w')" and u: "up w'"
    and l: "lst w' = put (put (lst w) (address s) (GetKey q t RetryQueue) (take (length xs - m) xs))
        (address s) (GetKey q t CommonQueue)
        (drop (length xs - m) xs @ lst w (address s) (GetKey q t CommonQueue))"
    using RetryQueue_loop_stops [OF assms(1) xs_def [symmetric], of "GetKey q t CommonQueue" 0 count]
      assms(3) len mm by auto
  have ml: "length xs - (length xs - m) = m" using mm by auto
  have q: "queued (lst w') s q t RetryQueue = drop m (queued (lst w) s q t RetryQueue)"
    using l by (simp add: queued_put_other queued_put_same)
       (simp add: queued_def xs_def [symmetric] rev_take drop_map ml)
  have c: "queued (lst w') s q t CommonQueue
       = queued (lst w) s q t CommonQueue @ take m (queued (lst w) s q t RetryQueue)"
    using l by (simp add: queued_put_same) (simp add: queued_def xs_def [symmetric] rev_drop take_map ml)
  have "queued (lst w') s q t TimeoutQueue = queued (lst w) s q t TimeoutQueue"
    using l by (simp add: queued_put_other)
  with r u q c show ?thesis using assms(2) by (simp add: storage_RetryQueue_def with_cli_def)
qed

lemma CleanQueue_empties:
  assumes "up w" "redisCli s"
  shows "\<exists>w'. CleanQueue cl s q t typ w = Ret ((int (length (queued (lst w) s q t typ)), None), w') \<and> up w'
     \<and> queued (lst w') s q t typ = []
     \<and> (\<forall>s' q' t' typ'. GetKey q' t' typ' \<noteq> GetKey q t typ \<or> address s' \<noteq> address s
          \<longrightarrow> queued (lst w') s' q' t' typ' = queued (lst w) s' q' t' typ')"
proof -
  let ?a = "address s" and ?k = "GetKey q t typ"
  obtain w1 where w1: "cl ?a ''LLEN'' [AStr ?k] w = (Inr (RInt (int (length (lst w ?a ?k)))), w1)"
    "up w1" "lst w1 = lst w"
    using llen [OF assms(1)] by blast
  obtain n w2 where w2: "cl ?a ''DEL'' [AStr ?k] w1 = (Inr (RInt n), w2)" "up w2"
    "lst w2 = put (lst w1) ?a ?k []"
    using del [OF w1(2)] by blast
  have "CleanQueue cl s q t typ w = Ret ((int (length (queued (lst w) s q t typ)), None), w2)"
    using w1 w2 assms(2) by (simp add: CleanQueue_def with_cli_def LLEN_def DEL_def reply_defs queued_def)
  with w1(3) w2 show ?thesis by (auto simp: queued_put_same queued_put_other)
qed

lemma GetLength_lengths:
  assumes "up w" "redisCli s"
  shows "\<exists>w'. GetLength cl s q t w
     = Ret ((int (length (queued (lst w) s q t CommonQueue)), int (length (queued (lst w) s q t RetryQueue)),
             int (length (queued (lst w) s q t TimeoutQueue)), None), w') \<and> up w' \<and> lst w' = lst w"
proof -
  let ?a = "address s"
  obtain w1 where w1: "cl ?a ''LLEN'' [AStr (GetKey q t CommonQueue)] w
      = (Inr (RInt (int (length (lst w ?a (GetKey q t CommonQueue))))), w1)" "up w1" "lst w1 = lst w"
    using llen [OF assms(1)] by blast
  obtain w2 where w2: "cl ?a ''LLEN'' [AStr (GetKey q t RetryQueue)] w1
      = (Inr (RInt (int (length (lst w1 ?a (GetKey q t RetryQueue))))), w2)" "up w2" "lst w2 = lst w1"
    using llen [OF w1(2)] by blast
  obtain w3 where w3: "cl ?a ''LLEN'' [AStr (GetKey q t TimeoutQueue)] w2
      = (Inr (RInt (int (length (lst w2 ?a (GetKey q t TimeoutQueue))))), w3)" "up w3" "lst w3 = lst w2"
    using llen [OF w2(2)] by blast
  show ?thesis using w1 w2 w3 assms(2)
    by (auto simp: GetLength_def with_cli_def LLEN_def reply_defs queued_def)
qed

end

subsection \<open>The interface of a topic's list\<close>

text \<open>
  What a client of the storage may rely on: adding appends to the list, taking removes its oldest
  job. \<open>mine\<close> says which batches belong to the list.
\<close>

locale job_fifo =
  fixes add :: "Jobs \<Rightarrow> 'w \<Rightarrow> (string option \<times> Jobs \<times> 'w) go"
    and get :: "'g \<Rightarrow> 'w \<Rightarrow> (Jobs option res \<times> 'g \<times> 'w) go"
    and content :: "'w \<Rightarrow> Job list"
    and good :: "'w \<Rightarrow> bool"
    and mine :: "Jobs \<Rightarrow> bool"
  assumes add_law: "good w \<Longrightarrow> mine jobs \<Longrightarrow> Slice jobs \<noteq> [] \<Longrightarrow> \<forall>j \<in> set (Slice jobs). wf_job j \<Longrightarrow>
      \<exists>jobs' w'. add jobs w = Ret (None, jobs', w') \<and> good w' \<and> content w' = content w @ Slice jobs"
    and get_law: "good w \<Longrightarrow> content w = j # js \<Longrightarrow>
      \<exists>jobs g' w'. get g w = Ret ((Some jobs, None), g', w') \<and> Slice jobs = [j] \<and> good w' \<and> content w' = js"
    and get_none: "good w \<Longrightarrow> content w = [] \<Longrightarrow>
      \<exists>g' w'. get g w = Ret ((None, None), g', w') \<and> good w' \<and> content w' = []"

text \<open>Taking \<open>n\<close> batches, and adding a sequence of batches.\<close>

fun take_batches ::
  "('g \<Rightarrow> 'w \<Rightarrow> (Jobs option res \<times> 'g \<times> 'w) go) \<Rightarrow> nat \<Rightarrow> 'g \<Rightarrow> 'w \<Rightarrow> (Job list \<times> 'g \<times> 'w) go" where
  "take_batches get 0 g w = Ret ([], g, w)"
| "take_batches get (Suc n) g w =
     go_bind (get g w) (\<lambda>((r, e), g1, w1).
     go_bind (take_batches get n g1 w1) (\<lambda>(js, g2, w2).
     Ret ((case r of None \<Rightarrow> [] | Some jobs \<Rightarrow> Slice jobs) @ js, g2, w2)))"

fun add_batches ::
  "(Jobs \<Rightarrow> 'w \<Rightarrow> (string option \<times> Jobs \<times> 'w) go) \<Rightarrow> Jobs list \<Rightarrow> 'w \<Rightarrow> 'w go" where
  "add_batches add [] w = Ret w"
| "add_batches add (jobs # bs) w = go_bind (add jobs w) (\<lambda>(_, _, w1). add_batches add bs w1)"

context job_fifo
begin

lemma take_batches_oldest:
  "good w \<Longrightarrow> \<exists>g' w'. take_batches get n g w = Ret (take n (content w), g', w') \<and> good w' \<and> content w' = drop n (content w)"
proof (induction n arbitrary: g w)
  case (Suc n)
  show ?case
  proof (cases "content w")
    case Nil
    with get_none Suc.prems obtain g1 w1 where "get g w = Ret ((None, None), g1, w1)" "good w1" "content w1 = []"
      by blast
    with Suc.IH [of w1 g1] Nil show ?thesis by auto
  next
    case (Cons j js)
    with get_law Suc.prems obtain jobs g1 w1 where
      "get g w = Ret ((Some jobs, None), g1, w1)" "Slice jobs = [j]" "good w1" "content w1 = js"
      by blast
    with Suc.IH [of w1 g1] Cons show ?thesis by auto
  qed
qed simp

lemma add_batches_append:
  "good w \<Longrightarrow> \<forall>jobs \<in> set bs. mine jobs \<and> Slice jobs \<noteq> [] \<and> (\<forall>j \<in> set (Slice jobs). wf_job j) \<Longrightarrow>
   \<exists>w'. add_batches add bs w = Ret w' \<and> good w' \<and> content w' = content w @ concat (map Slice bs)"
proof (induction bs arbitrary: w)
  case (Cons jobs bs)
  obtain jobs' w1 where w1: "add jobs w = Ret (None, jobs', w1)" "good w1" "content w1 = content w @ Slice jobs"
    using add_law [OF Cons.prems(1), of jobs] Cons.prems(2) by auto
  with Cons.IH [OF w1(2)] Cons.prems(2) show ?case by auto
qed simp

text \<open>Whatever is added comes out again, once and in the order of submission.\<close>

lemma fifo:
  assumes "good w" "content w = []"
    and "\<forall>jobs \<in> set bs. mine jobs \<and> Slice jobs \<noteq> [] \<and> (\<forall>j \<in> set (Slice jobs). wf_job j)"
    and "n = length (concat (map Slice bs))"
  shows "\<exists>w1 g2 w2. add_batches add bs w = Ret w1
     \<and> take_batches get n g w1 = Ret (concat (map Slice bs), g2, w2) \<and> good w2 \<and> content w2 = []"
proof -
  obtain w1 where w1: "add_batches add bs w = Ret w1" "good w1" "content w1 = concat (map Slice bs)"
    using add_batches_append [OF assms(1,3)] assms(2) by auto
  with take_batches_oldest [OF w1(2), of n g] assms(4) show ?thesis by auto
qed

end

text \<open>The storage provides this interface for each of the lists of a topic.\<close>

locale topic_store = redis_lists cl lst up
  for cl :: "'w client" and lst :: "'w \<Rightarrow> string \<Rightarrow> string \<Rightarrow> string list" and up :: "'w \<Rightarrow> bool" +
  fixes gen :: "'g idgen" and sid :: string and s :: storage and q :: QueueName and t :: TopicName
  assumes has_client: "redisCli s"

sublocale topic_store \<subseteq> common: job_fifo "\<lambda>jobs. AddQueue cl s jobs CommonQueue"
  "GetJobsFromQueue cl gen sid s q t CommonQueue" "\<lambda>w. queued (lst w) s q t CommonQueue" up
  "\<lambda>jobs. queueName jobs = q \<and> topicName jobs = t \<and> \<not> retrying jobs"
proof
  fix w and jobs :: Jobs
  assume a: "up w" "queueName jobs = q \<and> topicName jobs = t \<and> \<not> retrying jobs" "Slice jobs \<noteq> []"
    "\<forall>j \<in> set (Slice jobs). wf_job j"
  have "Slice (added jobs CommonQueue) = Slice jobs" using a(2) by simp
  with AddQueue_enqueues [OF a(1) has_client a(3,4), of CommonQueue] a(2)
  show "\<exists>jobs' w'. AddQueue cl s jobs CommonQueue w = Ret (None, jobs', w') \<and> up w'
      \<and> queued (lst w') s q t CommonQueue = queued (lst w) s q t CommonQueue @ Slice jobs"
    by auto
next
  fix w j js g
  assume "up w" "queued (lst w) s q t CommonQueue = j # js"
  with GetJobs_dequeues [OF _ has_client this(2), of gen sid g]
  show "\<exists>jobs g' w'. GetJobsFromQueue cl gen sid s q t CommonQueue g w = Ret ((Some jobs, None), g', w')
      \<and> Slice jobs = [j] \<and> up w' \<and> queued (lst w') s q t CommonQueue = js"
    by (fastforce simp: job_text_def)
next
  fix w g
  assume a: "up w" "queued (lst w) s q t CommonQueue = []"
  with GetJobs_empty [OF a(1) has_client a(2), of gen sid g]
  show "\<exists>g' w'. GetJobsFromQueue cl gen sid s q t CommonQueue g w = Ret ((None, None), g', w')
      \<and> up w' \<and> queued (lst w') s q t CommonQueue = []"
    by auto
qed

context topic_store
begin

lemmas common_fifo = common.fifo

end

end
