(* ===== verification/Config.thy ===== *)
theory Config
  imports Storage
begin

text \<open>
  The configuration of the bus (\<open>setting.go\<close>, \<open>logic/data\<close>): the records of queues, topics and
  transports, and the part of \<open>parseQueueConfig\<close> that switches consumption on for the tags of the
  machine. The maps are in the order in which the loops of the code visit them.

  The lemmas characterise which topics consume after the tags have been applied, and show that the
  tags change nothing else of the configuration.
\<close>

subsection \<open>Records\<close>

record data_Global =
  AdminIp :: string
  AdminPort :: string
  GatewayIp :: string
  GatewayPort :: string
  InnerIpPrefix :: "string list"
  AdminIpLimit :: "string list"

record data_Queue =
  CgiConfig_text :: string
  ErrorCollectionEnable :: bool
  ErrorCollectionStorage :: string
  HttpConfig_text :: string
  QueueConfig_text :: string
  ShardId :: int
  Tags :: "string list"
  TagsMapping_text :: string
  TaskDebugEnable :: bool
  TaskDebugStorage :: string
  ConsumerDisable :: bool

record WorkerConfig =
  Script :: string
  Entry :: string
  MaxChildren :: int
  MaxTask :: int

record TopicConfig =
  tc_Name :: string
  tc_Password :: string
  tc_RetryTimes :: int
  tc_MaxQueueLength :: int
  tc_RunType :: int
  tc_Storage :: "StorageConfig option" \<comment> \<open>nil when the configuration has none\<close>
  tc_ConsumerEnable :: bool
  tc_NumOfWorkers :: nat
  tc_ScriptEntry :: string
  tc_CgiConfigKey :: string
  tc_HttpConfig :: string
  tc_WorkerConfig :: "WorkerConfig option"
  tc_IsRetry :: bool
  tc_RetryTime :: int

record QueueConfig =
  qc_QueueName :: QueueName
  qc_Password :: string
  qc_Topic :: "(TopicName, TopicConfig) gomap"
  qc_ConsumerEnable :: bool

record CgiConfig =
  cc_Address :: string
  cc_ConnectTimeout :: int
  cc_ReadTimeout :: int
  cc_WriteTimeout :: int
  cc_InitConnNum :: int
  cc_MaxConnNum :: int
  cc_ReuseCounts :: int
  cc_ReuseLife :: int

record HttpConfig =
  RequestTimeout :: int
  IdleConnTimeout :: int

type_synonym QueueConfs = "(QueueName, QueueConfig) gomap"
type_synonym TagsMapping = "(string, (string, string list) gomap) gomap"

definition RunTypeCGI :: int where "RunTypeCGI = 0"
definition RunTypeHttp :: int where "RunTypeHttp = 1"
definition RunTypeCmd :: int where "RunTypeCmd = 2"

text \<open>The topic configuration the code reads as \<open>conf[queue].Topic[topic]\<close>: a missing entry is a nil pointer.\<close>

definition topic_conf :: "QueueConfs \<Rightarrow> QueueName \<Rightarrow> TopicName \<Rightarrow> TopicConfig option" where
  "topic_conf conf q t = (case map_of conf q of None \<Rightarrow> None | Some qc \<Rightarrow> map_of (qc_Topic qc) t)"

subsection \<open>Tags\<close>

fun enable_topics :: "string list \<Rightarrow> QueueName \<Rightarrow> QueueConfs \<Rightarrow> QueueConfs" where
  "enable_topics [] q configs = configs"
| "enable_topics (topic # ts) q configs =
     enable_topics ts q
       (case map_of configs q of
          None \<Rightarrow> configs
        | Some qc \<Rightarrow>
            (case map_of (qc_Topic qc) topic of
               None \<Rightarrow> configs
             | Some tc \<Rightarrow>
                 AList.update q (qc\<lparr>qc_Topic := AList.update topic (tc\<lparr>tc_ConsumerEnable := True\<rparr>) (qc_Topic qc)\<rparr>)
                   configs))"

fun enable_mapping :: "(string \<times> string list) list \<Rightarrow> QueueConfs \<Rightarrow> QueueConfs" where
  "enable_mapping [] configs = configs"
| "enable_mapping ((queue, topicList) # ms) configs =
     enable_mapping ms
       (if topicList = [] then
          (case map_of configs queue of
             None \<Rightarrow> configs
           | Some qc \<Rightarrow> AList.update queue (qc\<lparr>qc_ConsumerEnable := True\<rparr>) configs)
        else if map_of configs queue = None then configs
        else enable_topics topicList queue configs)"

fun enable_tags :: "string list \<Rightarrow> TagsMapping \<Rightarrow> QueueConfs \<Rightarrow> QueueConfs" where
  "enable_tags [] tagsMapping configs = configs"
| "enable_tags (tag # tags) tagsMapping configs =
     enable_tags tags tagsMapping
       (case map_of tagsMapping tag of None \<Rightarrow> configs | Some tm \<Rightarrow> enable_mapping tm configs)"

text \<open>
  \<open>parseQueueConfig\<close>: decoding the two JSON texts is \<open>decode_queues\<close> and \<open>decode_tags\<close>, \<open>None\<close> for an
  error; an error returns before anything is enabled.
\<close>

definition parseQueueConfig ::
  "(string \<Rightarrow> QueueConfs option) \<Rightarrow> (string \<Rightarrow> TagsMapping option) \<Rightarrow> data_Queue \<Rightarrow> QueueConfs option" where
  "parseQueueConfig decode_queues decode_tags net =
     (case decode_queues (QueueConfig_text net) of
        None \<Rightarrow> None
      | Some configs \<Rightarrow>
          (case decode_tags (TagsMapping_text net) of
             None \<Rightarrow> None
           | Some tagsMapping \<Rightarrow> Some (enable_tags (Tags net) tagsMapping configs)))"

subsection \<open>What the tags enable\<close>

definition consumes :: "QueueConfs \<Rightarrow> QueueName \<Rightarrow> TopicName \<Rightarrow> bool" where
  "consumes conf q t =
     (case map_of conf q of
        None \<Rightarrow> False
      | Some qc \<Rightarrow> (case map_of (qc_Topic qc) t of None \<Rightarrow> False
                    | Some tc \<Rightarrow> qc_ConsumerEnable qc \<or> tc_ConsumerEnable tc))"

text \<open>A mapping entry \<open>(queue, topics)\<close> selects a topic if it lists it or lists nothing.\<close>

definition selects :: "(string \<times> string list) list \<Rightarrow> QueueName \<Rightarrow> TopicName \<Rightarrow> bool" where
  "selects tm q t \<longleftrightarrow> (\<exists>ts. (q, ts) \<in> set tm \<and> (ts = [] \<or> t \<in> set ts))"

text \<open>The configuration without its consumer flags.\<close>

definition strip_topic :: "TopicConfig \<Rightarrow> TopicConfig" where
  "strip_topic tc = tc\<lparr>tc_ConsumerEnable := False\<rparr>"

definition strip_queue :: "QueueConfig \<Rightarrow> QueueConfig" where
  "strip_queue qc = qc\<lparr>qc_ConsumerEnable := False, qc_Topic := map (\<lambda>(t, tc). (t, strip_topic tc)) (qc_Topic qc)\<rparr>"

definition strip :: "QueueConfs \<Rightarrow> QueueConfs" where
  "strip conf = map (\<lambda>(q, qc). (q, strip_queue qc)) conf"

lemma strip_update_same:
  assumes "map_of m k = Some v" "f v' = f v"
  shows "map (\<lambda>(k, v). (k, f v)) (AList.update k v' m) = map (\<lambda>(k, v). (k, f v)) m"
  using assms by (induction m) auto

lemma topic_conf_strip: "topic_conf (strip conf) q t = map_option strip_topic (topic_conf conf q t)"
  by (simp add: topic_conf_def strip_def strip_queue_def map_of_map split: option.splits)

lemma topic_known:
  assumes "strip conf = strip conf'"
  shows "(topic_conf conf q t = None) = (topic_conf conf' q t = None)"
proof -
  have "map_option strip_topic (topic_conf conf q t) = map_option strip_topic (topic_conf conf' q t)"
    using assms by (simp add: topic_conf_strip [symmetric])
  then show ?thesis by (metis option.map_disc_iff)
qed

lemma strip_update: "map_of conf q = Some qc \<Longrightarrow> strip_queue qc' = strip_queue qc \<Longrightarrow> strip (AList.update q qc' conf) = strip conf"
  by (simp add: strip_def strip_update_same)

lemma strip_queue_enable:
  "strip_queue (qc\<lparr>qc_ConsumerEnable := b\<rparr>) = strip_queue qc"
  "map_of (qc_Topic qc) t = Some tc \<Longrightarrow>
   strip_queue (qc\<lparr>qc_Topic := AList.update t (tc\<lparr>tc_ConsumerEnable := b\<rparr>) (qc_Topic qc)\<rparr>) = strip_queue qc"
  by (simp_all add: strip_queue_def strip_topic_def strip_update_same)

lemma strip_topics: "strip (enable_topics ts q conf) = strip conf"
  by (induction ts arbitrary: conf) (simp_all add: strip_update strip_queue_enable split: option.split)

lemma strip_mapping: "strip (enable_mapping tm conf) = strip conf"
proof (induction tm arbitrary: conf rule: list.induct)
  case (Cons m tm)
  then show ?case
    by (cases m) (simp add: strip_topics strip_update strip_queue_enable split: option.split)
qed simp

lemma strip_tags: "strip (enable_tags tags tm conf) = strip conf"
  by (induction tags arbitrary: conf) (auto simp: strip_mapping split: option.splits)

lemma consumes_enable_topic:
  assumes "map_of conf q = Some qc" "map_of (qc_Topic qc) x = Some tc"
  shows "consumes (AList.update q (qc\<lparr>qc_Topic := AList.update x (tc\<lparr>tc_ConsumerEnable := True\<rparr>) (qc_Topic qc)\<rparr>) conf) q' t
    \<longleftrightarrow> consumes conf q' t \<or> (q' = q \<and> t = x)"
  using assms by (cases "q' = q"; cases "t = x") (simp_all add: consumes_def split: option.split)

lemma consumes_enable_queue:
  assumes "map_of conf q = Some qc"
  shows "consumes (AList.update q (qc\<lparr>qc_ConsumerEnable := True\<rparr>) conf) q' t
    \<longleftrightarrow> consumes conf q' t \<or> (q' = q \<and> topic_conf conf q t \<noteq> None)"
  using assms by (cases "q' = q") (simp_all add: consumes_def topic_conf_def split: option.split)

lemma consumes_topics:
  "consumes (enable_topics ts q conf) q' t \<longleftrightarrow>
     consumes conf q' t \<or> (q' = q \<and> t \<in> set ts \<and> topic_conf conf q t \<noteq> None)"
proof (induction ts arbitrary: conf)
  case (Cons x ts)
  show ?case
  proof (cases "topic_conf conf q x")
    case None
    then have same: "enable_topics (x # ts) q conf = enable_topics ts q conf"
      by (cases "map_of conf q") (simp_all add: topic_conf_def)
    show ?thesis unfolding same Cons using None by auto
  next
    case (Some tc)
    then obtain qc where qc: "map_of conf q = Some qc" "map_of (qc_Topic qc) x = Some tc"
      by (auto simp: topic_conf_def split: option.splits)
    let ?c = "AList.update q (qc\<lparr>qc_Topic := AList.update x (tc\<lparr>tc_ConsumerEnable := True\<rparr>) (qc_Topic qc)\<rparr>) conf"
    have "topic_conf ?c q t = None \<longleftrightarrow> topic_conf conf q t = None"
      by (rule topic_known) (simp add: strip_update strip_queue_enable qc)
    moreover have "enable_topics (x # ts) q conf = enable_topics ts q ?c" using qc by simp
    ultimately show ?thesis using Cons [of ?c] consumes_enable_topic [OF qc] Some
      by (metis list.set_intros(1) list.set_intros(2) option.distinct(1) set_ConsD)
  qed
qed simp

lemma consumes_mapping:
  "consumes (enable_mapping tm conf) q t \<longleftrightarrow>
     consumes conf q t \<or> (selects tm q t \<and> topic_conf conf q t \<noteq> None)"
proof (induction tm arbitrary: conf rule: list.induct)
  case (Cons m tm)
  obtain queue ts where m: "m = (queue, ts)" by (cases m)
  define c where "c = enable_mapping [m] conf"
  have step: "enable_mapping (m # tm) conf = enable_mapping tm c" by (simp add: c_def m)
  have "consumes c q t \<longleftrightarrow> consumes conf q t \<or> (q = queue \<and> (ts = [] \<or> t \<in> set ts) \<and> topic_conf conf q t \<noteq> None)"
  proof (cases "map_of conf queue")
    case None
    then show ?thesis by (auto simp: c_def m topic_conf_def)
  next
    case (Some qc)
    then show ?thesis by (cases "ts = []") (auto simp: c_def m consumes_topics consumes_enable_queue)
  qed
  moreover have "topic_conf c q t = None \<longleftrightarrow> topic_conf conf q t = None"
    by (rule topic_known) (simp only: c_def strip_mapping)
  ultimately show ?case using Cons [of c] step by (auto simp: selects_def m)
qed (simp add: selects_def)

lemma consumes_tags:
  "consumes (enable_tags tags tagsMapping conf) q t \<longleftrightarrow>
     consumes conf q t \<or>
     (topic_conf conf q t \<noteq> None \<and> (\<exists>tag \<in> set tags. \<exists>tm. map_of tagsMapping tag = Some tm \<and> selects tm q t))"
proof (induction tags arbitrary: conf)
  case (Cons tag tags)
  show ?case
  proof (cases "map_of tagsMapping tag")
    case None
    with Cons show ?thesis by auto
  next
    case (Some tm)
    have "topic_conf (enable_mapping tm conf) q t = None \<longleftrightarrow> topic_conf conf q t = None"
      by (rule topic_known) (rule strip_mapping)
    with Cons [of "enable_mapping tm conf"] Some show ?thesis by (auto simp: consumes_mapping)
  qed
qed simp

end
