(* ===== verification/Collections.thy ===== *)
theory Collections
  imports Config
begin

text \<open>
  The two diagnostic logs in Redis: failed deliveries per topic (\<open>error_collection.go\<close>) and submitted
  tasks per queue (\<open>task_debug.go\<close>). Each entry is a text whose fields are separated by \<open>,,,,\<close>.

  The clock (seconds, as a function of the world) and the host name are arguments. The lemmas show that an entry whose
  fields do not contain the separator is read back, newest first, and that the task log stays below
  a hundred entries.
\<close>

type_synonym collection = storage

definition NewErrorCollection :: "StorageConfig \<Rightarrow> collection go" where
  "NewErrorCollection c =
     (if sc_Type c = ''redis''
      then (let redisAddressWithAuth = sc_Address c @ '':'' @ sc_Auth c
            in if pool_panics redisAddressWithAuth (sc_MaxConnNum c) then Panic
               else Ret \<lparr>redisCli = True, address = redisAddressWithAuth\<rparr>)
      else Ret \<lparr>redisCli = False, address = []\<rparr>)"

definition NewTaskDebug :: "StorageConfig \<Rightarrow> collection go" where
  "NewTaskDebug c =
     (if sc_Type c = ''redis''
      then (let redisAddressWithAuth = sc_Address c @ '':'' @ sc_Auth c
            in if pool_panics redisAddressWithAuth (sc_MaxConnNum c) then Panic
               else Ret \<lparr>redisCli = True, address = redisAddressWithAuth\<rparr>)
      else Ret \<lparr>redisCli = False, address = []\<rparr>)"

definition ErrorCollectionKey :: "QueueName \<Rightarrow> TopicName \<Rightarrow> string" where
  "ErrorCollectionKey queue topic = ''EC:'' @ queue @ '':'' @ topic"

definition TaskDebugKey :: "QueueName \<Rightarrow> string" where
  "TaskDebugKey queue = ''TD:'' @ queue"

abbreviation SEP :: string where "SEP \<equiv> '',,,,''"

subsection \<open>Failed deliveries\<close>

definition error_info ::
  "int \<Rightarrow> string \<Rightarrow> Jobs \<Rightarrow> string \<Rightarrow> string \<Rightarrow> string \<Rightarrow> string option \<Rightarrow> string" where
  "error_info now hostname jobs respCode respErrorCode respBody errMsg =
     (let body = respBody @ '' ------ [Host] '' @ hostname;
          base = show_int now @ SEP @ Jobs_String jobs @ SEP @ respCode @ SEP @ respErrorCode @ SEP @ body
      in case errMsg of None \<Rightarrow> base | Some e \<Rightarrow> base @ SEP @ e)"

definition AddError ::
  "'w client \<Rightarrow> ('w \<Rightarrow> int) \<Rightarrow> string \<Rightarrow> data_Queue \<Rightarrow> collection \<Rightarrow> QueueName \<Rightarrow> TopicName \<Rightarrow> Jobs \<Rightarrow>
   string \<Rightarrow> string \<Rightarrow> string \<Rightarrow> string option \<Rightarrow> 'w \<Rightarrow> 'w go" where
  "AddError cl clock hostname net ec queue topic jobs respCode respErrorCode respBody errMsg w =
     (if \<not> ErrorCollectionEnable net then Ret w
      else go_bind (with_cli ec (LPUSH (cl (address ec)) (ErrorCollectionKey queue topic)
                     [error_info (clock w) hostname jobs respCode respErrorCode respBody errMsg] w))
             (\<lambda>(_, w'). Ret w'))"

record ErrorCollectionData =
  ec_Time :: string
  ec_Jobs :: string
  SysCode :: string
  SysError :: string
  UserCode :: string
  UserMsg :: string

definition error_data :: "reply \<Rightarrow> ErrorCollectionData list" where
  "error_data td =
     (case td of
        RBytes tb \<Rightarrow>
          (case strings_Split tb SEP of
             [a, b, c, d, e] \<Rightarrow>
               [\<lparr>ec_Time = a, ec_Jobs = b, SysCode = c, SysError = [], UserCode = d, UserMsg = e\<rparr>]
           | [a, b, c, d, e, f] \<Rightarrow>
               [\<lparr>ec_Time = a, ec_Jobs = b, SysCode = c, SysError = f, UserCode = d, UserMsg = e\<rparr>]
           | _ \<Rightarrow> [])
      | _ \<Rightarrow> [])"

definition GetError ::
  "'w client \<Rightarrow> data_Queue \<Rightarrow> collection \<Rightarrow> QueueName \<Rightarrow> TopicName \<Rightarrow> int \<Rightarrow> 'w \<Rightarrow>
   (ErrorCollectionData list \<times> 'w) go" where
  "GetError cl net ec queue topic len w =
     (if \<not> ErrorCollectionEnable net then Ret ([], w)
      else
        (let n = (if len \<le> 0 then 10 else len) in
         go_bind (with_cli ec (LRANGE (cl (address ec)) (ErrorCollectionKey queue topic) 0 (n - 1) w))
           (\<lambda>((tmp, err), w').
              case tmp of
                Some vs \<Rightarrow> if err \<noteq> None then Ret ([], w') else Ret (concat (map error_data vs), w')
              | None \<Rightarrow> Ret ([], w'))))"

subsection \<open>Submitted tasks\<close>

definition task_info :: "int \<Rightarrow> string \<Rightarrow> string" where
  "task_info now task = show_int now @ SEP @ task"

definition AddTask ::
  "'w client \<Rightarrow> ('w \<Rightarrow> int) \<Rightarrow> data_Queue \<Rightarrow> collection \<Rightarrow> QueueName \<Rightarrow> string \<Rightarrow> 'w \<Rightarrow> 'w go" where
  "AddTask cl clock net td queue task w =
     (if \<not> TaskDebugEnable net then Ret w
      else
        (let key = TaskDebugKey queue in
         go_bind (with_cli td (LPUSH (cl (address td)) key [task_info (clock w) task] w))
           (\<lambda>(_, w1).
              let ((count, _), w2) = LLEN (cl (address td)) key w1
              in if 100 \<le> count then Ret (snd (LTRIM (cl (address td)) key 0 50 w2)) else Ret w2)))"

record TaskDebugData =
  td_Time :: string
  td_Jobs :: string

definition task_data :: "reply \<Rightarrow> TaskDebugData list" where
  "task_data td =
     (case td of
        RBytes tb \<Rightarrow>
          (case strings_Split tb SEP of [a, b] \<Rightarrow> [\<lparr>td_Time = a, td_Jobs = b\<rparr>] | _ \<Rightarrow> [])
      | _ \<Rightarrow> [])"

definition GetTask ::
  "'w client \<Rightarrow> data_Queue \<Rightarrow> collection \<Rightarrow> QueueName \<Rightarrow> int \<Rightarrow> 'w \<Rightarrow> (TaskDebugData list \<times> 'w) go" where
  "GetTask cl net td queue len w =
     (if \<not> TaskDebugEnable net then Ret ([], w)
      else
        (let n = (if len \<le> 0 then 10 else len) in
         go_bind (with_cli td (LRANGE (cl (address td)) (TaskDebugKey queue) 0 (n - 1) w))
           (\<lambda>((tmp, err), w').
              case tmp of
                Some vs \<Rightarrow> if err \<noteq> None then Ret ([], w') else Ret (concat (map task_data vs), w')
              | None \<Rightarrow> Ret ([], w'))))"

text \<open>\<open>WriteTaskDebug\<close> of \<open>gateway.go\<close>.\<close>

fun WriteTaskDebug ::
  "'w client \<Rightarrow> ('w \<Rightarrow> int) \<Rightarrow> data_Queue \<Rightarrow> collection \<Rightarrow> QueueName \<Rightarrow> Job list \<Rightarrow> 'w \<Rightarrow> 'w go" where
  "WriteTaskDebug cl clock net td q [] w = Ret w"
| "WriteTaskDebug cl clock net td q (job # js) w =
     go_bind (AddTask cl clock net td q (Content job) w) (WriteTaskDebug cl clock net td q js)"

subsection \<open>Entries\<close>

text \<open>Texts in which the separator cannot begin: no comma.\<close>

definition plain_field :: "string \<Rightarrow> bool" where
  "plain_field s \<longleftrightarrow> CHR '','' \<notin> set s"

lemma split_acc_plain: "plain_field s \<Longrightarrow> split_acc SEP acc s = [rev acc @ s]"
  by (induction s arbitrary: acc) (auto simp: plain_field_def has_prefix_iff)

lemma split_acc_plain_sep:
  "plain_field s \<Longrightarrow> split_acc SEP acc (s @ SEP @ t) = (rev acc @ s) # split_acc SEP [] t"
  by (induction s arbitrary: acc) (auto simp: plain_field_def has_prefix_def)

lemma Split_plain: "plain_field s \<Longrightarrow> strings_Split s SEP = [s]"
  by (simp add: strings_Split_def split_acc_plain)

lemma Split_plain_sep: "plain_field s \<Longrightarrow> strings_Split (s @ SEP @ t) SEP = s # strings_Split t SEP"
  using split_acc_plain_sep [of s "[]" t] by (simp add: strings_Split_def)

lemma plain_show_int [simp]: "plain_field (show_int n)"
  by (auto simp: plain_field_def show_int_def no_digit_in_show_nat digit_val_def)

lemma task_data_info: "plain_field task \<Longrightarrow> task_data (RBytes (task_info now task)) = [\<lparr>td_Time = show_int now, td_Jobs = task\<rparr>]"
  using Split_plain_sep [OF plain_show_int, of now task]
  by (simp add: task_data_def task_info_def Split_plain)

context redis_lists
begin

text \<open>The task log of a queue.\<close>

lemma AddTask_log:
  assumes "up w" "redisCli td" "TaskDebugEnable net"
    and "log = lst w (address td) (TaskDebugKey q)"
    and "new = task_info (clock w) task # log"
  shows "\<exists>w'. AddTask cl clock net td q task w = Ret w' \<and> up w'
     \<and> lst w' = put (lst w) (address td) (TaskDebugKey q) (if 100 \<le> length new then take 51 new else new)"
proof -
  let ?a = "address td" and ?k = "TaskDebugKey q"
  obtain n w1 where w1: "cl ?a ''LPUSH'' [AStr ?k, AStr (task_info (clock w) task)] w = (Inr (RInt n), w1)" "up w1"
    "lst w1 = put (lst w) ?a ?k new"
    using lpush [OF assms(1), of "[task_info (clock w) task]" ?a ?k] assms(4,5) by auto
  obtain w2 where w2: "cl ?a ''LLEN'' [AStr ?k] w1 = (Inr (RInt (int (length new))), w2)" "up w2" "lst w2 = lst w1"
    using llen [OF w1(2), of ?a ?k] w1(3) by auto
  obtain w3 where w3: "cl ?a ''LTRIM'' [AStr ?k, AInt 0, AInt 50] w2 = (Inr (RBytes ''OK''), w3)" "up w3"
    "lst w3 = put (lst w2) ?a ?k (take 51 new)"
    using ltrim [OF w2(2), of 50 ?a ?k] w1(3) w2(3) by auto
  show ?thesis using assms(2,3) w1 w2 w3
    by (auto simp: AddTask_def with_cli_def LPUSH_def LLEN_def LTRIM_def reply_defs)
qed

lemma AddTask_short:
  assumes "up w" "redisCli td" "TaskDebugEnable net" "length (lst w (address td) (TaskDebugKey q)) < 100"
  shows "\<exists>w'. AddTask cl clock net td q task w = Ret w' \<and> up w'
     \<and> length (lst w' (address td) (TaskDebugKey q)) < 100"
  using AddTask_log [OF assms(1-3) refl refl, of clock q task] assms(4) by fastforce

lemma GetTask_entries:
  assumes "up w" "redisCli td" "TaskDebugEnable net"
  shows "\<exists>w'. GetTask cl net td q len w =
      Ret (concat (map (\<lambda>v. task_data (RBytes v))
            (take (if len \<le> 0 then 10 else nat len) (lst w (address td) (TaskDebugKey q)))), w')
      \<and> up w' \<and> lst w' = lst w"
proof -
  define n where "n = (if len \<le> 0 then 10 else len)"
  have n: "0 \<le> n - 1" "nat (n - 1) + 1 = (if len \<le> 0 then 10 else nat len)" by (auto simp: n_def)
  obtain w' where "cl (address td) ''LRANGE'' [AStr (TaskDebugKey q), AInt 0, AInt (n - 1)] w
      = (Inr (RArr (map RBytes (take (if len \<le> 0 then 10 else nat len) (lst w (address td) (TaskDebugKey q))))), w')"
    "up w'" "lst w' = lst w"
    using lrange [OF assms(1) n(1), of "address td" "TaskDebugKey q"] unfolding n(2) by blast
  then have "LRANGE (cl (address td)) (TaskDebugKey q) 0 (n - 1) w
      = ((Some (map RBytes (take (if len \<le> 0 then 10 else nat len) (lst w (address td) (TaskDebugKey q)))), None), w')"
    by (simp add: LRANGE_def reply_defs)
  then show ?thesis using assms(2,3) \<open>up w'\<close> \<open>lst w' = lst w\<close>
    unfolding GetTask_def n_def [symmetric] Let_def with_cli_def by (simp add: comp_def)
qed

end

subsection \<open>The logs and the job lists do not overlap\<close>

lemma ErrorCollectionKey_not_job:
  assumes "plain_name queue" "plain_name topic" "plain_name q"
  shows "GetKey q t qt \<noteq> ErrorCollectionKey queue topic"
proof
  assume "GetKey q t qt = ErrorCollectionKey queue topic"
  then have e: "q @ CHR '':'' # (CHR '':'' # t @ ''::'' @ list_suffix qt) = ''EC'' @ CHR '':'' # (queue @ '':'' @ topic)"
    by (simp add: GetKey_eq ErrorCollectionKey_def)
  have "CHR '':'' # t @ ''::'' @ list_suffix qt = queue @ CHR '':'' # topic"
    using colon_split_unique [OF _ _ e] assms(3) by (auto simp: plain_name_def)
  then have "queue = []" and "t @ ''::'' @ list_suffix qt = topic"
    using assms(1) by (cases queue; auto simp: plain_name_def)+
  then show False using assms(2) by (auto simp: plain_name_def)
qed

lemma TaskDebugKey_not_job:
  assumes "plain_name queue" "plain_name q"
  shows "GetKey q t qt \<noteq> TaskDebugKey queue"
proof
  assume "GetKey q t qt = TaskDebugKey queue"
  then have e: "q @ CHR '':'' # (CHR '':'' # t @ ''::'' @ list_suffix qt) = ''TD'' @ CHR '':'' # queue"
    by (simp add: GetKey_eq TaskDebugKey_def)
  have "CHR '':'' # t @ ''::'' @ list_suffix qt = queue"
    using colon_split_unique [OF _ _ e] assms(2) by (auto simp: plain_name_def)
  then show False using assms(1) by (auto simp: plain_name_def)
qed

text \<open>A collection is usable when it is switched off or has a client.\<close>

definition collection_ok :: "bool \<Rightarrow> collection \<Rightarrow> bool" where
  "collection_ok enabled c \<longleftrightarrow> (enabled \<longrightarrow> redisCli c)"

context redis_lists
begin

lemma AddError_keeps_jobs:
  assumes "up w" "collection_ok (ErrorCollectionEnable net) ec" "plain_name queue" "plain_name topic"
  shows "\<exists>w'. AddError cl clock host net ec queue topic jobs c e m err w = Ret w' \<and> up w'
     \<and> (\<forall>s q t qt. plain_name q \<longrightarrow> queued (lst w') s q t qt = queued (lst w) s q t qt)"
proof (cases "ErrorCollectionEnable net")
  case False
  then show ?thesis using assms(1) by (simp add: AddError_def)
next
  case True
  let ?v = "error_info (clock w) host jobs c e m err"
  obtain n w' where w': "cl (address ec) ''LPUSH'' [AStr (ErrorCollectionKey queue topic), AStr ?v] w = (Inr (RInt n), w')"
    "up w'" "lst w' = put (lst w) (address ec) (ErrorCollectionKey queue topic)
        (?v # lst w (address ec) (ErrorCollectionKey queue topic))"
    using lpush [OF assms(1), of "[?v]" "address ec" "ErrorCollectionKey queue topic"] by auto
  then show ?thesis using True assms(2-4)
    by (auto simp: AddError_def with_cli_def LPUSH_def collection_ok_def queued_put_other
        ErrorCollectionKey_not_job)
qed

lemma AddTask_keeps_jobs:
  assumes "up w" "collection_ok (TaskDebugEnable net) td" "plain_name queue"
  shows "\<exists>w'. AddTask cl clock net td queue task w = Ret w' \<and> up w'
     \<and> (\<forall>s q t qt. plain_name q \<longrightarrow> queued (lst w') s q t qt = queued (lst w) s q t qt)"
proof (cases "TaskDebugEnable net")
  case False
  then show ?thesis using assms(1) by (simp add: AddTask_def)
next
  case True
  then have "redisCli td" using assms(2) by (simp add: collection_ok_def)
  from AddTask_log [OF assms(1) this True refl refl, of clock queue task] show ?thesis
    using TaskDebugKey_not_job [OF assms(3)] by (auto simp: queued_put_other)
qed

lemma WriteTaskDebug_keeps_jobs:
  assumes "up w" "collection_ok (TaskDebugEnable net) td" "plain_name queue"
  shows "\<exists>w'. WriteTaskDebug cl clock net td queue js w = Ret w' \<and> up w'
     \<and> (\<forall>s q t qt. plain_name q \<longrightarrow> queued (lst w') s q t qt = queued (lst w) s q t qt)"
  using assms(1)
proof (induction js arbitrary: w)
  case (Cons j js)
  obtain w1 where w1: "AddTask cl clock net td queue (Content j) w = Ret w1" "up w1"
    "\<forall>s q t qt. plain_name q \<longrightarrow> queued (lst w1) s q t qt = queued (lst w) s q t qt"
    using AddTask_keeps_jobs [OF Cons.prems assms(2,3)] by blast
  from Cons.IH [OF w1(2)] show ?case using w1(1,3) by auto
qed simp

end

end
