(* ===== verification/Stats.thy ===== *)
theory Stats
  imports Job
begin

text \<open>
  The counters of the bus: consumption per topic (\<open>mux_stats.go\<close>) and submissions per queue
  (\<open>gateway_stats.go\<close>). A collector is a bounded channel of items and two maps: \<open>cur\<close> accumulates,
  the ticker moves it to \<open>data\<close> once a minute.

  The goroutine \<open>Run\<close> is split into its two events, the arrival of an item (\<open>Run_item\<close>) and the tick
  (\<open>Run_tick\<close>). The lemmas relate the accumulated counters to the list of items processed since the
  last tick. Durations are nanoseconds in 64 bits.
\<close>

subsection \<open>Consumption\<close>

definition MuxStatsChannelBuff :: nat where "MuxStatsChannelBuff = 10000"

record muxStatItem =
  msi_queue :: QueueName
  msi_topic :: TopicName
  consumerIsSuccess :: bool
  consumerTC :: int

record MuxStatsData =
  ms_TimePeriod :: int
  ms_SuccessCount :: int
  ms_FailCount :: int
  MaxTime :: int
  MinTime :: int
  TotalTime :: int

definition new_MuxStatsData :: MuxStatsData where
  "new_MuxStatsData = \<lparr>ms_TimePeriod = 0, ms_SuccessCount = 0, ms_FailCount = 0, MaxTime = 0, MinTime = 0, TotalTime = 0\<rparr>"

type_synonym mux_stat_map = "(QueueName, (TopicName, MuxStatsData) gomap) gomap"

record MuxStats =
  ms_data :: mux_stat_map
  ms_cur :: mux_stat_map
  ms_itemChan :: "muxStatItem list"

definition NewMuxStats :: MuxStats where
  "NewMuxStats = \<lparr>ms_data = [], ms_cur = [], ms_itemChan = []\<rparr>"

text \<open>The send on the channel does not block: an item that finds it full is dropped.\<close>

definition MuxStats_Add :: "MuxStats \<Rightarrow> QueueName \<Rightarrow> TopicName \<Rightarrow> bool \<Rightarrow> int \<Rightarrow> MuxStats" where
  "MuxStats_Add s queue topic isSuccess tc =
     (if queue = [] \<or> topic = [] then s
      else if length (ms_itemChan s) < MuxStatsChannelBuff
      then s\<lparr>ms_itemChan := ms_itemChan s @
               [\<lparr>msi_queue = queue, msi_topic = topic, consumerIsSuccess = isSuccess, consumerTC = tc\<rparr>]\<rparr>
      else s)"

definition mux_stat_count :: "muxStatItem \<Rightarrow> MuxStatsData \<Rightarrow> MuxStatsData" where
  "mux_stat_count item d =
     (let d1 = (if consumerIsSuccess item then d\<lparr>ms_SuccessCount := i64 (ms_SuccessCount d + 1)\<rparr>
                else d\<lparr>ms_FailCount := i64 (ms_FailCount d + 1)\<rparr>);
          d2 = d1\<lparr>TotalTime := i64 (TotalTime d1 + consumerTC item)\<rparr>
      in if MaxTime d2 < consumerTC item then d2\<lparr>MaxTime := consumerTC item\<rparr>
         else if MinTime d2 = 0 \<or> consumerTC item < MinTime d2 then d2\<lparr>MinTime := consumerTC item\<rparr>
         else d2)"

definition MuxStats_item :: "muxStatItem \<Rightarrow> mux_stat_map \<Rightarrow> mux_stat_map" where
  "MuxStats_item item cur =
     (let ts = (case map_of cur (msi_queue item) of None \<Rightarrow> [] | Some ts \<Rightarrow> ts);
          d = (case map_of ts (msi_topic item) of None \<Rightarrow> new_MuxStatsData | Some d \<Rightarrow> d)
      in AList.update (msi_queue item) (AList.update (msi_topic item) (mux_stat_count item d) ts) cur)"

definition MuxStats_Run_item :: "MuxStats \<Rightarrow> MuxStats" where
  "MuxStats_Run_item s =
     (case ms_itemChan s of
        [] \<Rightarrow> s
      | item # r \<Rightarrow> s\<lparr>ms_itemChan := r, ms_cur := MuxStats_item item (ms_cur s)\<rparr>)"

definition MuxStats_Run_tick :: "MuxStats \<Rightarrow> MuxStats" where
  "MuxStats_Run_tick s = s\<lparr>ms_data := ms_cur s, ms_cur := []\<rparr>"

definition MuxStats_Output :: "MuxStats \<Rightarrow> mux_stat_map" where
  "MuxStats_Output s = ms_data s"

definition mux_stat :: "mux_stat_map \<Rightarrow> QueueName \<Rightarrow> TopicName \<Rightarrow> MuxStatsData" where
  "mux_stat m q t =
     (case map_of m q of
        None \<Rightarrow> new_MuxStatsData
      | Some ts \<Rightarrow> (case map_of ts t of None \<Rightarrow> new_MuxStatsData | Some d \<Rightarrow> d))"

lemma mux_stat_item:
  "mux_stat (MuxStats_item item m) q t =
     (if msi_queue item = q \<and> msi_topic item = t then mux_stat_count item (mux_stat m q t) else mux_stat m q t)"
  by (auto simp: mux_stat_def MuxStats_item_def Let_def split: option.splits)

definition items_of :: "QueueName \<Rightarrow> TopicName \<Rightarrow> muxStatItem list \<Rightarrow> muxStatItem list" where
  "items_of q t = filter (\<lambda>i. msi_queue i = q \<and> msi_topic i = t)"

lemma mux_stat_fold: "mux_stat (fold MuxStats_item items m) q t = fold mux_stat_count (items_of q t items) (mux_stat m q t)"
  by (induction items arbitrary: m) (auto simp: items_of_def mux_stat_item)

lemma mux_stat_count_fields:
  "ms_SuccessCount (mux_stat_count i d) = (if consumerIsSuccess i then i64 (ms_SuccessCount d + 1) else ms_SuccessCount d)"
  "ms_FailCount (mux_stat_count i d) = (if consumerIsSuccess i then ms_FailCount d else i64 (ms_FailCount d + 1))"
  "TotalTime (mux_stat_count i d) = i64 (TotalTime d + consumerTC i)"
  "MaxTime (mux_stat_count i d) = max (MaxTime d) (consumerTC i)"
  by (auto simp: mux_stat_count_def Let_def)

definition successes :: "muxStatItem list \<Rightarrow> nat" where
  "successes is = length (filter consumerIsSuccess is)"

definition failures :: "muxStatItem list \<Rightarrow> nat" where
  "failures is = length (filter (\<lambda>i. \<not> consumerIsSuccess i) is)"

lemma mux_stat_counters:
  assumes "in_i64 (ms_SuccessCount d)" "in_i64 (ms_FailCount d)" "in_i64 (TotalTime d)"
  shows "ms_SuccessCount (fold mux_stat_count is d) = i64 (ms_SuccessCount d + int (successes is))"
    and "ms_FailCount (fold mux_stat_count is d) = i64 (ms_FailCount d + int (failures is))"
    and "TotalTime (fold mux_stat_count is d) = i64 (TotalTime d + sum_list (map consumerTC is))"
    and "MaxTime (fold mux_stat_count is d) = fold max (map consumerTC is) (MaxTime d)"
  using assms
proof (induction "is" arbitrary: d)
  case (Cons i "is")
  { case 1 with Cons show ?case by (simp add: mux_stat_count_fields successes_def algebra_simps) }
  { case 2 with Cons show ?case by (simp add: mux_stat_count_fields failures_def algebra_simps) }
  { case 3 with Cons show ?case by (simp add: mux_stat_count_fields algebra_simps) }
  { case 4 with Cons show ?case by (simp add: mux_stat_count_fields max.commute) }
qed (simp_all add: successes_def failures_def)

text \<open>Processing the channel to its end, and reading the counters of a topic.\<close>

lemma MuxStats_Run_items:
  "(MuxStats_Run_item ^^ length (ms_itemChan s)) s
   = s\<lparr>ms_itemChan := [], ms_cur := fold MuxStats_item (ms_itemChan s) (ms_cur s)\<rparr>"
proof (induction "ms_itemChan s" arbitrary: s)
  case (Cons i r)
  have "MuxStats_Run_item s = s\<lparr>ms_itemChan := r, ms_cur := MuxStats_item i (ms_cur s)\<rparr>"
    using Cons.hyps(2) [symmetric] by (simp add: MuxStats_Run_item_def)
  then show ?case using Cons.hyps(1) [of "MuxStats_Run_item s"] Cons.hyps(2) [symmetric]
    by (simp add: funpow_swap1)
qed simp

lemma mux_stat_empty [simp]: "mux_stat [] q t = new_MuxStatsData"
  by (simp add: mux_stat_def)

lemma new_MuxStatsData_zero [simp]:
  "ms_SuccessCount new_MuxStatsData = 0" "ms_FailCount new_MuxStatsData = 0" "TotalTime new_MuxStatsData = 0"
  "MaxTime new_MuxStatsData = 0" "MinTime new_MuxStatsData = 0"
  by (simp_all add: new_MuxStatsData_def)

subsection \<open>Submissions\<close>

definition GatewayStatsChannelBuff :: nat where "GatewayStatsChannelBuff = 10000"

definition GatewayStatsCalInterval :: int where "GatewayStatsCalInterval = 60000000000"

record gatewayStatItem =
  gsi_queue :: QueueName
  success :: bool

record GatewayStatsData =
  gs_TimePeriod :: int
  gs_SuccessCount :: int
  gs_FailCount :: int

type_synonym gateway_stat_map = "(QueueName, GatewayStatsData) gomap"

record GatewayStats =
  gs_data :: gateway_stat_map
  gs_cur :: gateway_stat_map
  gs_itemChan :: "gatewayStatItem list"

definition NewGatewayStats :: GatewayStats where
  "NewGatewayStats = \<lparr>gs_data = [], gs_cur = [], gs_itemChan = []\<rparr>"

definition GatewayStats_Add :: "GatewayStats \<Rightarrow> QueueName \<Rightarrow> bool \<Rightarrow> GatewayStats" where
  "GatewayStats_Add s queue isSuccess =
     (if queue = [] then s
      else if length (gs_itemChan s) < GatewayStatsChannelBuff
      then s\<lparr>gs_itemChan := gs_itemChan s @ [\<lparr>gsi_queue = queue, success = isSuccess\<rparr>]\<rparr>
      else s)"

definition GatewayStats_item :: "gatewayStatItem \<Rightarrow> gateway_stat_map \<Rightarrow> gateway_stat_map" where
  "GatewayStats_item item cur =
     (let d = (case map_of cur (gsi_queue item) of
                 None \<Rightarrow> \<lparr>gs_TimePeriod = GatewayStatsCalInterval, gs_SuccessCount = 0, gs_FailCount = 0\<rparr>
               | Some d \<Rightarrow> d)
      in AList.update (gsi_queue item)
           (if success item then d\<lparr>gs_SuccessCount := i64 (gs_SuccessCount d + 1)\<rparr>
            else d\<lparr>gs_FailCount := i64 (gs_FailCount d + 1)\<rparr>) cur)"

definition GatewayStats_Run_item :: "GatewayStats \<Rightarrow> GatewayStats" where
  "GatewayStats_Run_item s =
     (case gs_itemChan s of
        [] \<Rightarrow> s
      | item # r \<Rightarrow> s\<lparr>gs_itemChan := r, gs_cur := GatewayStats_item item (gs_cur s)\<rparr>)"

definition GatewayStats_Run_tick :: "GatewayStats \<Rightarrow> GatewayStats" where
  "GatewayStats_Run_tick s = s\<lparr>gs_data := gs_cur s, gs_cur := []\<rparr>"

definition GatewayStats_Output :: "GatewayStats \<Rightarrow> gateway_stat_map" where
  "GatewayStats_Output s = gs_data s"

definition gw_counts :: "gateway_stat_map \<Rightarrow> QueueName \<Rightarrow> int \<times> int" where
  "gw_counts m q = (case map_of m q of None \<Rightarrow> (0, 0) | Some d \<Rightarrow> (gs_SuccessCount d, gs_FailCount d))"

lemma gw_counts_fold:
  assumes "in_i64 (fst (gw_counts m q))" "in_i64 (snd (gw_counts m q))"
  shows "gw_counts (fold GatewayStats_item items m) q =
     (i64 (fst (gw_counts m q) + int (length (filter (\<lambda>i. gsi_queue i = q \<and> success i) items))),
      i64 (snd (gw_counts m q) + int (length (filter (\<lambda>i. gsi_queue i = q \<and> \<not> success i) items))))"
  using assms
proof (induction items arbitrary: m)
  case (Cons i items)
  have "gw_counts (GatewayStats_item i m) q =
      (if gsi_queue i = q
       then (if success i then (i64 (fst (gw_counts m q) + 1), snd (gw_counts m q))
             else (fst (gw_counts m q), i64 (snd (gw_counts m q) + 1)))
       else gw_counts m q)"
    by (auto simp: gw_counts_def GatewayStats_item_def Let_def split: option.splits)
  with Cons show ?case by (auto simp: algebra_simps)
qed (simp add: prod_eq_iff)

text \<open>
  \<open>MinTime\<close> does not hold the shortest duration: an item that is a new maximum does not update the
  minimum, so for two deliveries of 5 and 9 it is 0.
\<close>

lemma mux_stats_min_missed:
  "MinTime (mux_stat (fold MuxStats_item
     [\<lparr>msi_queue = q, msi_topic = t, consumerIsSuccess = True, consumerTC = 5\<rparr>,
      \<lparr>msi_queue = q, msi_topic = t, consumerIsSuccess = True, consumerTC = 9\<rparr>] []) q t) = 0"
  by (simp add: mux_stat_item) (simp add: mux_stat_count_def new_MuxStatsData_def)

end
