(* ===== verification/Mux.thy ===== *)
theory Mux
  imports Collections Stats
begin

text \<open>
  The worker of a topic served over CGI (\<open>mux.go\<close>). A \<open>Mux\<close> takes a job from the topic's list, sends
  it to the remote side and, when the delivery fails, puts it into the retry list; a second loop
  moves jobs from the retry list back, or into the timeout list when their retry time is used up.

  The goroutines of \<open>Serve\<close> are modelled by one turn of their loops (\<open>Mux_worker_turn\<close>,
  \<open>Mux_retry_turn\<close>); \<open>isDone\<close> is what the \<open>select\<close> on the context observes. The sleeping between turns
  is left out. The state of a turn is the state \<open>wld\<close> of the outside world, the state \<open>ids\<close> of the id
  generator and the statistics; \<open>env\<close> holds the services the code reaches through globals.

  The lemmas show that a turn moves the job it took to exactly one place, that the number of stored
  jobs only changes by successful deliveries, and that a failing job leaves the retry cycle.
\<close>

record ('w, 'g) env =
  e_redis :: "'w client"
  e_gen :: "'g idgen"
  e_ServiceId :: string
  e_nanos :: "'w \<Rightarrow> int" \<comment> \<open>the clock, in nanoseconds\<close>
  e_hostname :: string
  e_net :: data_Queue \<comment> \<open>\<open>netQueueConf()\<close>\<close>
  e_ec :: collection \<comment> \<open>\<open>CGIErrorCollection\<close>\<close>
  e_td :: collection \<comment> \<open>\<open>CGITaskDebug\<close>\<close>

record ('w, 'g) bus =
  wld :: 'w
  ids :: 'g
  MuxStat :: MuxStats
  GatewayStat :: GatewayStats

definition unix :: "('w, 'g) env \<Rightarrow> 'w \<Rightarrow> int" where
  "unix env w = e_nanos env w div 1000000000"

record WorkerResponse =
  Code :: string
  ErrorCode :: string
  ConsumeTopics :: string
  Msg :: string

definition ResponseSuccess :: string where "ResponseSuccess = ''200''"
definition RemoteResponseFail :: string where "RemoteResponseFail = ''400''"
definition ResponseNotFound :: string where "ResponseNotFound = ''404''"
definition InnerError :: string where "InnerError = ''500''"
definition BadGateway :: string where "BadGateway = ''502''"

definition IsSuccess :: "WorkerResponse \<Rightarrow> bool" where
  "IsSuccess cr \<longleftrightarrow> Code cr = ResponseSuccess"

definition WorkerResponse_String :: "WorkerResponse \<Rightarrow> string" where
  "WorkerResponse_String cr =
     ''worker execute Code: '' @ Code cr @ '', ErrorCode: '' @ ErrorCode cr @ '', Msg: '' @ Msg cr"

text \<open>The interface \<open>RemoteSender\<close>; an error is its text.\<close>

record 'w RemoteSender =
  rs_SendPing :: "'w \<Rightarrow> (string + WorkerResponse) \<times> 'w"
  rs_SendJobs :: "Jobs \<Rightarrow> 'w \<Rightarrow> (string + WorkerResponse) \<times> 'w"

record 'w Mux =
  mux_queue :: QueueName
  mux_topic :: TopicName
  mux_storager :: storage
  mux_sender :: "'w RemoteSender"
  numOfWorkers :: nat

definition NewMux :: "QueueName \<Rightarrow> TopicName \<Rightarrow> 'w RemoteSender \<Rightarrow> storage \<Rightarrow> nat \<Rightarrow> 'w Mux" where
  "NewMux qn cn cgi s n =
     \<lparr>mux_queue = qn, mux_topic = cn, mux_storager = s, mux_sender = cgi, numOfWorkers = n\<rparr>"

definition PingSleepDuration :: int where "PingSleepDuration = 3"
definition PingSleepDurationMax :: int where "PingSleepDurationMax = 60"
definition RetryDur :: int where "RetryDur = 30"

subsection \<open>Operations on the storage\<close>

definition bus_AddQueue ::
  "('w, 'g) env \<Rightarrow> storage \<Rightarrow> Jobs \<Rightarrow> QueueTyp \<Rightarrow> ('w, 'g) bus \<Rightarrow> (string option \<times> Jobs \<times> ('w, 'g) bus) go" where
  "bus_AddQueue env s jobs typ b =
     go_bind (AddQueue (e_redis env) s jobs typ (wld b)) (\<lambda>(e, jobs', w). Ret (e, jobs', b\<lparr>wld := w\<rparr>))"

definition Mux_AddJobs ::
  "('w, 'g) env \<Rightarrow> 'w Mux \<Rightarrow> Jobs \<Rightarrow> QueueTyp \<Rightarrow> ('w, 'g) bus \<Rightarrow> (string option \<times> Jobs \<times> ('w, 'g) bus) go" where
  "Mux_AddJobs env m jobs typ b = bus_AddQueue env (mux_storager m) jobs typ b"

definition Mux_GetJobsFromQueue ::
  "('w, 'g) env \<Rightarrow> 'w Mux \<Rightarrow> QueueName \<Rightarrow> TopicName \<Rightarrow> QueueTyp \<Rightarrow> ('w, 'g) bus \<Rightarrow>
   (Jobs option res \<times> ('w, 'g) bus) go" where
  "Mux_GetJobsFromQueue env m q t typ b =
     go_bind (GetJobsFromQueue (e_redis env) (e_gen env) (e_ServiceId env) (mux_storager m) q t typ (ids b) (wld b))
       (\<lambda>(r, g, w). Ret (r, b\<lparr>wld := w, ids := g\<rparr>))"

definition sendToRetryQueue ::
  "('w, 'g) env \<Rightarrow> storage \<Rightarrow> Jobs \<Rightarrow> ('w, 'g) bus \<Rightarrow> (string option \<times> Jobs \<times> ('w, 'g) bus) go" where
  "sendToRetryQueue env s jobs b = bus_AddQueue env s jobs RetryQueue b"

definition sendToTimeoutQueue ::
  "('w, 'g) env \<Rightarrow> storage \<Rightarrow> Jobs \<Rightarrow> ('w, 'g) bus \<Rightarrow> (string option \<times> Jobs \<times> ('w, 'g) bus) go" where
  "sendToTimeoutQueue env s jobs b = bus_AddQueue env s jobs TimeoutQueue b"

subsection \<open>The remote side\<close>

fun InArray :: "string \<Rightarrow> string list \<Rightarrow> bool" where
  "InArray v [] = False"
| "InArray v (i # s) = (if v = i then True else InArray v s)"

text \<open>\<open>None\<close> for a nil error.\<close>

definition Mux_SendPing :: "'w Mux \<Rightarrow> 'w \<Rightarrow> string option \<times> 'w" where
  "Mux_SendPing m w =
     (case rs_SendPing (mux_sender m) w of
        (Inl err, w') \<Rightarrow> (Some err, w')
      | (Inr resp, w') \<Rightarrow>
          if \<not> IsSuccess resp then (Some (WorkerResponse_String resp), w')
          else
            (let queueTopic = strings_Split (ConsumeTopics resp) '','' @ strings_Split (Msg resp) '',''
             in if InArray (mux_queue m @ ''/'' @ mux_topic m) queueTopic then (None, w')
                else (Some (''topic no register: '' @ mux_queue m @ ''/'' @ mux_topic m), w')))"

definition sent :: "string + WorkerResponse \<Rightarrow> WorkerResponse" where
  "sent r =
     (case r of
        Inl err \<Rightarrow> \<lparr>Code = BadGateway, ErrorCode = [], ConsumeTopics = [], Msg = err\<rparr>
      | Inr resp \<Rightarrow> resp)"

definition Mux_SendJobs :: "'w Mux \<Rightarrow> Jobs \<Rightarrow> 'w \<Rightarrow> WorkerResponse \<times> 'w" where
  "Mux_SendJobs m jobs w = (case rs_SendJobs (mux_sender m) jobs w of (r, w') \<Rightarrow> (sent r, w'))"

text \<open>
  \<open>loopPingCGI\<close>: the sleeps so far, in reverse, are an extra result. The loop ends with a successful
  ping or when the context is done, so it may run for ever.
\<close>

definition ping_backoff :: "int \<Rightarrow> int" where
  "ping_backoff d = (if PingSleepDurationMax \<le> d + d then PingSleepDurationMax else d + d)"

partial_function (option) loopPing ::
  "('w \<Rightarrow> string option \<times> 'w) \<Rightarrow> ('w \<Rightarrow> bool) \<Rightarrow> int \<Rightarrow> int list \<Rightarrow> 'w \<Rightarrow> (int list \<times> 'w) option" where
  "loopPing ping isDone d sleeps w =
     (if isDone w then Some (sleeps, w)
      else (case ping w of
              (None, w') \<Rightarrow> Some (sleeps, w')
            | (Some e, w') \<Rightarrow> loopPing ping isDone (ping_backoff d) (d # sleeps) w'))"

definition loopPingCGI :: "'w Mux \<Rightarrow> ('w \<Rightarrow> bool) \<Rightarrow> 'w \<Rightarrow> (int list \<times> 'w) option" where
  "loopPingCGI m isDone w = loopPing (Mux_SendPing m) isDone PingSleepDuration [] w"

subsection \<open>A turn of a worker\<close>

datatype turn =
    Return \<comment> \<open>the context is done\<close>
  | Again \<comment> \<open>the next round of the loop\<close>
  | Begin \<comment> \<open>back to the ping\<close>

definition prepare_job :: "TopicConfig \<Rightarrow> int \<Rightarrow> Job \<Rightarrow> Job" where
  "prepare_job tc now val =
     (let val1 = val\<lparr>RetryTime := now, RetryTimes := i64 (RetryTimes val + 1), IsRetry := tc_IsRetry tc\<rparr>
      in if \<not> BeginRetry val1 then val1\<lparr>RetryResidueTime := tc_RetryTime tc\<rparr> else val1)"

text \<open>A nil entry of \<open>conf[queue].Topic[topic]\<close> panics in the first round of the loop over the jobs.\<close>

definition prepare_jobs :: "TopicConfig option \<Rightarrow> int \<Rightarrow> Jobs \<Rightarrow> Jobs go" where
  "prepare_jobs otc now jobs =
     (if Slice jobs = [] then Ret jobs
      else (case otc of
              None \<Rightarrow> Panic
            | Some tc \<Rightarrow> Ret (jobs\<lparr>Slice := map (prepare_job tc now) (Slice jobs)\<rparr>)))"

definition add_error ::
  "('w, 'g) env \<Rightarrow> QueueName \<Rightarrow> TopicName \<Rightarrow> Jobs \<Rightarrow> WorkerResponse \<Rightarrow> ('w, 'g) bus \<Rightarrow> ('w, 'g) bus go" where
  "add_error env q t jobs resp b =
     go_bind (AddError (e_redis env) (unix env) (e_hostname env) (e_net env) (e_ec env) q t jobs
                (Code resp) (ErrorCode resp) (Msg resp) None (wld b))
       (\<lambda>w. Ret (b\<lparr>wld := w\<rparr>))"

text \<open>The \<open>switch\<close> on the response code, and the error log behind it.\<close>

definition handle_response ::
  "('w, 'g) env \<Rightarrow> 'w Mux \<Rightarrow> Jobs \<Rightarrow> WorkerResponse \<Rightarrow> ('w, 'g) bus \<Rightarrow> (turn \<times> ('w, 'g) bus) go" where
  "handle_response env m jobs resp b =
     (if Code resp = ResponseSuccess then Ret (Again, b)
      else if Code resp = ResponseNotFound then
        go_bind (sendToRetryQueue env (mux_storager m) jobs b) (\<lambda>(_, _, b1). Ret (Begin, b1))
      else if Code resp = BadGateway then
        go_bind (sendToRetryQueue env (mux_storager m) jobs b) (\<lambda>(_, jobs', b1).
        if strings_Contains (Msg resp) ''connection refused'' then Ret (Begin, b1)
        else go_bind (add_error env (mux_queue m) (mux_topic m) jobs' resp b1) (\<lambda>b2. Ret (Again, b2)))
      else
        go_bind (sendToRetryQueue env (mux_storager m) jobs b) (\<lambda>(_, jobs', b1).
        go_bind (add_error env (mux_queue m) (mux_topic m) jobs' resp b1) (\<lambda>b2. Ret (Again, b2))))"

definition Mux_worker_turn ::
  "('w, 'g) env \<Rightarrow> QueueConfs \<Rightarrow> 'w Mux \<Rightarrow> bool \<Rightarrow> ('w, 'g) bus \<Rightarrow> (turn \<times> ('w, 'g) bus) go" where
  "Mux_worker_turn env conf m isDone b =
     (if isDone then Ret (Return, b)
      else
        go_bind (Mux_GetJobsFromQueue env m (mux_queue m) (mux_topic m) CommonQueue b) (\<lambda>((got, err), b1).
        case (err, got) of
          (Some e, _) \<Rightarrow> Ret (Again, b1)
        | (None, None) \<Rightarrow> Ret (Again, b1)
        | (None, Some jobs0) \<Rightarrow>
            (let start = e_nanos env (wld b1) in
             go_bind (prepare_jobs (topic_conf conf (mux_queue m) (mux_topic m)) (unix env (wld b1)) jobs0) (\<lambda>jobs.
             let (resp, w2) = Mux_SendJobs m jobs (wld b1);
                 done = e_nanos env w2 - start;
                 b2 = b1\<lparr>wld := w2,
                        MuxStat := MuxStats_Add (MuxStat b1) (mux_queue m) (mux_topic m)
                          (Code resp = ResponseSuccess) done\<rparr>
             in handle_response env m jobs resp b2))))"

subsection \<open>A turn of the retry loop\<close>

text \<open>
  What happens before the retry loop: the worker goroutines have been started; the function returns
  without a topic configuration, waits for the end of the context if the topic does not retry.
\<close>

datatype serve_mode = ServeReturns | ServeWaits | ServeRetries

definition Serve_mode :: "QueueConfs \<Rightarrow> QueueName \<Rightarrow> TopicName \<Rightarrow> serve_mode go" where
  "Serve_mode conf q t =
     (if conf = [] then Ret ServeReturns
      else (case map_of conf q of
              None \<Rightarrow> Panic
            | Some qc \<Rightarrow>
                (case map_of (qc_Topic qc) t of
                   None \<Rightarrow> Ret ServeReturns
                 | Some tc \<Rightarrow> Ret (if tc_IsRetry tc then ServeRetries else ServeWaits))))"

text \<open>The loop over the batch adds the whole batch once for every job in it.\<close>

fun requeue_loop ::
  "('w, 'g) env \<Rightarrow> storage \<Rightarrow> int \<Rightarrow> nat list \<Rightarrow> Jobs \<Rightarrow> ('w, 'g) bus \<Rightarrow> ('w, 'g) bus go" where
  "requeue_loop env s dur [] jobs b = Ret b"
| "requeue_loop env s dur (i # is) jobs b =
     (let val = Slice jobs ! i;
          jobs1 = jobs\<lparr>Slice := (Slice jobs)[i := val\<lparr>RetryResidueTime := i64 (RetryResidueTime val - dur)\<rparr>]\<rparr>
      in go_bind (bus_AddQueue env s jobs1 CommonQueue b) (\<lambda>(_, jobs2, b'). requeue_loop env s dur is jobs2 b'))"

definition retry_jobs ::
  "('w, 'g) env \<Rightarrow> storage \<Rightarrow> Jobs \<Rightarrow> ('w, 'g) bus \<Rightarrow> ('w, 'g) bus go" where
  "retry_jobs env s jobs b =
     (case map (\<lambda>job. job\<lparr>BeginRetry := True\<rparr>) (Slice jobs) of
        [] \<Rightarrow> Ret b
      | j0 # js \<Rightarrow>
          (let nowTime = unix env (wld b);
               jobs1 = jobs\<lparr>Slice := j0 # js\<rparr>
           in if IsRetry j0 \<and> 0 < RetryResidueTime j0 then
                (let durTime = i64 ((RetryTimes j0 - 1) * RetryDur);
                     j1 = (if RetryTime j0 = 0 then j0\<lparr>RetryTime := nowTime\<rparr> else j0);
                     jobs2 = jobs\<lparr>Slice := j1 # js\<rparr>
                 in if i64 (RetryTime j1 + durTime) \<le> nowTime
                    then requeue_loop env s durTime [0..<Suc (length js)] jobs2 b
                    else go_bind (sendToRetryQueue env s jobs2 b) (\<lambda>(_, _, b'). Ret b'))
              else go_bind (sendToTimeoutQueue env s jobs1 b) (\<lambda>(_, _, b'). Ret b')))"

definition Mux_retry_turn ::
  "('w, 'g) env \<Rightarrow> 'w Mux \<Rightarrow> bool \<Rightarrow> ('w, 'g) bus \<Rightarrow> (turn \<times> ('w, 'g) bus) go" where
  "Mux_retry_turn env m isDone b =
     (if isDone then Ret (Return, b)
      else
        go_bind (Mux_GetJobsFromQueue env m (mux_queue m) (mux_topic m) RetryQueue b) (\<lambda>((got, err), b1).
        case (err, got) of
          (Some e, _) \<Rightarrow> Ret (Again, b1)
        | (None, None) \<Rightarrow> Ret (Again, b1)
        | (None, Some jobs) \<Rightarrow> go_bind (retry_jobs env (mux_storager m) jobs b1) (\<lambda>b2. Ret (Again, b2))))"

subsection \<open>What a turn does to the lists of the topic\<close>

lemma wf_job_prepare [simp, inv_intros]:
  "wf_job j \<Longrightarrow> in_i64 now \<Longrightarrow> in_i64 (tc_RetryTime tc) \<Longrightarrow> wf_job (prepare_job tc now j)"
  by (simp add: wf_job_def prepare_job_def Let_def)

text \<open>The batch a turn sends: one job, with a fresh trace id.\<close>

definition batch :: "QueueName \<Rightarrow> TopicName \<Rightarrow> string \<Rightarrow> Job \<Rightarrow> Jobs" where
  "batch q t tid j =
     \<lparr>inTraceId = [], outTraceId = tid, queueName = q, topicName = t, retrying = False, Slice = [j]\<rparr>"

lemma batch_simps [simp]:
  "Slice (batch q t tid j) = [j]" "queueName (batch q t tid j) = q" "topicName (batch q t tid j) = t"
  "retrying (batch q t tid j) = False" "(batch q t tid j)\<lparr>Slice := [j']\<rparr> = batch q t tid j'"
  by (simp_all add: batch_def)

text \<open>
  The topic as the worker sees it: the lists of its jobs, to run, to retry and timed out, oldest first.
\<close>

record topic_lists =
  running :: "Job list"
  waiting :: "Job list"
  expired :: "Job list"

definition lists_of :: "(string \<Rightarrow> string \<Rightarrow> string list) \<Rightarrow> storage \<Rightarrow> QueueName \<Rightarrow> TopicName \<Rightarrow> topic_lists" where
  "lists_of l s q t =
     \<lparr>running = queued l s q t CommonQueue, waiting = queued l s q t RetryQueue,
      expired = queued l s q t TimeoutQueue\<rparr>"

lemma lists_of_sel [simp]:
  "running (lists_of l s q t) = queued l s q t CommonQueue"
  "waiting (lists_of l s q t) = queued l s q t RetryQueue"
  "expired (lists_of l s q t) = queued l s q t TimeoutQueue"
  by (simp_all add: lists_of_def)

definition stored :: "topic_lists \<Rightarrow> nat" where
  "stored ls = length (running ls) + length (waiting ls) + length (expired ls)"

definition turn_after :: "WorkerResponse \<Rightarrow> turn" where
  "turn_after resp =
     (if Code resp = ResponseNotFound
         \<or> (Code resp = BadGateway \<and> strings_Contains (Msg resp) ''connection refused'')
      then Begin else Again)"

text \<open>The services a turn needs: the Redis service of the locale, and a remote side that leaves it alone.\<close>

locale served_topic = redis_lists cl lst up
  for cl :: "'w client" and lst :: "'w \<Rightarrow> string \<Rightarrow> string \<Rightarrow> string list" and up :: "'w \<Rightarrow> bool" +
  fixes env :: "('w, 'g) env" and m :: "'w Mux"
  assumes redis: "e_redis env = cl"
    and sender: "up w \<Longrightarrow> rs_SendJobs (mux_sender m) jobs w = (r, w') \<Longrightarrow> up w' \<and> lst w' = lst w"
    and client: "redisCli (mux_storager m)"
    and errors: "collection_ok (ErrorCollectionEnable (e_net env)) (e_ec env)"
    and names: "plain_name (mux_queue m)" "plain_name (mux_topic m)"
    and clock: "in_i64 (unix env w)"
begin

definition view :: "'w \<Rightarrow> topic_lists" where
  "view w = lists_of (lst w) (mux_storager m) (mux_queue m) (mux_topic m)"

lemma add_error_view:
  assumes "up (wld b)"
  shows "\<exists>b'. add_error env (mux_queue m) (mux_topic m) jobs resp b = Ret b' \<and> up (wld b') \<and> view (wld b') = view (wld b)"
  using AddError_keeps_jobs [OF assms errors names, of "unix env" "e_hostname env" jobs "Code resp" "ErrorCode resp" "Msg resp" None] names(1)
  by (auto simp: add_error_def redis view_def lists_of_def)

lemma take_view:
  assumes "up (wld b)" "queued (lst (wld b)) (mux_storager m) (mux_queue m) (mux_topic m) qt = j # js"
  shows "\<exists>tid b'. Mux_GetJobsFromQueue env m (mux_queue m) (mux_topic m) qt b
       = Ret ((Some (batch (mux_queue m) (mux_topic m) tid j), None), b') \<and> up (wld b')
     \<and> MuxStat b' = MuxStat b
     \<and> view (wld b') = (case qt of CommonQueue \<Rightarrow> (view (wld b))\<lparr>running := js\<rparr>
                                 | RetryQueue \<Rightarrow> (view (wld b))\<lparr>waiting := js\<rparr>
                                 | TimeoutQueue \<Rightarrow> (view (wld b))\<lparr>expired := js\<rparr>)"
proof -
  obtain w' where "GetJobsFromQueue cl (e_gen env) (e_ServiceId env) (mux_storager m) (mux_queue m) (mux_topic m) qt (ids b) (wld b)
      = Ret ((Some (batch (mux_queue m) (mux_topic m) (fst (GenTraceId (e_gen env) (e_ServiceId env) (ids b))) j), None),
          snd (GenTraceId (e_gen env) (e_ServiceId env) (ids b)), w')"
    "up w'" "queued (lst w') (mux_storager m) (mux_queue m) (mux_topic m) qt = js"
    "\<forall>qt'. qt' \<noteq> qt \<longrightarrow> queued (lst w') (mux_storager m) (mux_queue m) (mux_topic m) qt'
       = queued (lst (wld b)) (mux_storager m) (mux_queue m) (mux_topic m) qt'"
    using GetJobs_dequeues [OF assms(1) client assms(2)] unfolding batch_def by (metis GetKey_typ_inj)
  then show ?thesis
    by (cases qt) (auto simp: Mux_GetJobsFromQueue_def redis view_def lists_of_def)
qed

lemma put_view:
  assumes "up (wld b)" "wf_job j"
  shows "\<exists>b' jobs'. bus_AddQueue env (mux_storager m) (batch (mux_queue m) (mux_topic m) tid j) qt b
       = Ret (None, jobs', b') \<and> up (wld b') \<and> Slice jobs' = [bump (qt = RetryQueue) j] \<and> MuxStat b' = MuxStat b
     \<and> view (wld b') = (case qt of CommonQueue \<Rightarrow> (view (wld b))\<lparr>running := running (view (wld b)) @ [j]\<rparr>
                                 | RetryQueue \<Rightarrow> (view (wld b))\<lparr>waiting := waiting (view (wld b)) @ [bump True j]\<rparr>
                                 | TimeoutQueue \<Rightarrow> (view (wld b))\<lparr>expired := expired (view (wld b)) @ [j]\<rparr>)"
proof -
  let ?jobs = "batch (mux_queue m) (mux_topic m) tid j"
  obtain w' where w': "AddQueue cl (mux_storager m) ?jobs qt (wld b) = Ret (None, added ?jobs qt, w')" "up w'"
    "queued (lst w') (mux_storager m) (mux_queue m) (mux_topic m) qt
       = queued (lst (wld b)) (mux_storager m) (mux_queue m) (mux_topic m) qt @ [bump (qt = RetryQueue) j]"
    "\<forall>qt'. qt' \<noteq> qt \<longrightarrow> queued (lst w') (mux_storager m) (mux_queue m) (mux_topic m) qt'
       = queued (lst (wld b)) (mux_storager m) (mux_queue m) (mux_topic m) qt'"
    using AddQueue_enqueues [OF assms(1) client, of ?jobs qt] assms(2) by auto
  have "bus_AddQueue env (mux_storager m) ?jobs qt b = Ret (None, added ?jobs qt, b\<lparr>wld := w'\<rparr>)"
    using w'(1) by (simp add: bus_AddQueue_def redis)
  then show ?thesis using w'(2-)
    by (cases qt) (auto simp: view_def lists_of_def bump_def)
qed

end

text \<open>
  The outcome of a worker turn on a non-empty list: the oldest job was handed to the remote side; on
  success it is gone, otherwise it is the newest job to retry, with its attempt recorded.
\<close>

definition worker_effect :: "TopicConfig \<Rightarrow> int \<Rightarrow> Job \<Rightarrow> Job list \<Rightarrow> WorkerResponse \<Rightarrow> topic_lists \<Rightarrow> topic_lists" where
  "worker_effect tc now j js resp ls =
     (if Code resp = ResponseSuccess then ls\<lparr>running := js\<rparr>
      else ls\<lparr>running := js, waiting := waiting ls @ [bump True (prepare_job tc now j)]\<rparr>)"

definition worker_stat :: "'w Mux \<Rightarrow> WorkerResponse \<Rightarrow> int \<Rightarrow> MuxStats \<Rightarrow> MuxStats" where
  "worker_stat m resp d st = MuxStats_Add st (mux_queue m) (mux_topic m) (Code resp = ResponseSuccess) d"

context served_topic
begin

lemma handle_response_effect:
  assumes "up (wld b)" "wf_job j"
  shows "\<exists>b'. handle_response env m (batch (mux_queue m) (mux_topic m) tid j) resp b = Ret (turn_after resp, b')
     \<and> up (wld b') \<and> MuxStat b' = MuxStat b
     \<and> view (wld b') = (if Code resp = ResponseSuccess then view (wld b)
          else (view (wld b))\<lparr>waiting := waiting (view (wld b)) @ [bump True j]\<rparr>)"
proof (cases "Code resp = ResponseSuccess")
  case True
  then show ?thesis using assms(1)
    by (simp add: handle_response_def turn_after_def ResponseSuccess_def ResponseNotFound_def BadGateway_def)
next
  case False
  obtain b1 jobs' where b1: "bus_AddQueue env (mux_storager m) (batch (mux_queue m) (mux_topic m) tid j) RetryQueue b
       = Ret (None, jobs', b1)" "up (wld b1)" "MuxStat b1 = MuxStat b"
    "view (wld b1) = (view (wld b))\<lparr>waiting := waiting (view (wld b)) @ [bump True j]\<rparr>"
    using put_view [OF assms, of tid RetryQueue] by auto
  obtain b2 where b2: "add_error env (mux_queue m) (mux_topic m) jobs' resp b1 = Ret b2" "up (wld b2)"
    "view (wld b2) = view (wld b1)"
    using add_error_view [OF b1(2)] by blast
  have st: "MuxStat b2 = MuxStat b1" using b2(1) by (auto simp: add_error_def)
  show ?thesis
  proof (cases "turn_after resp = Begin")
    case True
    then have "handle_response env m (batch (mux_queue m) (mux_topic m) tid j) resp b = Ret (Begin, b1)"
      using False b1(1) by (auto simp: handle_response_def turn_after_def sendToRetryQueue_def
          ResponseNotFound_def BadGateway_def split: if_splits)
    with True False b1 show ?thesis by simp
  next
    case n: False
    then have "handle_response env m (batch (mux_queue m) (mux_topic m) tid j) resp b = Ret (Again, b2)"
      using False b1(1) b2(1) by (auto simp: handle_response_def turn_after_def sendToRetryQueue_def split: if_splits)
    moreover have "turn_after resp = Again" using n by (auto simp: turn_after_def split: if_splits)
    ultimately show ?thesis using False b1 b2 st by simp
  qed
qed

lemma worker_turn_effect:
  assumes "up (wld b)" "running (view (wld b)) = j # js" "wf_job j"
    and tc: "topic_conf conf (mux_queue m) (mux_topic m) = Some tc" "in_i64 (tc_RetryTime tc)"
  shows "\<exists>tid w1 r w2 b'. Mux_worker_turn env conf m False b = Ret (turn_after (sent r), b') \<and> up (wld b')
     \<and> rs_SendJobs (mux_sender m) (batch (mux_queue m) (mux_topic m) tid (prepare_job tc (unix env w1) j)) w1 = (r, w2)
     \<and> view (wld b') = worker_effect tc (unix env w1) j js (sent r) (view (wld b))
     \<and> MuxStat b' = worker_stat m (sent r) (e_nanos env w2 - e_nanos env w1) (MuxStat b)"
proof -
  have q: "queued (lst (wld b)) (mux_storager m) (mux_queue m) (mux_topic m) CommonQueue = j # js"
    using assms(2) by (simp add: view_def)
  obtain tid b1 where b1: "Mux_GetJobsFromQueue env m (mux_queue m) (mux_topic m) CommonQueue b
       = Ret ((Some (batch (mux_queue m) (mux_topic m) tid j), None), b1)" "up (wld b1)" "MuxStat b1 = MuxStat b"
     "view (wld b1) = (view (wld b))\<lparr>running := js\<rparr>"
    using take_view [OF assms(1) q] by auto
  define j' where "j' = prepare_job tc (unix env (wld b1)) j"
  let ?jobs = "batch (mux_queue m) (mux_topic m) tid j'"
  have wf: "wf_job j'" using assms(3) tc(2) clock by (simp add: j'_def)
  have prep: "prepare_jobs (topic_conf conf (mux_queue m) (mux_topic m)) (unix env (wld b1))
       (batch (mux_queue m) (mux_topic m) tid j) = Ret ?jobs"
    using tc(1) by (simp add: prepare_jobs_def j'_def)
  obtain r w2 where r: "rs_SendJobs (mux_sender m) ?jobs (wld b1) = (r, w2)" by (cases "rs_SendJobs (mux_sender m) ?jobs (wld b1)")
  define b2 where "b2 = b1\<lparr>wld := w2, MuxStat := MuxStats_Add (MuxStat b1) (mux_queue m) (mux_topic m)
      (Code (sent r) = ResponseSuccess) (e_nanos env w2 - e_nanos env (wld b1))\<rparr>"
  have b2: "up (wld b2)" "view (wld b2) = (view (wld b))\<lparr>running := js\<rparr>"
    "MuxStat b2 = worker_stat m (sent r) (e_nanos env w2 - e_nanos env (wld b1)) (MuxStat b)"
    using sender [OF b1(2) r] b1(3,4) by (simp_all add: b2_def view_def worker_stat_def)
  have "Mux_worker_turn env conf m False b = handle_response env m ?jobs (sent r) b2"
    by (simp add: Mux_worker_turn_def b1(1) prep Mux_SendJobs_def r Let_def b2_def)
  moreover obtain b' where "handle_response env m ?jobs (sent r) b2 = Ret (turn_after (sent r), b')" "up (wld b')"
    "MuxStat b' = MuxStat b2"
    "view (wld b') = (if Code (sent r) = ResponseSuccess then view (wld b2)
        else (view (wld b2))\<lparr>waiting := waiting (view (wld b2)) @ [bump True j']\<rparr>)"
    using handle_response_effect [OF b2(1) wf] by blast
  moreover have "view (wld b') = worker_effect tc (unix env (wld b1)) j js (sent r) (view (wld b))"
    using calculation(5) b2(2) by (simp add: worker_effect_def j'_def)
  ultimately show ?thesis using r b2(3) unfolding j'_def by metis
qed

lemma worker_turn_idle:
  assumes "up (wld b)" "running (view (wld b)) = []"
  shows "\<exists>b'. Mux_worker_turn env conf m False b = Ret (Again, b') \<and> up (wld b') \<and> view (wld b') = view (wld b)
     \<and> MuxStat b' = MuxStat b"
  using GetJobs_empty [OF assms(1) client, of "mux_queue m" "mux_topic m" CommonQueue "e_gen env" "e_ServiceId env" "ids b"] assms(2)
  by (auto simp: Mux_worker_turn_def Mux_GetJobsFromQueue_def redis view_def lists_of_def)

end

subsection \<open>The retry cycle\<close>

datatype retry_verdict = Requeue int | Postpone | Expire

definition retry_verdict :: "int \<Rightarrow> Job \<Rightarrow> retry_verdict" where
  "retry_verdict now j =
     (if IsRetry j \<and> 0 < RetryResidueTime j then
        (let dur = i64 ((RetryTimes j - 1) * RetryDur) in
         if i64 ((if RetryTime j = 0 then now else RetryTime j) + dur) \<le> now then Requeue dur else Postpone)
      else Expire)"

text \<open>The job as the retry loop writes it back.\<close>

definition retry_mark :: "int \<Rightarrow> Job \<Rightarrow> Job" where
  "retry_mark now j =
     (case retry_verdict now j of
        Expire \<Rightarrow> j\<lparr>BeginRetry := True\<rparr>
      | Postpone \<Rightarrow> bump True (j\<lparr>BeginRetry := True, RetryTime := if RetryTime j = 0 then now else RetryTime j\<rparr>)
      | Requeue dur \<Rightarrow>
          j\<lparr>BeginRetry := True, RetryTime := if RetryTime j = 0 then now else RetryTime j,
            RetryResidueTime := i64 (RetryResidueTime j - dur)\<rparr>)"

definition retry_effect :: "int \<Rightarrow> Job \<Rightarrow> Job list \<Rightarrow> topic_lists \<Rightarrow> topic_lists" where
  "retry_effect now j js ls =
     (case retry_verdict now j of
        Expire \<Rightarrow> ls\<lparr>waiting := js, expired := expired ls @ [retry_mark now j]\<rparr>
      | Postpone \<Rightarrow> ls\<lparr>waiting := js @ [retry_mark now j]\<rparr>
      | Requeue dur \<Rightarrow> ls\<lparr>waiting := js, running := running ls @ [retry_mark now j]\<rparr>)"

lemma wf_job_updates [simp]:
  "wf_job (j\<lparr>BeginRetry := b\<rparr>) = wf_job j"
  "wf_job j \<Longrightarrow> in_i64 n \<Longrightarrow> wf_job (j\<lparr>RetryTime := n\<rparr>)"
  "wf_job j \<Longrightarrow> in_i64 n \<Longrightarrow> wf_job (j\<lparr>RetryResidueTime := n\<rparr>)"
  by (simp_all add: wf_job_def)

context served_topic
begin

lemma retry_jobs_effect:
  assumes "up (wld b)" "wf_job j"
  shows "\<exists>b'. retry_jobs env (mux_storager m) (batch (mux_queue m) (mux_topic m) tid j) b = Ret b' \<and> up (wld b')
     \<and> view (wld b') = retry_effect (unix env (wld b)) j (waiting (view (wld b))) (view (wld b))"
proof -
  define now where "now = unix env (wld b)"
  define j1 where "j1 = j\<lparr>BeginRetry := True, RetryTime := if RetryTime j = 0 then now else RetryTime j\<rparr>"
  have j1': "(if RetryTime j = 0 then j\<lparr>BeginRetry := True, RetryTime := now\<rparr> else j\<lparr>BeginRetry := True\<rparr>) = j1"
    by (cases "RetryTime j = 0") (simp_all add: j1_def)
  have wf1: "wf_job j1"
  proof -
    have "in_i64 (RetryTime j)" using assms(2) by (simp add: wf_job_def)
    then show ?thesis using assms(2) clock by (simp add: j1_def now_def)
  qed
  have rt1: "RetryTime j1 = (if RetryTime j = 0 then now else RetryTime j)" by (simp add: j1_def)
  show ?thesis
  proof (cases "retry_verdict now j")
    case (Requeue dur)
    let ?j2 = "j1\<lparr>RetryResidueTime := i64 (RetryResidueTime j - dur)\<rparr>"
    have m: "retry_mark now j = ?j2" using Requeue by (simp add: retry_mark_def j1_def)
    obtain b' jobs' where b': "bus_AddQueue env (mux_storager m) (batch (mux_queue m) (mux_topic m) tid ?j2) CommonQueue b
        = Ret (None, jobs', b')" "up (wld b')"
      "view (wld b') = (view (wld b))\<lparr>running := running (view (wld b)) @ [?j2]\<rparr>"
      using put_view [OF assms(1), of ?j2 tid CommonQueue] wf1 by auto
    moreover have "retry_jobs env (mux_storager m) (batch (mux_queue m) (mux_topic m) tid j) b = Ret b'"
    proof -
      have c: "IsRetry j" "0 < RetryResidueTime j" "i64 (RetryTime j1 + i64 ((RetryTimes j - 1) * RetryDur)) \<le> now"
        "dur = i64 ((RetryTimes j - 1) * RetryDur)"
        using Requeue rt1 by (simp_all add: retry_verdict_def Let_def split: if_splits)
      have "RetryResidueTime j1 = RetryResidueTime j" by (simp add: j1_def)
      then show ?thesis using b'(1) c by (simp add: retry_jobs_def now_def [symmetric] Let_def j1')
    qed
    ultimately show ?thesis using Requeue m by (simp add: retry_effect_def now_def [symmetric])
  next
    case Postpone
    obtain b' jobs' where b': "bus_AddQueue env (mux_storager m) (batch (mux_queue m) (mux_topic m) tid j1) RetryQueue b
        = Ret (None, jobs', b')" "up (wld b')"
      "view (wld b') = (view (wld b))\<lparr>waiting := waiting (view (wld b)) @ [bump True j1]\<rparr>"
      using put_view [OF assms(1) wf1, of tid RetryQueue] by auto
    moreover have "retry_jobs env (mux_storager m) (batch (mux_queue m) (mux_topic m) tid j) b = Ret b'"
      using Postpone b'(1) rt1
      by (auto simp: retry_jobs_def retry_verdict_def now_def [symmetric] Let_def j1' sendToRetryQueue_def split: if_splits)
    moreover have "retry_mark now j = bump True j1" using Postpone by (simp add: retry_mark_def j1_def)
    ultimately show ?thesis using Postpone by (simp add: retry_effect_def now_def [symmetric])
  next
    case Expire
    obtain b' jobs' where b': "bus_AddQueue env (mux_storager m) (batch (mux_queue m) (mux_topic m) tid (j\<lparr>BeginRetry := True\<rparr>)) TimeoutQueue b
        = Ret (None, jobs', b')" "up (wld b')"
      "view (wld b') = (view (wld b))\<lparr>expired := expired (view (wld b)) @ [j\<lparr>BeginRetry := True\<rparr>]\<rparr>"
      using put_view [OF assms(1), of "j\<lparr>BeginRetry := True\<rparr>" tid TimeoutQueue] assms(2) by auto
    moreover have "retry_jobs env (mux_storager m) (batch (mux_queue m) (mux_topic m) tid j) b = Ret b'"
      using Expire b'(1) by (auto simp: retry_jobs_def retry_verdict_def Let_def sendToTimeoutQueue_def split: if_splits)
    ultimately show ?thesis using Expire by (simp add: retry_effect_def retry_mark_def now_def [symmetric])
  qed
qed

lemma retry_turn_effect_at:
  assumes "up (wld b)" "waiting (view (wld b)) = j # js" "wf_job j"
  shows "\<exists>r b1 b'. Mux_GetJobsFromQueue env m (mux_queue m) (mux_topic m) RetryQueue b = Ret (r, b1)
     \<and> Mux_retry_turn env m False b = Ret (Again, b') \<and> up (wld b')
     \<and> view (wld b') = retry_effect (unix env (wld b1)) j js (view (wld b))"
proof -
  have q: "queued (lst (wld b)) (mux_storager m) (mux_queue m) (mux_topic m) RetryQueue = j # js"
    using assms(2) by (simp add: view_def)
  obtain tid b1 where b1: "Mux_GetJobsFromQueue env m (mux_queue m) (mux_topic m) RetryQueue b
       = Ret ((Some (batch (mux_queue m) (mux_topic m) tid j), None), b1)" "up (wld b1)"
     "view (wld b1) = (view (wld b))\<lparr>waiting := js\<rparr>"
    using take_view [OF assms(1) q] by auto
  obtain b' where "retry_jobs env (mux_storager m) (batch (mux_queue m) (mux_topic m) tid j) b1 = Ret b'" "up (wld b')"
     "view (wld b') = retry_effect (unix env (wld b1)) j js (view (wld b1))"
    using retry_jobs_effect [OF b1(2) assms(3), of tid] b1(3) by auto
  moreover have "retry_effect now j js ((view (wld b))\<lparr>waiting := js\<rparr>) = retry_effect now j js (view (wld b))" for now
    by (simp add: retry_effect_def split: retry_verdict.split)
  ultimately show ?thesis using b1 by (auto simp: Mux_retry_turn_def)
qed

lemma retry_turn_effect:
  assumes "up (wld b)" "waiting (view (wld b)) = j # js" "wf_job j"
  shows "\<exists>w1 b'. Mux_retry_turn env m False b = Ret (Again, b') \<and> up (wld b')
     \<and> view (wld b') = retry_effect (unix env w1) j js (view (wld b))"
  using retry_turn_effect_at [OF assms] by blast

end

subsection \<open>The life of a job that keeps failing\<close>

text \<open>
  A job whose deliveries all fail, followed through the lists: a failed delivery takes it from the
  first list to the second, the retry loop decides what comes next. \<open>deliveries\<close> is \<open>RetryTimes\<close>.
\<close>

datatype place = AtRun | AtWait | AtExpired

inductive job_step :: "TopicConfig \<Rightarrow> place \<times> Job \<Rightarrow> place \<times> Job \<Rightarrow> bool" for tc where
  fails: "job_step tc (AtRun, j) (AtWait, bump True (prepare_job tc now j))"
| requeues: "retry_verdict now j = Requeue dur \<Longrightarrow> job_step tc (AtWait, j) (AtRun, retry_mark now j)"
| postpones: "retry_verdict now j = Postpone \<Longrightarrow> job_step tc (AtWait, j) (AtWait, retry_mark now j)"
| expires: "retry_verdict now j = Expire \<Longrightarrow> job_step tc (AtWait, j) (AtExpired, retry_mark now j)"

inductive_cases job_stepE [elim!]: "job_step tc s s'"

definition fresh_job :: "Job \<Rightarrow> bool" where
  "fresh_job j \<longleftrightarrow> RetryTimes j = 0 \<and> \<not> BeginRetry j"

text \<open>The time budget left when the \<open>k\<close>-th delivery has failed: each retry costs thirty seconds more.\<close>

definition residue :: "int \<Rightarrow> int \<Rightarrow> int" where
  "residue R k = R - 15 * ((k - 1) * (k - 2))"

definition life_inv :: "TopicConfig \<Rightarrow> place \<times> Job \<Rightarrow> bool" where
  "life_inv tc s =
     (let (p, j) = s; k = RetryTimes j; R = tc_RetryTime tc in
      case p of
        AtRun \<Rightarrow> fresh_job j \<or>
          (1 \<le> k \<and> BeginRetry j \<and> RetryResidueTime j = residue R (k + 1) \<and> 0 < residue R k)
      | AtWait \<Rightarrow> 1 \<le> k \<and> RetryResidueTime j = residue R k \<and> (2 \<le> k \<longrightarrow> 0 < residue R (k - 1))
      | AtExpired \<Rightarrow> 1 \<le> k \<and> RetryResidueTime j = residue R k \<and> (2 \<le> k \<longrightarrow> 0 < residue R (k - 1))
           \<and> (IsRetry j \<longrightarrow> residue R k \<le> 0))"

lemmas life_inv_unfold = life_inv_def Let_def

lemma residue_Suc: "residue R (k + 1) = residue R k - 30 * (k - 1)"
  by (simp add: residue_def algebra_simps)

lemma residue_1 [simp]: "residue R 1 = R"
  by (simp add: residue_def)

lemma residue_pos_small:
  assumes "0 < residue R k" "1 \<le> k" "R < 2 ^ 60"
  shows "k < 2 ^ 31"
proof (rule ccontr)
  assume "\<not> k < 2 ^ 31"
  then have "(2 ^ 31 - 1) * (2 ^ 31 - 2) \<le> (k - 1) * (k - 2)" by (intro mult_mono) auto
  then show False using assms by (simp add: residue_def)
qed

lemma retry_mark_fields:
  "RetryTimes (retry_mark now j) = RetryTimes j"
  "BeginRetry (retry_mark now j)"
  "IsRetry (retry_mark now j) = IsRetry j"
  "retry_verdict now j = Requeue dur \<Longrightarrow> RetryResidueTime (retry_mark now j) = i64 (RetryResidueTime j - dur)"
  "retry_verdict now j = Postpone \<Longrightarrow> RetryResidueTime (retry_mark now j) = RetryResidueTime j"
  "retry_verdict now j = Expire \<Longrightarrow> RetryResidueTime (retry_mark now j) = RetryResidueTime j"
  by (auto simp: retry_mark_def bump_def split: retry_verdict.split)

lemma prepare_fields:
  "RetryTimes (bump True (prepare_job tc now j)) = i64 (RetryTimes j + 1)"
  "RetryResidueTime (bump True (prepare_job tc now j)) = (if BeginRetry j then RetryResidueTime j else tc_RetryTime tc)"
  by (auto simp: bump_def prepare_job_def Let_def)

lemma retry_verdict_cases:
  "retry_verdict now j = Requeue dur \<Longrightarrow> IsRetry j \<and> 0 < RetryResidueTime j \<and> dur = i64 ((RetryTimes j - 1) * RetryDur)"
  "retry_verdict now j = Postpone \<Longrightarrow> IsRetry j \<and> 0 < RetryResidueTime j"
  "retry_verdict now j = Expire \<Longrightarrow> IsRetry j \<longrightarrow> RetryResidueTime j \<le> 0"
  by (auto simp: retry_verdict_def Let_def split: if_splits)

lemma life_inv_step:
  assumes "job_step tc s s'" "life_inv tc s" "0 \<le> tc_RetryTime tc" "tc_RetryTime tc < 2 ^ 60"
  shows "life_inv tc s'"
  using assms(1)
proof cases
  case (fails j now)
  show ?thesis
  proof (cases "fresh_job j")
    case True
    then show ?thesis using fails by (simp add: life_inv_unfold prepare_fields fresh_job_def)
  next
    case False
    then have k: "1 \<le> RetryTimes j" "BeginRetry j" "0 < residue (tc_RetryTime tc) (RetryTimes j)"
      "RetryResidueTime j = residue (tc_RetryTime tc) (RetryTimes j + 1)"
      using assms(2) fails by (auto simp: life_inv_unfold)
    have "RetryTimes j < 2 ^ 31" using residue_pos_small [OF k(3,1) assms(4)] .
    then have "i64 (RetryTimes j + 1) = RetryTimes j + 1" using k(1) by (intro i64_id) (simp add: in_i64_def)
    then show ?thesis using fails k by (simp add: life_inv_unfold prepare_fields)
  qed
next
  case (requeues now j dur)
  note v = retry_verdict_cases(1) [OF requeues(3)]
  have k: "1 \<le> RetryTimes j" "RetryResidueTime j = residue (tc_RetryTime tc) (RetryTimes j)"
    using assms(2) requeues by (auto simp: life_inv_unfold)
  have pos: "0 < residue (tc_RetryTime tc) (RetryTimes j)" using v k by simp
  have small: "RetryTimes j < 2 ^ 31" by (rule residue_pos_small [OF pos k(1) assms(4)])
  have dur: "dur = 30 * (RetryTimes j - 1)" using v small k(1)
    by (simp add: RetryDur_def) (subst i64_id, auto simp: in_i64_def)
  have "residue (tc_RetryTime tc) (RetryTimes j) \<le> tc_RetryTime tc"
    using k(1) by (simp add: residue_def mult_nonneg_nonneg)
       (cases "RetryTimes j = 1", auto intro: mult_nonneg_nonneg)
  then have "i64 (RetryResidueTime j - dur) = RetryResidueTime j - dur"
    using dur k pos small assms(4) by (intro i64_id) (simp add: in_i64_def)
  then show ?thesis using requeues k v pos dur
    by (simp add: life_inv_unfold retry_mark_fields residue_Suc)
next
  case (postpones now j)
  then show ?thesis using assms(2) by (simp add: life_inv_unfold retry_mark_fields)
next
  case (expires now j)
  then show ?thesis using assms(2) retry_verdict_cases(3) [OF expires(3)]
    by (auto simp: life_inv_unfold retry_mark_fields)
qed

text \<open>The number of deliveries of a job that always fails is bounded by its retry time.\<close>

lemma deliveries_bounded:
  assumes "life_inv tc (p, j)" "3 \<le> RetryTimes j"
  shows "15 * ((RetryTimes j - 2) * (RetryTimes j - 3)) < tc_RetryTime tc"
proof -
  have "0 < residue (tc_RetryTime tc) (RetryTimes j - 1)"
  proof (cases p)
    case AtRun
    then have "0 < residue (tc_RetryTime tc) (RetryTimes j)" using assms by (auto simp: life_inv_unfold fresh_job_def)
    moreover have "residue (tc_RetryTime tc) (RetryTimes j) = residue (tc_RetryTime tc) (RetryTimes j - 1) - 30 * (RetryTimes j - 2)"
      using residue_Suc [of "tc_RetryTime tc" "RetryTimes j - 1"] by simp
    ultimately show ?thesis using assms(2) by simp
  qed (use assms in \<open>auto simp: life_inv_unfold\<close>)
  then show ?thesis by (simp add: residue_def algebra_simps)
qed

text \<open>Once the waiting time is over the verdict is not \<open>Postpone\<close>.\<close>

lemma not_postponed:
  assumes "life_inv tc (AtWait, j)" "0 \<le> tc_RetryTime tc" "tc_RetryTime tc < 2 ^ 60"
    and "0 < RetryTime j" "RetryTime j \<le> 2 ^ 61" "RetryTime j + 30 * (RetryTimes j - 1) \<le> now"
  shows "retry_verdict now j \<noteq> Postpone"
proof
  assume p: "retry_verdict now j = Postpone"
  have k: "1 \<le> RetryTimes j" "RetryResidueTime j = residue (tc_RetryTime tc) (RetryTimes j)"
    using assms(1) by (auto simp: life_inv_unfold)
  have "0 < residue (tc_RetryTime tc) (RetryTimes j)" using retry_verdict_cases(2) [OF p] k by simp
  then have small: "RetryTimes j < 2 ^ 31" using residue_pos_small k(1) assms(3) by blast
  then have d: "i64 ((RetryTimes j - 1) * RetryDur) = 30 * (RetryTimes j - 1)"
    using k(1) by (simp add: RetryDur_def) (subst i64_id, auto simp: in_i64_def)
  then have "i64 (RetryTime j + 30 * (RetryTimes j - 1)) = RetryTime j + 30 * (RetryTimes j - 1)"
    using small k(1) assms(4,5) by (intro i64_id) (simp add: in_i64_def)
  then show False using p d assms(4,6) by (simp add: retry_verdict_def Let_def split: if_splits)
qed

subsection \<open>Sequences of turns\<close>

text \<open>Workers and the retry loop take turns in any order.\<close>

datatype actor = Worker | Retrier

fun run_turns ::
  "('w, 'g) env \<Rightarrow> QueueConfs \<Rightarrow> 'w Mux \<Rightarrow> actor list \<Rightarrow> ('w, 'g) bus \<Rightarrow> ('w, 'g) bus go" where
  "run_turns env conf m [] b = Ret b"
| "run_turns env conf m (Worker # as) b =
     go_bind (Mux_worker_turn env conf m False b) (\<lambda>(_, b1). run_turns env conf m as b1)"
| "run_turns env conf m (Retrier # as) b =
     go_bind (Mux_retry_turn env m False b) (\<lambda>(_, b1). run_turns env conf m as b1)"

definition lists_wf :: "topic_lists \<Rightarrow> bool" where
  "lists_wf ls \<longleftrightarrow> (\<forall>j \<in> set (running ls) \<union> set (waiting ls) \<union> set (expired ls). wf_job j)"

lemma lists_of_wf [simp]: "lists_wf (lists_of l s q t)"
  by (auto simp: lists_wf_def)

lemma wf_job_retry_mark: "wf_job j \<Longrightarrow> in_i64 now \<Longrightarrow> wf_job (retry_mark now j)"
  by (auto simp: retry_mark_def wf_job_def bump_def split: retry_verdict.split)

lemma worker_effect_wf:
  assumes "lists_wf ls" "running ls = j # js" "in_i64 now" "in_i64 (tc_RetryTime tc)"
  shows "lists_wf (worker_effect tc now j js resp ls)"
  using assms by (auto simp: lists_wf_def worker_effect_def)

lemma retry_effect_wf:
  assumes "lists_wf ls" "waiting ls = j # js" "in_i64 now"
  shows "lists_wf (retry_effect now j js ls)"
  using assms by (auto simp: lists_wf_def retry_effect_def wf_job_retry_mark split: retry_verdict.split)

lemma worker_effect_stored:
  "running ls = j # js \<Longrightarrow>
   stored (worker_effect tc now j js resp ls) + (if Code resp = ResponseSuccess then 1 else 0) = stored ls"
  by (simp add: stored_def worker_effect_def)

lemma retry_effect_stored: "waiting ls = j # js \<Longrightarrow> stored (retry_effect now j js ls) = stored ls"
  by (simp add: stored_def retry_effect_def split: retry_verdict.split)

text \<open>The successful deliveries waiting in the channel of the statistics.\<close>

definition delivered :: "MuxStats \<Rightarrow> nat" where
  "delivered st = successes (ms_itemChan st)"

lemma worker_stat_delivered:
  assumes "mux_queue m \<noteq> []" "mux_topic m \<noteq> []" "length (ms_itemChan st) < MuxStatsChannelBuff"
  shows "delivered (worker_stat m resp d st) = delivered st + (if Code resp = ResponseSuccess then 1 else 0)
     \<and> length (ms_itemChan (worker_stat m resp d st)) = Suc (length (ms_itemChan st))"
  using assms by (simp add: delivered_def worker_stat_def MuxStats_Add_def successes_def)

context served_topic
begin

lemma retry_turn_idle:
  assumes "up (wld b)" "waiting (view (wld b)) = []"
  shows "\<exists>b'. Mux_retry_turn env m False b = Ret (Again, b') \<and> up (wld b') \<and> view (wld b') = view (wld b)"
  using GetJobs_empty [OF assms(1) client, of "mux_queue m" "mux_topic m" RetryQueue "e_gen env" "e_ServiceId env" "ids b"] assms(2)
  by (auto simp: Mux_retry_turn_def Mux_GetJobsFromQueue_def redis view_def lists_of_def)

lemma retry_turn_MuxStat: "Mux_retry_turn env m d b = Ret (tn, b') \<Longrightarrow> MuxStat b' = MuxStat b"
proof -
  have add: "bus_AddQueue env s jobs qt b = Ret (e, jobs', b') \<Longrightarrow> MuxStat b' = MuxStat b" for s jobs qt b e jobs' b'
    by (auto simp: bus_AddQueue_def)
  have loop: "requeue_loop env s dur is jobs b = Ret b' \<Longrightarrow> MuxStat b' = MuxStat b" for s dur "is" jobs b b'
    by (induction "is" arbitrary: jobs b) (auto simp: Let_def dest!: add)
  have retry: "retry_jobs env s jobs b = Ret b' \<Longrightarrow> MuxStat b' = MuxStat b" for s jobs b b'
    by (auto simp: retry_jobs_def Let_def sendToRetryQueue_def sendToTimeoutQueue_def
        split: list.splits if_splits dest!: add loop)
  show "Mux_retry_turn env m d b = Ret (tn, b') \<Longrightarrow> MuxStat b' = MuxStat b"
    by (auto simp: Mux_retry_turn_def Mux_GetJobsFromQueue_def split: if_splits option.splits dest!: retry)
qed

lemma worker_turn_conserves:
  assumes "up (wld b)" "lists_wf (view (wld b))"
    and tc: "topic_conf conf (mux_queue m) (mux_topic m) = Some tc" "in_i64 (tc_RetryTime tc)"
    and "mux_queue m \<noteq> []" "mux_topic m \<noteq> []" "length (ms_itemChan (MuxStat b)) < MuxStatsChannelBuff"
  shows "\<exists>tn b'. Mux_worker_turn env conf m False b = Ret (tn, b') \<and> up (wld b') \<and> lists_wf (view (wld b'))
     \<and> stored (view (wld b')) + delivered (MuxStat b') = stored (view (wld b)) + delivered (MuxStat b)
     \<and> length (ms_itemChan (MuxStat b')) \<le> Suc (length (ms_itemChan (MuxStat b)))"
proof (cases "running (view (wld b))")
  case Nil
  then show ?thesis using worker_turn_idle [OF assms(1) Nil, of conf] assms(2) by force
next
  case (Cons j js)
  have "wf_job j" using assms(2) Cons by (simp add: lists_wf_def)
  then obtain w1 r w2 b' where b': "Mux_worker_turn env conf m False b = Ret (turn_after (sent r), b')" "up (wld b')"
    "view (wld b') = worker_effect tc (unix env w1) j js (sent r) (view (wld b))"
    "MuxStat b' = worker_stat m (sent r) (e_nanos env w2 - e_nanos env w1) (MuxStat b)"
    using worker_turn_effect [OF assms(1) Cons _ tc] by blast
  show ?thesis
    using b' worker_effect_wf [OF assms(2) Cons clock tc(2)] worker_effect_stored [OF Cons, of tc "unix env w1" "sent r"]
      worker_stat_delivered [OF assms(5-7), of "sent r" "e_nanos env w2 - e_nanos env w1"]
    by (intro exI [of _ "turn_after (sent r)"] exI [of _ b']) simp
qed

lemma retry_turn_conserves:
  assumes "up (wld b)" "lists_wf (view (wld b))"
  shows "\<exists>tn b'. Mux_retry_turn env m False b = Ret (tn, b') \<and> up (wld b') \<and> lists_wf (view (wld b'))
     \<and> stored (view (wld b')) = stored (view (wld b)) \<and> MuxStat b' = MuxStat b"
proof (cases "waiting (view (wld b))")
  case Nil
  then show ?thesis using retry_turn_idle [OF assms(1) Nil] assms(2) retry_turn_MuxStat by fastforce
next
  case (Cons j js)
  have "wf_job j" using assms(2) Cons by (simp add: lists_wf_def)
  then obtain w1 b' where b': "Mux_retry_turn env m False b = Ret (Again, b')" "up (wld b')"
    "view (wld b') = retry_effect (unix env w1) j js (view (wld b))"
    using retry_turn_effect [OF assms(1) Cons] by blast
  then show ?thesis
    using retry_effect_wf [OF assms(2) Cons clock] retry_effect_stored [OF Cons] retry_turn_MuxStat by metis
qed

lemma run_turns_conserves:
  assumes "up (wld b)" "lists_wf (view (wld b))"
    and tc: "topic_conf conf (mux_queue m) (mux_topic m) = Some tc" "in_i64 (tc_RetryTime tc)"
    and ne: "mux_queue m \<noteq> []" "mux_topic m \<noteq> []"
    and "length (ms_itemChan (MuxStat b)) + length as \<le> MuxStatsChannelBuff"
  shows "\<exists>b'. run_turns env conf m as b = Ret b' \<and> up (wld b') \<and> lists_wf (view (wld b'))
     \<and> stored (view (wld b')) + delivered (MuxStat b') = stored (view (wld b)) + delivered (MuxStat b)"
  using assms(1,2,7)
proof (induction "as" arbitrary: b)
  case (Cons a "as")
  show ?case
  proof (cases a)
    case Worker
    obtain tn b1 where b1: "Mux_worker_turn env conf m False b = Ret (tn, b1)" "up (wld b1)" "lists_wf (view (wld b1))"
      "stored (view (wld b1)) + delivered (MuxStat b1) = stored (view (wld b)) + delivered (MuxStat b)"
      "length (ms_itemChan (MuxStat b1)) \<le> Suc (length (ms_itemChan (MuxStat b)))"
      using worker_turn_conserves [OF Cons.prems(1,2) tc ne] Cons.prems(3) by auto
    then show ?thesis using Cons.IH [OF b1(2,3)] Cons.prems(3) Worker by auto
  next
    case Retrier
    obtain tn b1 where b1: "Mux_retry_turn env m False b = Ret (tn, b1)" "up (wld b1)" "lists_wf (view (wld b1))"
      "stored (view (wld b1)) = stored (view (wld b))" "MuxStat b1 = MuxStat b"
      using retry_turn_conserves [OF Cons.prems(1,2)] by blast
    then show ?thesis using Cons.IH [OF b1(2,3)] Cons.prems(3) Retrier by auto
  qed
qed simp

end

subsection \<open>What every sequence of turns keeps\<close>

context served_topic
begin

text \<open>
  A property of the lists and the statistics that both kinds of turn keep, for the responses the remote side can give,
  holds after every sequence of turns.
\<close>

lemma run_turns_keeps:
  assumes "up (wld b)" "lists_wf (view (wld b))" "P (view (wld b)) (MuxStat b)"
    and tc: "topic_conf conf (mux_queue m) (mux_topic m) = Some tc" "in_i64 (tc_RetryTime tc)"
    and resp: "\<And>jobs w. R (sent (fst (rs_SendJobs (mux_sender m) jobs w)))"
    and worker: "\<And>ls st j js now resp d. P ls st \<Longrightarrow> R resp \<Longrightarrow> running ls = j # js \<Longrightarrow>
          P (worker_effect tc now j js resp ls) (worker_stat m resp d st)"
    and retry: "\<And>ls st j js now. P ls st \<Longrightarrow> waiting ls = j # js \<Longrightarrow> P (retry_effect now j js ls) st"
  shows "\<exists>b'. run_turns env conf m as b = Ret b' \<and> up (wld b') \<and> lists_wf (view (wld b')) \<and> P (view (wld b')) (MuxStat b')"
  using assms(1-3)
proof (induction "as" arbitrary: b)
  case (Cons a "as")
  have next_turn: ?case
    if "(case a of Worker \<Rightarrow> Mux_worker_turn env conf m False b | Retrier \<Rightarrow> Mux_retry_turn env m False b) = Ret (tn, b1)"
      "up (wld b1)" "lists_wf (view (wld b1))" "P (view (wld b1)) (MuxStat b1)" for tn b1
    using that Cons.IH [OF that(2-4)] by (cases a) auto
  show ?case
  proof (cases a)
    case Worker
    show ?thesis
    proof (cases "running (view (wld b))")
      case Nil
      then show ?thesis using worker_turn_idle [OF Cons.prems(1) Nil, of conf] Cons.prems next_turn Worker by fastforce
    next
      case (Cons j js)
      have "wf_job j" using Cons.prems(2) \<open>running (view (wld b)) = j # js\<close> by (simp add: lists_wf_def)
      then obtain w1 r b1 jobs w2 d where b1: "Mux_worker_turn env conf m False b = Ret (turn_after (sent r), b1)" "up (wld b1)"
        "view (wld b1) = worker_effect tc (unix env w1) j js (sent r) (view (wld b))"
        "rs_SendJobs (mux_sender m) jobs w1 = (r, w2)" "MuxStat b1 = worker_stat m (sent r) d (MuxStat b)"
        using worker_turn_effect [OF Cons.prems(1) \<open>running (view (wld b)) = j # js\<close> _ tc] by blast
      show ?thesis
        using next_turn [of "turn_after (sent r)" b1] b1 Worker worker_effect_wf [OF Cons.prems(2) \<open>running _ = _\<close> clock tc(2)]
          worker [OF Cons.prems(3) _ \<open>running _ = _\<close>] resp [of jobs w1] by simp
    qed
  next
    case Retrier
    show ?thesis
    proof (cases "waiting (view (wld b))")
      case Nil
      then show ?thesis using retry_turn_idle [OF Cons.prems(1) Nil] retry_turn_MuxStat [of False b] Cons.prems next_turn Retrier by fastforce
    next
      case (Cons j js)
      have "wf_job j" using Cons.prems(2) \<open>waiting (view (wld b)) = j # js\<close> by (simp add: lists_wf_def)
      then obtain w1 b1 where b1: "Mux_retry_turn env m False b = Ret (Again, b1)" "up (wld b1)"
        "view (wld b1) = retry_effect (unix env w1) j js (view (wld b))"
        using retry_turn_effect [OF Cons.prems(1) \<open>waiting (view (wld b)) = j # js\<close>] by blast
      show ?thesis
        using next_turn [of Again b1] b1 Retrier retry_effect_wf [OF Cons.prems(2) \<open>waiting _ = _\<close> clock]
          retry [OF Cons.prems(3) \<open>waiting _ = _\<close>] retry_turn_MuxStat [OF b1(1)] by simp
    qed
  qed
qed simp

end

text \<open>Every job of a topic whose jobs were all fresh once has the fields its number of deliveries gives it.\<close>

definition alive :: "TopicConfig \<Rightarrow> topic_lists \<Rightarrow> bool" where
  "alive tc ls \<longleftrightarrow>
     (\<forall>j \<in> set (running ls). life_inv tc (AtRun, j)) \<and> (\<forall>j \<in> set (waiting ls). life_inv tc (AtWait, j))
     \<and> (\<forall>j \<in> set (expired ls). life_inv tc (AtExpired, j))"

definition fresh_topic :: "topic_lists \<Rightarrow> bool" where
  "fresh_topic ls \<longleftrightarrow> (\<forall>j \<in> set (running ls). fresh_job j) \<and> waiting ls = [] \<and> expired ls = []"

lemma fresh_alive: "fresh_topic ls \<Longrightarrow> alive tc ls"
  by (simp add: fresh_topic_def alive_def life_inv_unfold)

lemma alive_bounded:
  "alive tc ls \<Longrightarrow> j \<in> set (running ls @ waiting ls @ expired ls) \<Longrightarrow> 3 \<le> RetryTimes j \<Longrightarrow>
   15 * ((RetryTimes j - 2) * (RetryTimes j - 3)) < tc_RetryTime tc"
  by (auto simp: alive_def intro: deliveries_bounded)

lemma worker_effect_alive:
  assumes "0 \<le> tc_RetryTime tc" "tc_RetryTime tc < 2 ^ 60" "alive tc ls" "running ls = j # js"
  shows "alive tc (worker_effect tc now j js resp ls)"
  using assms(3,4) life_inv_step [OF fails _ assms(1,2), of j now] by (auto simp: alive_def worker_effect_def)

lemma retry_effect_alive:
  assumes "0 \<le> tc_RetryTime tc" "tc_RetryTime tc < 2 ^ 60" "alive tc ls" "waiting ls = j # js"
  shows "alive tc (retry_effect now j js ls)"
proof -
  have inv: "life_inv tc (AtWait, j)" using assms(3,4) by (simp add: alive_def)
  show ?thesis
  proof (cases "retry_verdict now j")
    case (Requeue dur)
    then show ?thesis using life_inv_step [OF requeues [OF Requeue] inv assms(1,2)] assms(3,4)
      by (auto simp: alive_def retry_effect_def)
  next
    case Postpone
    then show ?thesis using life_inv_step [OF postpones [OF Postpone] inv assms(1,2)] assms(3,4)
      by (auto simp: alive_def retry_effect_def)
  next
    case Expire
    then show ?thesis using life_inv_step [OF expires [OF Expire] inv assms(1,2)] assms(3,4)
      by (auto simp: alive_def retry_effect_def)
  qed
qed

text \<open>What a job is: its id, its trace and its content. No turn changes it, and no job gets a second copy.\<close>

definition all_jobs :: "topic_lists \<Rightarrow> Job list" where
  "all_jobs ls = running ls @ waiting ls @ expired ls"

definition same_job :: "Job \<Rightarrow> Job \<Rightarrow> bool" where
  "same_job j j' \<longleftrightarrow> JobId j = JobId j' \<and> InTraceId j = InTraceId j' \<and> Content j = Content j'"

definition from_jobs :: "Job list \<Rightarrow> topic_lists \<Rightarrow> bool" where
  "from_jobs js0 ls \<longleftrightarrow> distinct (map JobId (all_jobs ls)) \<and> (\<forall>j \<in> set (all_jobs ls). \<exists>j0 \<in> set js0. same_job j j0)"

lemma same_job_turns [simp]:
  "same_job (bump True (prepare_job tc now j)) j0 = same_job j j0" "same_job (retry_mark now j) j0 = same_job j j0"
  "JobId (bump True (prepare_job tc now j)) = JobId j" "JobId (retry_mark now j) = JobId j"
  by (auto simp: same_job_def bump_def prepare_job_def retry_mark_def Let_def split: retry_verdict.split)

lemma worker_effect_from: "from_jobs js0 ls \<Longrightarrow> running ls = j # js \<Longrightarrow> from_jobs js0 (worker_effect tc now j js resp ls)"
  by (auto simp: from_jobs_def all_jobs_def worker_effect_def)

lemma retry_effect_from: "from_jobs js0 ls \<Longrightarrow> waiting ls = j # js \<Longrightarrow> from_jobs js0 (retry_effect now j js ls)"
  by (auto simp: from_jobs_def all_jobs_def retry_effect_def split: retry_verdict.split)

text \<open>The deliveries of the jobs of a topic, as the jobs count them.\<close>

definition attempts :: "topic_lists \<Rightarrow> int" where
  "attempts ls = sum_list (map RetryTimes (all_jobs ls))"

lemma fresh_attempts: "fresh_topic ls \<Longrightarrow> attempts ls = 0"
proof -
  have "(\<forall>j \<in> set js. fresh_job j) \<Longrightarrow> sum_list (map RetryTimes js) = 0" for js
    by (induction js) (auto simp: fresh_job_def)
  then show "fresh_topic ls \<Longrightarrow> attempts ls = 0" by (simp add: attempts_def all_jobs_def fresh_topic_def)
qed

lemma worker_effect_attempts:
  assumes "alive tc ls" "tc_RetryTime tc < 2 ^ 60" "running ls = j # js" "Code resp \<noteq> ResponseSuccess"
  shows "attempts (worker_effect tc now j js resp ls) = attempts ls + 1"
proof -
  have "life_inv tc (AtRun, j)" using assms(1,3) by (simp add: alive_def)
  then have "RetryTimes j = 0 \<or> (1 \<le> RetryTimes j \<and> RetryTimes j < 2 ^ 31)"
    using residue_pos_small [OF _ _ assms(2)] by (auto simp: life_inv_unfold fresh_job_def)
  then have "i64 (RetryTimes j + 1) = RetryTimes j + 1" by (intro i64_id) (auto simp: in_i64_def)
  then show ?thesis using assms(3,4) by (simp add: attempts_def all_jobs_def worker_effect_def prepare_fields)
qed

lemma retry_effect_attempts: "waiting ls = j # js \<Longrightarrow> attempts (retry_effect now j js ls) = attempts ls"
  by (simp add: attempts_def all_jobs_def retry_effect_def retry_mark_fields split: retry_verdict.split)

context served_topic
begin

lemma run_turns_from:
  assumes "up (wld b)" "lists_wf (view (wld b))" "from_jobs js0 (view (wld b))"
    and "topic_conf conf (mux_queue m) (mux_topic m) = Some tc" "in_i64 (tc_RetryTime tc)"
  shows "\<exists>b'. run_turns env conf m as b = Ret b' \<and> from_jobs js0 (view (wld b'))"
  using run_turns_keeps [where P = "\<lambda>ls st. from_jobs js0 ls" and R = "\<lambda>resp. True", OF assms] worker_effect_from retry_effect_from by blast

lemma run_turns_alive:
  assumes "up (wld b)" "lists_wf (view (wld b))" "alive tc (view (wld b))"
    and "topic_conf conf (mux_queue m) (mux_topic m) = Some tc" "0 \<le> tc_RetryTime tc" "tc_RetryTime tc < 2 ^ 60"
  shows "\<exists>b'. run_turns env conf m as b = Ret b' \<and> up (wld b') \<and> lists_wf (view (wld b')) \<and> alive tc (view (wld b'))"
proof -
  have "in_i64 (tc_RetryTime tc)" using assms(5,6) by (simp add: in_i64_def)
  then show ?thesis
    using run_turns_keeps [where P = "\<lambda>ls st. alive tc ls" and R = "\<lambda>resp. True", OF assms(1-4)]
      worker_effect_alive [OF assms(5,6)] retry_effect_alive [OF assms(5,6)] by blast
qed

text \<open>With a remote side that never succeeds, the statistics get an item for every delivery the jobs count.\<close>

lemma run_turns_attempts:
  assumes "up (wld b)" "lists_wf (view (wld b))" "fresh_topic (view (wld b))"
    and "topic_conf conf (mux_queue m) (mux_topic m) = Some tc" "0 \<le> tc_RetryTime tc" "tc_RetryTime tc < 2 ^ 60"
    and names: "mux_queue m \<noteq> []" "mux_topic m \<noteq> []"
    and "length (ms_itemChan (MuxStat b)) \<le> MuxStatsChannelBuff"
    and fail: "\<And>jobs w. Code (sent (fst (rs_SendJobs (mux_sender m) jobs w))) \<noteq> ResponseSuccess"
    and run: "run_turns env conf m as b = Ret b'"
  shows "int (length (ms_itemChan (MuxStat b')))
       = min (int MuxStatsChannelBuff) (int (length (ms_itemChan (MuxStat b))) + attempts (view (wld b')))"
proof -
  let ?n = "int (length (ms_itemChan (MuxStat b)))"
  define P :: "topic_lists \<Rightarrow> MuxStats \<Rightarrow> bool" where "P ls st \<longleftrightarrow> alive tc ls \<and> int (length (ms_itemChan st)) = min (int MuxStatsChannelBuff) (?n + attempts ls)" for ls st
  have tc: "in_i64 (tc_RetryTime tc)" using assms(5,6) by (simp add: in_i64_def)
  have init: "P (view (wld b)) (MuxStat b)" using fresh_alive [OF assms(3)] fresh_attempts [OF assms(3)] assms(9) by (simp add: P_def)
  have worker: "P (worker_effect tc now j js resp ls) (worker_stat m resp d st)"
    if "P ls st" "Code resp \<noteq> ResponseSuccess" "running ls = j # js" for ls st j js now resp d
    using that worker_effect_alive [OF assms(5,6)] worker_effect_attempts [OF _ assms(6)] names
    by (auto simp: P_def worker_stat_def MuxStats_Add_def)
  have retry: "P (retry_effect now j js ls) st" if "P ls st" "waiting ls = j # js" for ls st j js now
    using that retry_effect_alive [OF assms(5,6)] by (simp add: P_def retry_effect_attempts)
  show ?thesis
    using run_turns_keeps [where P = P and R = "\<lambda>resp. Code resp \<noteq> ResponseSuccess", OF assms(1,2) init assms(4) tc fail worker retry, of "as"] run
    by (simp add: P_def)
qed

text \<open>A waiting job whose time has come leaves the retry list.\<close>

lemma retry_turn_due:
  assumes "up (wld b)" "alive tc (view (wld b))" "waiting (view (wld b)) = j # js" "wf_job j"
    and "0 \<le> tc_RetryTime tc" "tc_RetryTime tc < 2 ^ 60"
    and "Mux_GetJobsFromQueue env m (mux_queue m) (mux_topic m) RetryQueue b = Ret (r, b1)"
    and "0 < RetryTime j" "RetryTime j \<le> 2 ^ 61" "RetryTime j + 30 * (RetryTimes j - 1) \<le> unix env (wld b1)"
  shows "\<exists>j' b'. Mux_retry_turn env m False b = Ret (Again, b') \<and> up (wld b') \<and> same_job j' j
     \<and> view (wld b') = (if IsRetry j \<and> 0 < RetryResidueTime j
          then (view (wld b))\<lparr>waiting := js, running := running (view (wld b)) @ [j']\<rparr>
          else (view (wld b))\<lparr>waiting := js, expired := expired (view (wld b)) @ [j']\<rparr>)"
proof -
  let ?now = "unix env (wld b1)"
  have inv: "life_inv tc (AtWait, j)" using assms(2,3) by (simp add: alive_def)
  have np: "retry_verdict ?now j \<noteq> Postpone" by (rule not_postponed [OF inv assms(5,6,8-10)])
  then have v: "(case retry_verdict ?now j of Expire \<Rightarrow> False | _ \<Rightarrow> True) \<longleftrightarrow> IsRetry j \<and> 0 < RetryResidueTime j"
    by (auto simp: retry_verdict_def Let_def)
  obtain b' where "Mux_retry_turn env m False b = Ret (Again, b')" "up (wld b')"
    "view (wld b') = retry_effect ?now j js (view (wld b))"
    using retry_turn_effect_at [OF assms(1,3,4)] assms(7) by auto
  moreover have "same_job (retry_mark ?now j) j" by (simp add: same_job_turns(2)) (simp add: same_job_def)
  ultimately show ?thesis using np v
    by (intro exI [of _ "retry_mark ?now j"] exI [of _ b']) (auto simp: retry_effect_def split: retry_verdict.splits)
qed

end

subsection \<open>Pinging\<close>

text \<open>The waiting times double from three seconds and stay at a minute.\<close>

lemma ping_backoff_bounds: "3 \<le> d \<Longrightarrow> d \<le> 60 \<Longrightarrow> 3 \<le> ping_backoff d \<and> ping_backoff d \<le> 60 \<and> d \<le> ping_backoff d"
  by (simp add: ping_backoff_def PingSleepDurationMax_def)

text \<open>The world after \<open>n\<close> failed pings.\<close>

fun pinged :: "('w \<Rightarrow> string option \<times> 'w) \<Rightarrow> nat \<Rightarrow> 'w \<Rightarrow> 'w" where
  "pinged ping 0 w = w"
| "pinged ping (Suc n) w = pinged ping n (snd (ping w))"

lemma loopPing_stops:
  assumes "\<forall>i < n. \<not> isDone (pinged ping i w) \<and> fst (ping (pinged ping i w)) \<noteq> None"
    and "isDone (pinged ping n w) \<or> fst (ping (pinged ping n w)) = None"
    and "3 \<le> d" "d \<le> 60"
  shows "\<exists>ss w'. loopPing ping isDone d sleeps w = Some (ss @ sleeps, w') \<and> length ss = n
     \<and> (\<forall>s \<in> set ss. d \<le> s \<and> s \<le> 60) \<and> sorted (rev ss)"
  using assms
proof (induction n arbitrary: d sleeps w)
  case 0
  then show ?case by (subst loopPing.simps) (auto split: prod.splits option.splits)
next
  case (Suc n)
  obtain e w1 where p: "ping w = (Some e, w1)" "\<not> isDone w" using Suc.prems(1) by (cases "ping w") auto
  have bd: "3 \<le> ping_backoff d" "ping_backoff d \<le> 60" "d \<le> ping_backoff d"
    using ping_backoff_bounds [OF Suc.prems(3,4)] by simp_all
  have shift: "pinged ping (Suc i) w = pinged ping i w1" for i using p(1) by simp
  have c: "\<forall>i < n. \<not> isDone (pinged ping i w1) \<and> fst (ping (pinged ping i w1)) \<noteq> None"
    "isDone (pinged ping n w1) \<or> fst (ping (pinged ping n w1)) = None"
    using Suc.prems(1,2) shift by (metis Suc_less_eq)+
  obtain ss w' where ss: "loopPing ping isDone (ping_backoff d) (d # sleeps) w1 = Some (ss @ d # sleeps, w')" "length ss = n"
    "\<forall>s \<in> set ss. ping_backoff d \<le> s \<and> s \<le> 60" "sorted (rev ss)"
    using Suc.IH [OF c bd(1,2), of "d # sleeps"] by blast
  have "loopPing ping isDone d sleeps w = Some ((ss @ [d]) @ sleeps, w')"
    using ss(1) p by (subst loopPing.simps) simp
  moreover have "\<forall>s \<in> set (ss @ [d]). d \<le> s \<and> s \<le> 60" using ss(3) bd Suc.prems(4) by auto
  ultimately show ?case using ss(2,4) bd(3) by (intro exI [of _ "ss @ [d]"] exI [of _ w']) auto
qed

end
