(* ===== verification/HttpWorker.thy ===== *)
theory HttpWorker
  imports Mux
begin

text \<open>
  The worker of a topic served over HTTP (\<open>http_worker.go\<close>): the request it builds and its turns. The loop
  of \<open>Serve\<close> that starts its goroutines is in \<open>HttpServe\<close>.

  The HTTP client is a parameter \<open>client_do\<close>: a request and the state of the world give a transport
  error or a response. The lemmas show that the turns, translated from their own source, do to the bus what those of
  the CGI worker of \<open>Mux\<close> do, and that the counter of busy goroutines is one higher while a job is on its way.
\<close>

subsection \<open>The request\<close>

type_synonym url_Values = "(string, string list) gomap"

definition Values_Add :: "url_Values \<Rightarrow> string \<Rightarrow> string \<Rightarrow> url_Values" where
  "Values_Add v k x = AList.update k ((case map_of v k of None \<Rightarrow> [] | Some xs \<Rightarrow> xs) @ [x]) v"

lemma fold_Values_Add:
  "map_of (fold (\<lambda>(k, x) m. Values_Add m k x) ps m) k =
     (if filter (\<lambda>p. fst p = k) ps = [] then map_of m k
      else Some ((case map_of m k of None \<Rightarrow> [] | Some xs \<Rightarrow> xs) @ map snd (filter (\<lambda>p. fst p = k) ps)))"
proof (induction ps arbitrary: m)
  case (Cons p ps)
  obtain k' x where p: "p = (k', x)" by (cases p)
  show ?case by (simp add: p Cons.IH [of "Values_Add m k' x"]) (simp add: Values_Add_def)
qed simp

definition hex_digit :: "nat \<Rightarrow> char" where
  "hex_digit d = (if d < 10 then char_of (48 + d) else char_of (55 + d))"

definition unreserved :: "char \<Rightarrow> bool" where
  "unreserved c \<longleftrightarrow> (let n = (of_char c :: nat) in
     (48 \<le> n \<and> n \<le> 57) \<or> (65 \<le> n \<and> n \<le> 90) \<or> (97 \<le> n \<and> n \<le> 122)
     \<or> c = CHR ''-'' \<or> c = CHR ''_'' \<or> c = CHR ''.'' \<or> c = CHR ''~'')"

fun QueryEscape :: "string \<Rightarrow> string" where
  "QueryEscape [] = []"
| "QueryEscape (c # s) =
     (if unreserved c then c # QueryEscape s
      else if c = CHR '' '' then CHR ''+'' # QueryEscape s
      else CHR ''%'' # hex_digit (of_char c div 16) # hex_digit (of_char c mod 16) # QueryEscape s)"

definition str_le :: "string \<Rightarrow> string \<Rightarrow> bool" where
  "str_le a b \<longleftrightarrow> (map of_char a, map of_char b) \<in> lexord {(x, y :: nat). x < y} \<or> a = b"

fun insert_key :: "string \<Rightarrow> string list \<Rightarrow> string list" where
  "insert_key k [] = [k]"
| "insert_key k (x # xs) = (if str_le k x then k # x # xs else x # insert_key k xs)"

definition Values_Encode :: "url_Values \<Rightarrow> string" where
  "Values_Encode v =
     strings_Join
       (concat (map (\<lambda>k. map (\<lambda>x. QueryEscape k @ ''='' @ QueryEscape x)
                          (case map_of v k of None \<Rightarrow> [] | Some xs \<Rightarrow> xs))
                    (fold insert_key (map fst v) [])))
       ''&''"

definition RequestTypePing :: string where "RequestTypePing = ''ping''"
definition RequestTypeData :: string where "RequestTypeData = ''data''"

text \<open>\<open>json.Marshal(jobs.Slice)\<close>.\<close>

definition jobs_json :: "Jobs \<Rightarrow> string" where
  "jobs_json jobs = json_marshal (JArr (map Job_json (Slice jobs)))"

record http_request =
  hr_path :: string
  hr_Host :: "string option" \<comment> \<open>set from the topic's configuration\<close>
  hr_Header :: "(string, string) gomap"
  hr_body :: string

record http_response =
  ht_Header :: "(string, string) gomap"
  ht_Body :: "string + string" \<comment> \<open>the error of reading it, or the body\<close>

definition Header_Get :: "http_response \<Rightarrow> string \<Rightarrow> string" where
  "Header_Get resp k = (case map_of (ht_Header resp) k of None \<Rightarrow> [] | Some v \<Rightarrow> v)"

type_synonym 'w client_do = "http_request \<Rightarrow> 'w \<Rightarrow> (string + http_response) \<times> 'w"

record HttpClientsManager =
  hcm_Topic :: TopicConfig
  hcm_path :: string

text \<open>
  \<open>hc["host"]\<close> after decoding the topic's \<open>HttpConfig\<close> into a map of strings: an entry of another type
  is an error, null is the empty string.
\<close>

fun string_entries :: "(string \<times> json) list \<Rightarrow> (string, string) gomap \<Rightarrow> (string, string) gomap option" where
  "string_entries [] m = Some m"
| "string_entries ((k, JStr s) # r) m = string_entries r (AList.update k s m)"
| "string_entries ((k, JNull) # r) m = string_entries r (AList.update k [] m)"
| "string_entries (_ # r) m = None"

definition decode_string_map :: "string \<Rightarrow> (string, string) gomap option" where
  "decode_string_map text =
     (case json_parse text of
        Some (JObj kvs) \<Rightarrow> string_entries kvs []
      | Some JNull \<Rightarrow> Some []
      | _ \<Rightarrow> None)"

definition hcm_request ::
  "(string \<Rightarrow> bool) \<Rightarrow> 'w client_do \<Rightarrow> HttpClientsManager \<Rightarrow> string \<Rightarrow> url_Values \<Rightarrow> 'w \<Rightarrow>
   (string + WorkerResponse) \<times> 'w" where
  "hcm_request path_ok client_do hcm path vals w =
     (let vals1 = Values_Add vals ''IS_PEPPER_BUS_REQUEST'' ''true'' in
      if \<not> path_ok path then (Inl ''http.NewRequest'', w)
      else
        (let host = (if tc_HttpConfig (hcm_Topic hcm) \<noteq> [] then
                       (case decode_string_map (tc_HttpConfig (hcm_Topic hcm)) of
                          None \<Rightarrow> None
                        | Some hc \<Rightarrow> Some (Some (case map_of hc ''host'' of None \<Rightarrow> [] | Some h \<Rightarrow> h)))
                     else Some None)
         in case host of
              None \<Rightarrow> (Inl ''json.Unmarshal'', w)
            | Some h \<Rightarrow>
                (case client_do \<lparr>hr_path = path, hr_Host = h,
                        hr_Header = [(''Content-Type'', ''application/x-www-form-urlencoded''),
                                     (''IS-PEPPER-BUS-REQUEST'', ''true'')],
                        hr_body = Values_Encode vals1\<rparr> w of
                   (Inl err, w') \<Rightarrow> (Inl err, w')
                 | (Inr resp, w') \<Rightarrow>
                     (let code = (if Header_Get resp ''Code'' = [] then InnerError else Header_Get resp ''Code'')
                      in case ht_Body resp of
                           Inl err \<Rightarrow> (Inl err, w')
                         | Inr body \<Rightarrow>
                             (Inr \<lparr>Code = code, ErrorCode = Header_Get resp ''Error-Code'',
                                    ConsumeTopics = Header_Get resp ''Consume-Topics'', Msg = body\<rparr>, w')))))"

definition hcm_SendPing ::
  "(string \<Rightarrow> bool) \<Rightarrow> 'w client_do \<Rightarrow> HttpClientsManager \<Rightarrow> 'w \<Rightarrow> (string + WorkerResponse) \<times> 'w" where
  "hcm_SendPing path_ok client_do hcm w =
     hcm_request path_ok client_do hcm (hcm_path hcm) [(''type'', [RequestTypePing])] w"

definition hcm_SendJobs ::
  "(string \<Rightarrow> bool) \<Rightarrow> 'w client_do \<Rightarrow> HttpClientsManager \<Rightarrow> Jobs \<Rightarrow> 'w \<Rightarrow> (string + WorkerResponse) \<times> 'w" where
  "hcm_SendJobs path_ok client_do hcm jobs w =
     hcm_request path_ok client_do hcm (hcm_path hcm)
       [(''type'', [RequestTypeData]), (''outTraceId'', [outTraceId jobs]), (''jobs'', [jobs_json jobs]),
        (''queue'', [queueName jobs]), (''topic'', [topicName jobs])] w"

definition hcm_sender :: "(string \<Rightarrow> bool) \<Rightarrow> 'w client_do \<Rightarrow> HttpClientsManager \<Rightarrow> 'w RemoteSender" where
  "hcm_sender path_ok client_do hcm =
     \<lparr>rs_SendPing = hcm_SendPing path_ok client_do hcm, rs_SendJobs = hcm_SendJobs path_ok client_do hcm\<rparr>"

subsection \<open>The worker\<close>

record 'w HttpWorker =
  hw_queue :: QueueName
  hw_topic :: TopicName
  hw_storager :: storage
  numOfChildren :: int
  hw_sender :: "'w RemoteSender"

definition NewHttpWorker :: "QueueName \<Rightarrow> TopicName \<Rightarrow> int \<Rightarrow> storage \<Rightarrow> 'w RemoteSender \<Rightarrow> 'w HttpWorker" where
  "NewHttpWorker qn tn n s sndr =
     \<lparr>hw_queue = qn, hw_topic = tn, hw_storager = s, numOfChildren = n, hw_sender = sndr\<rparr>"

definition HttpWorker_GetJobsFromQueue ::
  "('w, 'g) env \<Rightarrow> 'w HttpWorker \<Rightarrow> QueueName \<Rightarrow> TopicName \<Rightarrow> QueueTyp \<Rightarrow> ('w, 'g) bus \<Rightarrow>
   (Jobs option res \<times> ('w, 'g) bus) go" where
  "HttpWorker_GetJobsFromQueue env hw q t typ b =
     go_bind (GetJobsFromQueue (e_redis env) (e_gen env) (e_ServiceId env) (hw_storager hw) q t typ (ids b) (wld b))
       (\<lambda>(r, g, w). Ret (r, b\<lparr>wld := w, ids := g\<rparr>))"

definition HttpWorker_AddJobs ::
  "('w, 'g) env \<Rightarrow> 'w HttpWorker \<Rightarrow> Jobs \<Rightarrow> QueueTyp \<Rightarrow> ('w, 'g) bus \<Rightarrow> (string option \<times> Jobs \<times> ('w, 'g) bus) go" where
  "HttpWorker_AddJobs env hw jobs typ b = bus_AddQueue env (hw_storager hw) jobs typ b"

text \<open>The ping only looks at the body, unlike the ping of the CGI worker.\<close>

definition HttpWorker_SendPing :: "'w HttpWorker \<Rightarrow> 'w \<Rightarrow> string option \<times> 'w" where
  "HttpWorker_SendPing hw w =
     (case rs_SendPing (hw_sender hw) w of
        (Inl err, w') \<Rightarrow> (Some err, w')
      | (Inr resp, w') \<Rightarrow>
          if \<not> IsSuccess resp then (Some (WorkerResponse_String resp), w')
          else
            (let queueTopic = strings_Split (Msg resp) '',''
             in if InArray (hw_queue hw @ ''/'' @ hw_topic hw) queueTopic then (None, w')
                else (Some (''topic no register: '' @ hw_queue hw @ ''/'' @ hw_topic hw @ '' response is ''
                              @ ''['' @ strings_Join queueTopic '' '' @ '']''), w')))"

definition HttpWorker_SendJobs :: "'w HttpWorker \<Rightarrow> Jobs \<Rightarrow> 'w \<Rightarrow> WorkerResponse \<times> 'w" where
  "HttpWorker_SendJobs hw jobs w = (case rs_SendJobs (hw_sender hw) jobs w of (r, w') \<Rightarrow> (sent r, w'))"

definition HttpWorker_loopPing :: "'w HttpWorker \<Rightarrow> ('w \<Rightarrow> bool) \<Rightarrow> 'w \<Rightarrow> (int list \<times> 'w) option" where
  "HttpWorker_loopPing hw isDone w = loopPing (HttpWorker_SendPing hw) isDone PingSleepDuration [] w"

definition HttpWorker_sendToRetryQueue ::
  "('w, 'g) env \<Rightarrow> 'w HttpWorker \<Rightarrow> Jobs \<Rightarrow> ('w, 'g) bus \<Rightarrow> (string option \<times> Jobs \<times> ('w, 'g) bus) go" where
  "HttpWorker_sendToRetryQueue env hw jobs b = bus_AddQueue env (hw_storager hw) jobs RetryQueue b"

definition HttpWorker_sendToTimeoutQueue ::
  "('w, 'g) env \<Rightarrow> 'w HttpWorker \<Rightarrow> Jobs \<Rightarrow> ('w, 'g) bus \<Rightarrow> (string option \<times> Jobs \<times> ('w, 'g) bus) go" where
  "HttpWorker_sendToTimeoutQueue env hw jobs b = bus_AddQueue env (hw_storager hw) jobs TimeoutQueue b"

subsection \<open>A turn of a delivering goroutine\<close>

text \<open>
  A turn has two parts, because other goroutines read the counter \<open>numOfChildren\<close> while a job is on its
  way: taking a job raises the counter, the answer of the remote side lowers it again.
\<close>

fun HttpWorker_prepare :: "QueueConfs \<Rightarrow> 'w HttpWorker \<Rightarrow> int \<Rightarrow> Job list \<Rightarrow> Job list go" where
  "HttpWorker_prepare conf hw now [] = Ret []"
| "HttpWorker_prepare conf hw now (val # vs) =
     (case topic_conf conf (hw_queue hw) (hw_topic hw) of
        None \<Rightarrow> Panic
      | Some tc \<Rightarrow>
          (let val1 = val\<lparr>RetryTime := now\<rparr>;
               val2 = val1\<lparr>RetryTimes := i64 (RetryTimes val1 + 1)\<rparr>;
               val3 = val2\<lparr>IsRetry := tc_IsRetry tc\<rparr>;
               val4 = (if \<not> BeginRetry val3 then val3\<lparr>RetryResidueTime := tc_RetryTime tc\<rparr> else val3)
           in go_bind (HttpWorker_prepare conf hw now vs) (\<lambda>r. Ret (val4 # r))))"

text \<open>The job on its way and the time it was taken, or \<open>None\<close> when there was an error or no job.\<close>

definition HttpWorker_take ::
  "('w, 'g) env \<Rightarrow> QueueConfs \<Rightarrow> 'w HttpWorker \<Rightarrow> ('w, 'g) bus \<Rightarrow>
   ((Jobs \<times> int) option \<times> 'w HttpWorker \<times> ('w, 'g) bus) go" where
  "HttpWorker_take env conf hw b =
     go_bind (HttpWorker_GetJobsFromQueue env hw (hw_queue hw) (hw_topic hw) CommonQueue b) (\<lambda>((got, err), b1).
     case err of
       Some e \<Rightarrow> Ret (None, hw, b1)
     | None \<Rightarrow>
         (case got of
            None \<Rightarrow> Ret (None, hw, b1)
          | Some jobs \<Rightarrow>
              (let hw1 = hw\<lparr>numOfChildren := i64 (numOfChildren hw + 1)\<rparr>;
                   start = e_nanos env (wld b1)
               in go_bind (HttpWorker_prepare conf hw1 (start div 1000000000) (Slice jobs)) (\<lambda>vs.
                  Ret (Some (jobs\<lparr>Slice := vs\<rparr>, start), hw1, b1)))))"

definition HttpWorker_handle_response ::
  "('w, 'g) env \<Rightarrow> 'w HttpWorker \<Rightarrow> Jobs \<Rightarrow> WorkerResponse \<Rightarrow> ('w, 'g) bus \<Rightarrow> (turn \<times> ('w, 'g) bus) go" where
  "HttpWorker_handle_response env hw jobs resp b =
     (if Code resp = ResponseSuccess then Ret (Again, b)
      else if Code resp = ResponseNotFound then
        go_bind (HttpWorker_sendToRetryQueue env hw jobs b) (\<lambda>(_, _, b1). Ret (Begin, b1))
      else if Code resp = BadGateway then
        go_bind (HttpWorker_sendToRetryQueue env hw jobs b) (\<lambda>(_, jobs', b1).
        if strings_Contains (Msg resp) ''connection refused'' then Ret (Begin, b1)
        else go_bind (add_error env (hw_queue hw) (hw_topic hw) jobs' resp b1) (\<lambda>b2. Ret (Again, b2)))
      else
        go_bind (HttpWorker_sendToRetryQueue env hw jobs b) (\<lambda>(_, jobs', b1).
        go_bind (add_error env (hw_queue hw) (hw_topic hw) jobs' resp b1) (\<lambda>b2. Ret (Again, b2))))"

definition HttpWorker_deliver ::
  "('w, 'g) env \<Rightarrow> 'w HttpWorker \<Rightarrow> Jobs \<Rightarrow> int \<Rightarrow> ('w, 'g) bus \<Rightarrow> (turn \<times> 'w HttpWorker \<times> ('w, 'g) bus) go" where
  "HttpWorker_deliver env hw jobs start b =
     (let (resp, w1) = HttpWorker_SendJobs hw jobs (wld b);
          done = e_nanos env w1 - start;
          b1 = b\<lparr>wld := w1,
                 MuxStat := MuxStats_Add (MuxStat b) (hw_queue hw) (hw_topic hw) (Code resp = ResponseSuccess) done\<rparr>;
          hw1 = hw\<lparr>numOfChildren := i64 (numOfChildren hw - 1)\<rparr>
      in go_bind (HttpWorker_handle_response env hw1 jobs resp b1) (\<lambda>(t, b2). Ret (t, hw1, b2)))"

definition HttpWorker_worker_turn ::
  "('w, 'g) env \<Rightarrow> QueueConfs \<Rightarrow> 'w HttpWorker \<Rightarrow> bool \<Rightarrow> ('w, 'g) bus \<Rightarrow> (turn \<times> 'w HttpWorker \<times> ('w, 'g) bus) go" where
  "HttpWorker_worker_turn env conf hw isDone b =
     (if isDone then Ret (Return, hw, b)
      else go_bind (HttpWorker_take env conf hw b) (\<lambda>(got, hw1, b1).
           case got of
             None \<Rightarrow> Ret (Again, hw1, b1)
           | Some (jobs, start) \<Rightarrow> HttpWorker_deliver env hw1 jobs start b1))"

subsection \<open>A turn of the retry loop\<close>

text \<open>The loop \<open>for _, val := range jobsSlice\<close>: \<open>n\<close> jobs are left, from the index \<open>i\<close>.\<close>

fun HttpWorker_requeue ::
  "('w, 'g) env \<Rightarrow> 'w HttpWorker \<Rightarrow> int \<Rightarrow> nat \<Rightarrow> nat \<Rightarrow> Jobs \<Rightarrow> ('w, 'g) bus \<Rightarrow> ('w, 'g) bus go" where
  "HttpWorker_requeue env hw durTime 0 i jobs b = Ret b"
| "HttpWorker_requeue env hw durTime (Suc n) i jobs b =
     (let val = Slice jobs ! i;
          jobs1 = jobs\<lparr>Slice := (Slice jobs)[i := val\<lparr>RetryResidueTime := i64 (RetryResidueTime val - durTime)\<rparr>]\<rparr>
      in go_bind (HttpWorker_AddJobs env hw jobs1 CommonQueue b) (\<lambda>(_, jobs2, b1).
         HttpWorker_requeue env hw durTime n (Suc i) jobs2 b1))"

definition HttpWorker_retry_turn ::
  "('w, 'g) env \<Rightarrow> 'w HttpWorker \<Rightarrow> bool \<Rightarrow> ('w, 'g) bus \<Rightarrow> (turn \<times> ('w, 'g) bus) go" where
  "HttpWorker_retry_turn env hw isDone b =
     (if isDone then Ret (Return, b)
      else
        go_bind (HttpWorker_GetJobsFromQueue env hw (hw_queue hw) (hw_topic hw) RetryQueue b) (\<lambda>((got, err), b1).
        case err of
          Some e \<Rightarrow> Ret (Again, b1)
        | None \<Rightarrow>
            (case got of
               None \<Rightarrow> Ret (Again, b1)
             | Some jobs \<Rightarrow>
                 if length (Slice jobs) = 0 then Ret (Again, b1)
                 else
                   (let jobsSlice = map (\<lambda>job. job\<lparr>BeginRetry := True\<rparr>) (Slice jobs);
                        nowTime = unix env (wld b1)
                    in if IsRetry (jobsSlice ! 0) \<and> RetryResidueTime (jobsSlice ! 0) > 0 then
                         (let used = RetryTimes (jobsSlice ! 0);
                              durTime = i64 ((used - 1) * RetryDur);
                              jobsSlice1 = (if RetryTime (jobsSlice ! 0) = 0
                                            then jobsSlice[0 := (jobsSlice ! 0)\<lparr>RetryTime := nowTime\<rparr>] else jobsSlice);
                              nextTime = i64 (RetryTime (jobsSlice1 ! 0) + durTime);
                              jobs1 = jobs\<lparr>Slice := jobsSlice1\<rparr>
                          in if nowTime \<ge> nextTime
                             then go_bind (HttpWorker_requeue env hw durTime (length jobsSlice1) 0 jobs1 b1) (\<lambda>b2. Ret (Again, b2))
                             else go_bind (HttpWorker_sendToRetryQueue env hw jobs1 b1) (\<lambda>(_, _, b2). Ret (Again, b2)))
                       else go_bind (HttpWorker_sendToTimeoutQueue env hw (jobs\<lparr>Slice := jobsSlice\<rparr>) b1)
                              (\<lambda>(_, _, b2). Ret (Again, b2))))))"

subsection \<open>The same turns as the CGI worker\<close>

definition as_mux :: "'w HttpWorker \<Rightarrow> 'w Mux" where
  "as_mux hw = NewMux (hw_queue hw) (hw_topic hw) (hw_sender hw) (hw_storager hw) (nat (numOfChildren hw))"

lemma as_mux_simps [simp]:
  "mux_queue (as_mux hw) = hw_queue hw" "mux_topic (as_mux hw) = hw_topic hw"
  "mux_storager (as_mux hw) = hw_storager hw" "mux_sender (as_mux hw) = hw_sender hw"
  by (simp_all add: as_mux_def NewMux_def)

lemma HttpWorker_ops:
  "HttpWorker_GetJobsFromQueue env hw = Mux_GetJobsFromQueue env (as_mux hw)"
  "HttpWorker_SendJobs hw = Mux_SendJobs (as_mux hw)"
  "HttpWorker_handle_response env hw = handle_response env (as_mux hw)"
  unfolding fun_eq_iff HttpWorker_GetJobsFromQueue_def Mux_GetJobsFromQueue_def HttpWorker_SendJobs_def
    Mux_SendJobs_def HttpWorker_handle_response_def handle_response_def as_mux_simps sendToRetryQueue_def HttpWorker_sendToRetryQueue_def
  by blast+

lemma HttpWorker_prepare_jobs:
  "go_bind (HttpWorker_prepare conf hw now (Slice jobs)) (\<lambda>vs. Ret (jobs\<lparr>Slice := vs\<rparr>))
     = prepare_jobs (topic_conf conf (hw_queue hw) (hw_topic hw)) now jobs"
proof -
  have "HttpWorker_prepare conf hw now vs = (case topic_conf conf (hw_queue hw) (hw_topic hw) of
      None \<Rightarrow> if vs = [] then Ret [] else Panic | Some tc \<Rightarrow> Ret (map (prepare_job tc now) vs))" for vs
    by (induction vs) (auto simp: prepare_job_def Let_def split: option.split)
  then show ?thesis by (cases jobs) (auto simp: prepare_jobs_def split: option.split)
qed

lemma HttpWorker_counter [simp]:
  "HttpWorker_GetJobsFromQueue env (hw\<lparr>numOfChildren := n\<rparr>) = HttpWorker_GetJobsFromQueue env hw"
  "HttpWorker_SendJobs (hw\<lparr>numOfChildren := n\<rparr>) = HttpWorker_SendJobs hw"
  "HttpWorker_SendPing (hw\<lparr>numOfChildren := n\<rparr>) = HttpWorker_SendPing hw"
  "HttpWorker_handle_response env (hw\<lparr>numOfChildren := n\<rparr>) = HttpWorker_handle_response env hw"
  "HttpWorker_prepare conf (hw\<lparr>numOfChildren := n\<rparr>) = HttpWorker_prepare conf hw"
proof -
  have sel: "hw_queue (hw\<lparr>numOfChildren := n\<rparr>) = hw_queue hw" "hw_topic (hw\<lparr>numOfChildren := n\<rparr>) = hw_topic hw"
    "hw_storager (hw\<lparr>numOfChildren := n\<rparr>) = hw_storager hw" "hw_sender (hw\<lparr>numOfChildren := n\<rparr>) = hw_sender hw"
    by simp_all
  show "HttpWorker_GetJobsFromQueue env (hw\<lparr>numOfChildren := n\<rparr>) = HttpWorker_GetJobsFromQueue env hw"
    "HttpWorker_SendJobs (hw\<lparr>numOfChildren := n\<rparr>) = HttpWorker_SendJobs hw"
    "HttpWorker_SendPing (hw\<lparr>numOfChildren := n\<rparr>) = HttpWorker_SendPing hw"
    "HttpWorker_handle_response env (hw\<lparr>numOfChildren := n\<rparr>) = HttpWorker_handle_response env hw"
    unfolding fun_eq_iff HttpWorker_GetJobsFromQueue_def HttpWorker_SendJobs_def HttpWorker_SendPing_def
      HttpWorker_handle_response_def HttpWorker_sendToRetryQueue_def sel by blast+
  have "HttpWorker_prepare conf (hw\<lparr>numOfChildren := n\<rparr>) now vs = HttpWorker_prepare conf hw now vs" for now vs
    by (induction vs) (simp_all split: option.split)
  then show "HttpWorker_prepare conf (hw\<lparr>numOfChildren := n\<rparr>) = HttpWorker_prepare conf hw" by blast
qed

text \<open>Both worker turns, as one of the HTTP worker on a job that was taken.\<close>

lemma i64_up_down: "in_i64 n \<Longrightarrow> i64 (i64 (n + 1) - 1) = n"
  by (simp add: i64_def in_i64_def mod_simps)

lemma HttpWorker_worker_turn_Mux:
  assumes "in_i64 (numOfChildren hw)"
  shows "HttpWorker_worker_turn env conf hw d b = go_bind (Mux_worker_turn env conf (as_mux hw) d b) (\<lambda>(t, b'). Ret (t, hw, b'))"
proof (cases "d")
  case True
  then show ?thesis by (simp add: HttpWorker_worker_turn_def Mux_worker_turn_def)
next
  case False
  note turns = HttpWorker_worker_turn_def HttpWorker_take_def Mux_worker_turn_def
  show ?thesis
  proof (cases "HttpWorker_GetJobsFromQueue env hw (hw_queue hw) (hw_topic hw) CommonQueue b")
    case Panic
    moreover from this have "Mux_GetJobsFromQueue env (as_mux hw) (hw_queue hw) (hw_topic hw) CommonQueue b = Panic"
      by (simp add: HttpWorker_ops)
    ultimately show ?thesis using False by (simp add: turns)
  next
    case (Ret r)
    obtain got err b1 where r: "r = ((got, err), b1)" by (metis surj_pair)
    have got': "Mux_GetJobsFromQueue env (as_mux hw) (hw_queue hw) (hw_topic hw) CommonQueue b = Ret ((got, err), b1)"
      using Ret r by (simp add: HttpWorker_ops)
    show ?thesis
    proof (cases "err = None \<and> got \<noteq> None")
      case True
      then obtain jobs where g: "err = None" "got = Some jobs" by blast
      let ?now = "e_nanos env (wld b1) div 1000000000"
      note prep = HttpWorker_prepare_jobs [of conf hw ?now jobs, symmetric]
      show ?thesis
        using False Ret r g got' prep assms
        by (cases "HttpWorker_prepare conf hw ?now (Slice jobs)")
           (simp_all add: turns unix_def Let_def HttpWorker_deliver_def i64_up_down HttpWorker_ops [symmetric] case_prod_beta)
    next
      case none: False
      then show ?thesis using False Ret r got' by (cases err; cases got) (simp_all add: turns)
    qed
  qed
qed

lemma HttpWorker_requeue_loop:
  "HttpWorker_requeue env hw dur n i jobs b = requeue_loop env (hw_storager hw) dur [i..<i + n] jobs b"
proof (induction n arbitrary: i jobs b)
  case (Suc n)
  have "[i..<i + Suc n] = i # [Suc i..<Suc i + n]" by (subst upt_rec) simp
  then show ?case unfolding HttpWorker_requeue.simps Suc HttpWorker_AddJobs_def by (simp del: upt_Suc add_Suc add_Suc_right)
qed simp

lemma HttpWorker_retry_turn_Mux: "HttpWorker_retry_turn env hw d b = Mux_retry_turn env (as_mux hw) d b"
proof -
  have ret: "go_bind (go_bind r (\<lambda>(_, _, b2). Ret b2)) (\<lambda>b2. Ret (Again, b2)) = go_bind r (\<lambda>(_, _, b2). Ret (Again, b2))"
    for r :: "(string option \<times> Jobs \<times> ('a, 'b) bus) go"
    by (cases r) (simp_all split: prod.split)
  have body: "(if length (Slice jobs) = 0 then Ret (Again, b1)
       else
         (let jobsSlice = map (\<lambda>job. job\<lparr>BeginRetry := True\<rparr>) (Slice jobs); nowTime = unix env (wld b1)
          in if IsRetry (jobsSlice ! 0) \<and> RetryResidueTime (jobsSlice ! 0) > 0 then
               (let used = RetryTimes (jobsSlice ! 0); durTime = i64 ((used - 1) * RetryDur);
                    jobsSlice1 = (if RetryTime (jobsSlice ! 0) = 0
                                  then jobsSlice[0 := (jobsSlice ! 0)\<lparr>RetryTime := nowTime\<rparr>] else jobsSlice);
                    nextTime = i64 (RetryTime (jobsSlice1 ! 0) + durTime); jobs1 = jobs\<lparr>Slice := jobsSlice1\<rparr>
                in if nowTime \<ge> nextTime
                   then go_bind (HttpWorker_requeue env hw durTime (length jobsSlice1) 0 jobs1 b1) (\<lambda>b2. Ret (Again, b2))
                   else go_bind (HttpWorker_sendToRetryQueue env hw jobs1 b1) (\<lambda>(_, _, b2). Ret (Again, b2)))
             else go_bind (HttpWorker_sendToTimeoutQueue env hw (jobs\<lparr>Slice := jobsSlice\<rparr>) b1) (\<lambda>(_, _, b2). Ret (Again, b2))))
     = go_bind (retry_jobs env (hw_storager hw) jobs b1) (\<lambda>b2. Ret (Again, b2))" for jobs b1
    by (cases "Slice jobs")
       (simp_all add: retry_jobs_def HttpWorker_requeue_loop HttpWorker_sendToRetryQueue_def HttpWorker_sendToTimeoutQueue_def
          sendToRetryQueue_def sendToTimeoutQueue_def Let_def ret del: upt_Suc)
  show ?thesis unfolding HttpWorker_retry_turn_def Mux_retry_turn_def HttpWorker_ops as_mux_simps body
    by (auto split: go.split option.split prod.split)
qed

text \<open>A topic accepted by the ping of the HTTP worker is accepted by the ping of the CGI worker.\<close>

lemma InArray_set: "InArray v s \<longleftrightarrow> v \<in> set s"
  by (induction s) auto

lemma SendPing_weaker:
  "fst (HttpWorker_SendPing hw w) = None \<Longrightarrow> fst (Mux_SendPing (as_mux hw) w) = None"
  by (auto simp: HttpWorker_SendPing_def Mux_SendPing_def InArray_set Let_def split: prod.splits sum.splits if_splits)

end
