(* ===== verification/MuxServer.thy ===== *)
theory MuxServer
  imports HttpWorker
begin

text \<open>
  The registry of workers (\<open>mux_server.go\<close>): for every queue the workers of its topics, and the
  configuration they were created from. Changes arrive as commands on a channel that the loop
  \<open>Serve\<close> executes one after the other (\<open>Serve_turn\<close>); a send on the full channel blocks (\<open>None\<close>).

  A worker is represented by what the server keeps of it: its names, its storage, its kind, whether
  its \<open>Serve\<close> was started. \<open>closed\<close> collects the workers whose context was cancelled.

  The lemmas show the invariant between workers and configurations, the effect of a command, that
  adding jobs reaches every topic of the queue once, and that \<open>UpdateConfigs\<close> followed by the
  commands it sent leads to the new configuration.
\<close>

subsection \<open>State\<close>

datatype muxer_kind =
    CgiKind string string nat \<comment> \<open>CGI configuration key, script entry, number of workers\<close>
  | HttpKind HttpClientsManager nat
  | CmdKind TopicConfig

record Muxer =
  mx_queue :: QueueName
  mx_topic :: TopicName
  mx_storager :: storage
  mx_kind :: muxer_kind
  mx_serving :: bool

datatype op = CmdQueueAdd | CmdQueueDel

record Cmd =
  cmd_conf :: QueueConfig
  cmd_op :: op

record MuxServer =
  mux :: "(QueueName, (TopicName, Muxer) gomap) gomap"
  queueConfig :: QueueConfs
  cmdC :: "Cmd list"
  closed :: "Muxer list"

definition NewMuxServer :: MuxServer where
  "NewMuxServer = \<lparr>mux = [], queueConfig = [], cmdC = [], closed = []\<rparr>"

definition cmdC_cap :: nat where "cmdC_cap = 1000"

subsection \<open>Executing commands\<close>

text \<open>
  The globals a command reads: \<open>netQueueConf().ConsumerDisable\<close> and the pointer \<open>HttpConfigManager\<close>, which is nil
  until it is set at the start, and when the text it is decoded from is \<open>null\<close>.
\<close>

record node =
  nd_ConsumerDisable :: bool
  nd_HttpConfigManager :: "HttpConfig option"

text \<open>
  The worker for a topic: a topic without storage configuration, a storage that cannot be created and an HTTP topic
  without the HTTP configuration panic, a run type the \<open>switch\<close> does not know creates no worker.
  \<open>ConsumerDisable\<close> of the node does not apply to command workers.
\<close>

definition new_muxer :: "node \<Rightarrow> QueueConfig \<Rightarrow> QueueName \<Rightarrow> TopicName \<Rightarrow> TopicConfig \<Rightarrow> Muxer option go" where
  "new_muxer d qconf qn tn topicConf =
     (case tc_Storage topicConf of
        None \<Rightarrow> Panic
      | Some sc \<Rightarrow>
          go_bind (NewStorage sc) (\<lambda>st.
           let enabled = (qc_ConsumerEnable qconf \<or> tc_ConsumerEnable topicConf);
               make = (\<lambda>kind serving. Ret (Some \<lparr>mx_queue = qn, mx_topic = tn, mx_storager = st,
                         mx_kind = kind, mx_serving = serving\<rparr>))
           in if tc_RunType topicConf = RunTypeCGI
              then make (CgiKind (tc_CgiConfigKey topicConf) (tc_ScriptEntry topicConf) (tc_NumOfWorkers topicConf))
                     (\<not> nd_ConsumerDisable d \<and> enabled)
              else if tc_RunType topicConf = RunTypeHttp
              then if nd_HttpConfigManager d = None then Panic
              else make (HttpKind \<lparr>hcm_Topic = topicConf, hcm_path = tc_ScriptEntry topicConf\<rparr>
                           (tc_NumOfWorkers topicConf))
                     (\<not> nd_ConsumerDisable d \<and> enabled)
              else if tc_RunType topicConf = RunTypeCmd
              then make (CmdKind topicConf) enabled
              else Ret None))"

fun new_muxers ::
  "node \<Rightarrow> QueueConfig \<Rightarrow> QueueName \<Rightarrow> (TopicName \<times> TopicConfig) list \<Rightarrow> (TopicName, Muxer) gomap \<Rightarrow>
   (TopicName, Muxer) gomap go" where
  "new_muxers d qconf qn [] ms = Ret ms"
| "new_muxers d qconf qn ((tn, tc) # ts) ms =
     go_bind (new_muxer d qconf qn tn tc) (\<lambda>mx.
     new_muxers d qconf qn ts (case mx of None \<Rightarrow> ms | Some m \<Rightarrow> AList.update tn m ms))"

definition Serve_cmd :: "node \<Rightarrow> MuxServer \<Rightarrow> Cmd \<Rightarrow> MuxServer go" where
  "Serve_cmd d ms cmd =
     (let qconf = cmd_conf cmd; qn = qc_QueueName qconf in
      case cmd_op cmd of
        CmdQueueAdd \<Rightarrow>
          if map_of (queueConfig ms) qn = None then
            go_bind (new_muxers d qconf qn (qc_Topic qconf) []) (\<lambda>ts.
            Ret (ms\<lparr>mux := AList.update qn ts (mux ms),
                    queueConfig := AList.update qn qconf (queueConfig ms)\<rparr>))
          else Ret ms
      | CmdQueueDel \<Rightarrow>
          (let muxers = (case map_of (mux ms) qn of None \<Rightarrow> [] | Some ts \<Rightarrow> map snd ts)
           in Ret (ms\<lparr>queueConfig := AList.delete qn (queueConfig ms),
                      closed := closed ms @ muxers,
                      mux := AList.delete qn (mux ms)\<rparr>)))"

definition Serve_turn :: "node \<Rightarrow> MuxServer \<Rightarrow> MuxServer go" where
  "Serve_turn d ms =
     (case cmdC ms of [] \<Rightarrow> Ret ms | cmd # r \<Rightarrow> Serve_cmd d (ms\<lparr>cmdC := r\<rparr>) cmd)"

fun Serve_turns :: "node \<Rightarrow> nat \<Rightarrow> MuxServer \<Rightarrow> MuxServer go" where
  "Serve_turns d 0 ms = Ret ms"
| "Serve_turns d (Suc n) ms = go_bind (Serve_turn d ms) (Serve_turns d n)"

subsection \<open>Sending commands\<close>

definition send_cmd :: "Cmd \<Rightarrow> MuxServer \<Rightarrow> MuxServer option" where
  "send_cmd c ms = (if length (cmdC ms) < cmdC_cap then Some (ms\<lparr>cmdC := cmdC ms @ [c]\<rparr>) else None)"

definition MuxServer_AddQueue :: "QueueConfig \<Rightarrow> MuxServer \<Rightarrow> MuxServer option" where
  "MuxServer_AddQueue conf ms = send_cmd \<lparr>cmd_conf = conf, cmd_op = CmdQueueAdd\<rparr> ms"

definition MuxServer_DelQueue :: "QueueConfig \<Rightarrow> MuxServer \<Rightarrow> MuxServer option" where
  "MuxServer_DelQueue conf ms = send_cmd \<lparr>cmd_conf = conf, cmd_op = CmdQueueDel\<rparr> ms"

definition MuxServer_UpdateQueue :: "QueueConfig \<Rightarrow> MuxServer \<Rightarrow> MuxServer option" where
  "MuxServer_UpdateQueue conf ms =
     Option.bind (send_cmd \<lparr>cmd_conf = conf, cmd_op = CmdQueueDel\<rparr> ms)
       (send_cmd \<lparr>cmd_conf = conf, cmd_op = CmdQueueAdd\<rparr>)"

text \<open>
  \<open>reflect.DeepEqual\<close> on queue configurations: maps are compared as maps. (A queue without topics whose map is nil and
  one whose map is empty are the same here; the code replaces the one by the other, which have no workers.)
\<close>

definition map_eq :: "('k, 'v) gomap \<Rightarrow> ('k, 'v) gomap \<Rightarrow> bool" where
  "map_eq a b \<longleftrightarrow> list_all (\<lambda>k. map_of a k = map_of b k) (map fst a @ map fst b)"

definition DeepEqual :: "QueueConfig \<Rightarrow> QueueConfig \<Rightarrow> bool" where
  "DeepEqual a b \<longleftrightarrow>
     qc_QueueName a = qc_QueueName b \<and> qc_Password a = qc_Password b
     \<and> qc_ConsumerEnable a = qc_ConsumerEnable b \<and> map_eq (qc_Topic a) (qc_Topic b)"

fun update_news :: "(QueueName \<times> QueueConfig) list \<Rightarrow> MuxServer \<Rightarrow> MuxServer option" where
  "update_news [] ms = Some ms"
| "update_news ((name, conf) # cs) ms =
     Option.bind
       (case map_of (queueConfig ms) name of
          None \<Rightarrow> MuxServer_AddQueue conf ms
        | Some old \<Rightarrow> if \<not> DeepEqual conf old then MuxServer_UpdateQueue conf ms else Some ms)
       (update_news cs)"

fun update_olds :: "QueueConfs \<Rightarrow> (QueueName \<times> QueueConfig) list \<Rightarrow> MuxServer \<Rightarrow> MuxServer option" where
  "update_olds queueConfs [] ms = Some ms"
| "update_olds queueConfs ((name, conf) # cs) ms =
     Option.bind (if map_of queueConfs name = None then MuxServer_DelQueue conf ms else Some ms)
       (update_olds queueConfs cs)"

definition UpdateConfigs :: "QueueConfs \<Rightarrow> MuxServer \<Rightarrow> MuxServer option" where
  "UpdateConfigs queueConfs ms = Option.bind (update_news queueConfs ms) (update_olds queueConfs (queueConfig ms))"

subsection \<open>Adding and taking jobs\<close>

text \<open>The retry fields of a submitted job; a nil topic configuration panics.\<close>

definition init_retry :: "TopicConfig \<Rightarrow> Job \<Rightarrow> Job" where
  "init_retry tc job =
     (if tc_IsRetry tc
      then job\<lparr>RetryResidueTime := tc_RetryTime tc, RetryTimes := 0, IsRetry := True, BeginRetry := False\<rparr>
      else job\<lparr>RetryResidueTime := 0, RetryTimes := 0, IsRetry := False, BeginRetry := False\<rparr>)"

definition init_jobs :: "TopicConfig option \<Rightarrow> Jobs \<Rightarrow> Jobs go" where
  "init_jobs otc jobs =
     (if Slice jobs = [] then Ret jobs
      else (case otc of None \<Rightarrow> Panic | Some tc \<Rightarrow> Ret (jobs\<lparr>Slice := map (init_retry tc) (Slice jobs)\<rparr>)))"

fun AddJobs_loop ::
  "('w, 'g) env \<Rightarrow> QueueConfs \<Rightarrow> (TopicName \<times> Muxer) list \<Rightarrow> Jobs \<Rightarrow> string option \<Rightarrow> ('w, 'g) bus \<Rightarrow>
   (string option \<times> Jobs \<times> ('w, 'g) bus) go" where
  "AddJobs_loop env conf [] jobs err b = Ret (err, jobs, b)"
| "AddJobs_loop env conf ((tName, mx) # ts) jobs err b =
     go_bind (init_jobs (topic_conf conf (queueName jobs) tName) (jobs\<lparr>topicName := tName\<rparr>)) (\<lambda>jobs1.
     go_bind (bus_AddQueue env (mx_storager mx) jobs1 CommonQueue b) (\<lambda>(e, jobs2, b1).
     AddJobs_loop env conf ts jobs2 (if e \<noteq> None then e else err) b1))"

definition MuxServer_AddJobs ::
  "('w, 'g) env \<Rightarrow> MuxServer \<Rightarrow> Jobs \<Rightarrow> ('w, 'g) bus \<Rightarrow> (string option \<times> Jobs \<times> ('w, 'g) bus) go" where
  "MuxServer_AddJobs env ms jobs b =
     (case map_of (mux ms) (queueName jobs) of
        None \<Rightarrow> Ret (Some (''queue or Topic not exist '' @ queueName jobs), jobs, b)
      | Some [] \<Rightarrow> Ret (Some (''queue or Topic not exist '' @ queueName jobs), jobs, b)
      | Some ts \<Rightarrow> AddJobs_loop env (queueConfig ms) ts jobs None b)"

definition GetMuxer :: "MuxServer \<Rightarrow> QueueName \<Rightarrow> TopicName \<Rightarrow> string + Muxer" where
  "GetMuxer ms qn tn =
     (case map_of (mux ms) qn of
        None \<Rightarrow> Inl (''queue not exist '' @ qn)
      | Some [] \<Rightarrow> Inl (''queue not exist '' @ qn)
      | Some ts \<Rightarrow> (case map_of ts tn of None \<Rightarrow> Inl (''topic not exist '' @ tn) | Some m \<Rightarrow> Inr m))"

text \<open>The error of a lookup is \<open>Inl\<close>; otherwise the result of the worker's \<open>GetJobsFromQueue\<close>.\<close>

definition GetJobs ::
  "('w, 'g) env \<Rightarrow> MuxServer \<Rightarrow> QueueName \<Rightarrow> TopicName \<Rightarrow> QueueTyp \<Rightarrow> ('w, 'g) bus \<Rightarrow>
   ((string + Jobs option res) \<times> ('w, 'g) bus) go" where
  "GetJobs env ms qn tn typ b =
     (case map_of (mux ms) qn of
        None \<Rightarrow> Ret (Inl (''queue not exist '' @ qn), b)
      | Some [] \<Rightarrow> Ret (Inl (''queue not exist '' @ qn), b)
      | Some ts \<Rightarrow>
          (case map_of ts tn of
             None \<Rightarrow> Ret (Inl (''topic not exist '' @ tn), b)
           | Some m \<Rightarrow>
               go_bind (GetJobsFromQueue (e_redis env) (e_gen env) (e_ServiceId env) (mx_storager m) qn tn typ (ids b) (wld b))
                 (\<lambda>(r, g, w). Ret (Inr r, b\<lparr>wld := w, ids := g\<rparr>))))"

subsection \<open>The invariant\<close>

lemma map_eq_iff: "map_eq a b \<longleftrightarrow> map_of a = map_of b"
proof
  assume a: "map_eq a b"
  show "map_of a = map_of b"
  proof
    fix k
    show "map_of a k = map_of b k"
    proof (cases "k \<in> fst ` set a \<union> fst ` set b")
      case True
      then show ?thesis using a by (auto simp: map_eq_def list_all_iff)
    next
      case False
      then have "map_of a k = None" "map_of b k = None" by (auto simp: map_of_eq_None_iff)
      then show ?thesis by simp
    qed
  qed
qed (simp add: map_eq_def list_all_iff)

definition known_run_type :: "TopicConfig \<Rightarrow> bool" where
  "known_run_type tc \<longleftrightarrow> tc_RunType tc = RunTypeCGI \<or> tc_RunType tc = RunTypeHttp \<or> tc_RunType tc = RunTypeCmd"

definition worker_ok :: "QueueName \<Rightarrow> QueueConfig \<Rightarrow> TopicName \<times> Muxer \<Rightarrow> bool" where
  "worker_ok q qc w =
     (case map_of (qc_Topic qc) (fst w) of
        None \<Rightarrow> False
      | Some tc \<Rightarrow>
          (case tc_Storage tc of
             None \<Rightarrow> False
           | Some sc \<Rightarrow>
               mx_queue (snd w) = q \<and> mx_topic (snd w) = fst w \<and> NewStorage sc = Ret (mx_storager (snd w))
               \<and> known_run_type tc \<and> (mx_serving (snd w) \<longrightarrow> qc_ConsumerEnable qc \<or> tc_ConsumerEnable tc)))"

definition queue_ok :: "QueueName \<Rightarrow> QueueConfig \<Rightarrow> (TopicName, Muxer) gomap \<Rightarrow> bool" where
  "queue_ok q qc ts \<longleftrightarrow>
     qc_QueueName qc = q \<and> wf_map ts \<and> wf_map (qc_Topic qc) \<and> list_all (worker_ok q qc) ts
     \<and> list_all (\<lambda>(t, tc). known_run_type tc \<longrightarrow> map_of ts t \<noteq> None) (qc_Topic qc)"

definition ms_inv :: "MuxServer \<Rightarrow> bool" where
  "ms_inv ms \<longleftrightarrow>
     wf_map (mux ms) \<and> wf_map (queueConfig ms)
     \<and> list_all (\<lambda>(q, ts). case map_of (queueConfig ms) q of None \<Rightarrow> False | Some qc \<Rightarrow> queue_ok q qc ts) (mux ms)
     \<and> list_all (\<lambda>(q, qc). map_of (mux ms) q \<noteq> None) (queueConfig ms)"

lemma ms_inv_iff:
  "ms_inv ms \<longleftrightarrow> wf_map (mux ms) \<and> wf_map (queueConfig ms)
     \<and> (\<forall>q ts. map_of (mux ms) q = Some ts \<longrightarrow> (\<exists>qc. map_of (queueConfig ms) q = Some qc \<and> queue_ok q qc ts))
     \<and> (\<forall>q qc. map_of (queueConfig ms) q = Some qc \<longrightarrow> map_of (mux ms) q \<noteq> None)"
  by (fastforce simp: ms_inv_def list_all_map_of split: option.splits)

lemma queue_ok_iff:
  "queue_ok q qc ts \<longleftrightarrow> qc_QueueName qc = q \<and> wf_map ts \<and> wf_map (qc_Topic qc)
     \<and> (\<forall>t m. map_of ts t = Some m \<longrightarrow> worker_ok q qc (t, m))
     \<and> (\<forall>t tc. map_of (qc_Topic qc) t = Some tc \<longrightarrow> known_run_type tc \<longrightarrow> map_of ts t \<noteq> None)"
  by (auto simp: queue_ok_def list_all_map_of)

text \<open>
  A configuration the server can apply: topic names are distinct, every topic has a storage that can be created, and
  the HTTP configuration is there if a topic needs it.
\<close>

definition topic_ok :: "node \<Rightarrow> TopicConfig \<Rightarrow> bool" where
  "topic_ok d tc \<longleftrightarrow>
     (case tc_Storage tc of None \<Rightarrow> False | Some sc \<Rightarrow> NewStorage sc \<noteq> Panic)
     \<and> (tc_RunType tc = RunTypeHttp \<longrightarrow> nd_HttpConfigManager d \<noteq> None)"

definition wf_conf :: "node \<Rightarrow> QueueConfig \<Rightarrow> bool" where
  "wf_conf d qc \<longleftrightarrow> wf_map (qc_Topic qc) \<and> list_all (\<lambda>(t, tc). topic_ok d tc) (qc_Topic qc)"

lemma new_muxer_ok:
  assumes "new_muxer d qc q t tc = Ret (Some m)" "map_of (qc_Topic qc) t = Some tc"
  shows "worker_ok q qc (t, m)"
  using assms
  by (auto simp: new_muxer_def worker_ok_def known_run_type_def Let_def split: option.splits if_splits)

lemma new_muxer_known: "new_muxer d qc q t tc = Ret None \<Longrightarrow> \<not> known_run_type tc"
  by (auto simp: new_muxer_def known_run_type_def Let_def split: option.splits if_splits)

lemma new_muxer_total: "(\<exists>m. new_muxer d qc q t tc = Ret m) \<longleftrightarrow> topic_ok d tc"
  by (cases "tc_Storage tc"; cases "NewStorage (the (tc_Storage tc))")
    (simp_all add: new_muxer_def topic_ok_def Let_def RunTypeHttp_def RunTypeCGI_def)

lemma new_muxers_total:
  "list_all (\<lambda>(t, tc). topic_ok d tc) ts \<Longrightarrow> \<exists>ms. new_muxers d qc q ts ms0 = Ret ms"
proof (induction ts arbitrary: ms0 rule: list.induct)
  case (Cons x ts)
  obtain t tc where x: "x = (t, tc)" by (cases x)
  obtain m where "new_muxer d qc q t tc = Ret m" using Cons.prems x new_muxer_total by fastforce
  with Cons show ?case by (simp add: x)
qed simp

lemma new_muxers_ret: "new_muxers d qc q ts ms0 = Ret ms \<Longrightarrow> (t, tc) \<in> set ts \<Longrightarrow> \<exists>r. new_muxer d qc q t tc = Ret r"
proof (induction ts arbitrary: ms0 rule: list.induct)
  case (Cons x ts)
  obtain t' tc' where x: "x = (t', tc')" by (cases x)
  obtain r where "new_muxer d qc q t' tc' = Ret r"
    "new_muxers d qc q ts (case r of None \<Rightarrow> ms0 | Some m \<Rightarrow> AList.update t' m ms0) = Ret ms"
    using Cons.prems(1) by (auto simp: x)
  then show ?case using Cons.IH Cons.prems(2) x by auto
qed simp

lemma new_muxers_map:
  assumes "distinct (map fst ts)" "new_muxers d qc q ts ms0 = Ret ms" "wf_map ms0"
  shows "wf_map ms \<and> (\<forall>t. map_of ms t =
     (case map_of ts t of
        None \<Rightarrow> map_of ms0 t
      | Some tc \<Rightarrow> (case new_muxer d qc q t tc of Ret (Some m) \<Rightarrow> Some m | _ \<Rightarrow> map_of ms0 t)))"
  using assms
proof (induction ts arbitrary: ms0 rule: list.induct)
  case (Cons x ts)
  obtain t tc where x: "x = (t, tc)" by (cases x)
  obtain m where m: "new_muxer d qc q t tc = Ret m"
    "new_muxers d qc q ts (case m of None \<Rightarrow> ms0 | Some m \<Rightarrow> AList.update t m ms0) = Ret ms"
    using Cons.prems(2) x by auto
  have "map_of ts t = None" using Cons.prems(1) x by (simp add: map_of_eq_None_iff)
  moreover have "distinct (map fst ts)" using Cons.prems(1) by simp
  ultimately show ?case using Cons.IH [OF _ m(2)] Cons.prems(3) m(1) x
    by (cases m) (auto split: option.splits go.splits)
qed simp

lemma new_muxers_queue_ok:
  assumes "wf_map (qc_Topic qc)" "new_muxers d qc (qc_QueueName qc) (qc_Topic qc) [] = Ret ts"
  shows "queue_ok (qc_QueueName qc) qc ts"
proof -
  have m: "wf_map ts" "map_of ts t = (case map_of (qc_Topic qc) t of None \<Rightarrow> None
      | Some tc \<Rightarrow> (case new_muxer d qc (qc_QueueName qc) t tc of Ret (Some m) \<Rightarrow> Some m | _ \<Rightarrow> None))" for t
    using new_muxers_map [OF _ assms(2)] assms(1) by (auto simp: wf_map_def split: option.splits go.splits)
  show ?thesis unfolding queue_ok_iff
  proof (intro conjI allI impI)
    fix t tc
    assume tc: "map_of (qc_Topic qc) t = Some tc" "known_run_type tc"
    then have "new_muxer d qc (qc_QueueName qc) t tc \<noteq> Panic"
      using new_muxers_ret [OF assms(2) map_of_SomeD] by fastforce
    then show "map_of ts t \<noteq> None" using m(2) [of t] tc new_muxer_known
      by (auto split: go.splits option.splits)
  qed (use m assms(1) in \<open>auto intro: new_muxer_ok split: option.splits go.splits\<close>)
qed

lemma Serve_cmd_inv:
  assumes "Serve_cmd d ms cmd = Ret ms'" "ms_inv ms" "wf_map (qc_Topic (cmd_conf cmd))"
  shows "ms_inv ms'"
proof (cases "cmd_op cmd")
  case CmdQueueAdd
  show ?thesis
  proof (cases "map_of (queueConfig ms) (qc_QueueName (cmd_conf cmd))")
    case None
    then obtain ts where ts: "new_muxers d (cmd_conf cmd) (qc_QueueName (cmd_conf cmd)) (qc_Topic (cmd_conf cmd)) [] = Ret ts"
      and ms': "ms' = ms\<lparr>mux := AList.update (qc_QueueName (cmd_conf cmd)) ts (mux ms),
          queueConfig := AList.update (qc_QueueName (cmd_conf cmd)) (cmd_conf cmd) (queueConfig ms)\<rparr>"
      using assms(1) CmdQueueAdd by (auto simp: Serve_cmd_def Let_def)
    show ?thesis using new_muxers_queue_ok [OF assms(3) ts] assms(2) unfolding ms_inv_iff ms' by auto
  next
    case (Some qc)
    then show ?thesis using assms(1,2) CmdQueueAdd by (simp add: Serve_cmd_def Let_def)
  qed
next
  case CmdQueueDel
  then show ?thesis using assms(1,2) unfolding ms_inv_iff by (auto simp: Serve_cmd_def Let_def)
qed

lemma Serve_cmd_total: "wf_conf d (cmd_conf cmd) \<Longrightarrow> \<exists>ms'. Serve_cmd d ms cmd = Ret ms'"
  using new_muxers_total [of d "qc_Topic (cmd_conf cmd)"]
  by (auto simp: Serve_cmd_def Let_def wf_conf_def split: op.split)

text \<open>Every state the server can be in.\<close>

inductive ms_reach :: "MuxServer \<Rightarrow> bool" where
  init: "ms_reach NewMuxServer"
| update: "ms_reach ms \<Longrightarrow> list_all (\<lambda>(q, qc). wf_map (qc_Topic qc)) confs \<Longrightarrow> UpdateConfigs confs ms = Some ms' \<Longrightarrow> ms_reach ms'"
| serve: "ms_reach ms \<Longrightarrow> Serve_turn d ms = Ret ms' \<Longrightarrow> ms_reach ms'"

definition cmds_ok :: "MuxServer \<Rightarrow> bool" where
  "cmds_ok ms \<longleftrightarrow> list_all (\<lambda>c. wf_map (qc_Topic (cmd_conf c))) (cmdC ms)"

lemma send_cmd_frame:
  "send_cmd c ms = Some ms' \<Longrightarrow> mux ms' = mux ms \<and> queueConfig ms' = queueConfig ms \<and> closed ms' = closed ms
     \<and> cmdC ms' = cmdC ms @ [c] \<and> length (cmdC ms') \<le> cmdC_cap"
  by (auto simp: send_cmd_def split: if_splits)

lemmas send_defs = MuxServer_AddQueue_def MuxServer_DelQueue_def MuxServer_UpdateQueue_def

text \<open>The commands \<open>UpdateConfigs\<close> sends.\<close>

definition news_cmds :: "QueueConfs \<Rightarrow> (QueueName \<times> QueueConfig) list \<Rightarrow> Cmd list" where
  "news_cmds cur news = concat (map (\<lambda>(name, conf).
     case map_of cur name of
       None \<Rightarrow> [\<lparr>cmd_conf = conf, cmd_op = CmdQueueAdd\<rparr>]
     | Some old \<Rightarrow> if DeepEqual conf old then []
         else [\<lparr>cmd_conf = conf, cmd_op = CmdQueueDel\<rparr>, \<lparr>cmd_conf = conf, cmd_op = CmdQueueAdd\<rparr>]) news)"

definition olds_cmds :: "QueueConfs \<Rightarrow> (QueueName \<times> QueueConfig) list \<Rightarrow> Cmd list" where
  "olds_cmds confs olds = concat (map (\<lambda>(name, conf).
     if map_of confs name = None then [\<lparr>cmd_conf = conf, cmd_op = CmdQueueDel\<rparr>] else []) olds)"

lemma update_news_cmds:
  "update_news news ms = Some ms' \<Longrightarrow> ms' = ms\<lparr>cmdC := cmdC ms @ news_cmds (queueConfig ms) news\<rparr>"
proof (induction news arbitrary: ms rule: list.induct)
  case (Cons x news)
  obtain name conf where x: "x = (name, conf)" by (cases x)
  from Cons.prems obtain ms1 where ms1: "update_news [x] ms = Some ms1" "update_news news ms1 = Some ms'"
    by (auto simp: x bind_eq_Some_conv)
  have "ms1 = ms\<lparr>cmdC := cmdC ms @ news_cmds (queueConfig ms) [x]\<rparr>"
    using ms1(1) by (auto simp: x news_cmds_def send_defs send_cmd_def bind_eq_Some_conv split: option.splits if_splits)
  with Cons.IH [OF ms1(2)] show ?case by (simp add: news_cmds_def)
qed (simp add: news_cmds_def)

lemma update_olds_cmds:
  "update_olds confs olds ms = Some ms' \<Longrightarrow> ms' = ms\<lparr>cmdC := cmdC ms @ olds_cmds confs olds\<rparr>"
proof (induction olds arbitrary: ms rule: list.induct)
  case (Cons x olds)
  obtain name conf where x: "x = (name, conf)" by (cases x)
  from Cons.prems obtain ms1 where ms1: "update_olds confs [x] ms = Some ms1" "update_olds confs olds ms1 = Some ms'"
    by (auto simp: x bind_eq_Some_conv)
  have "ms1 = ms\<lparr>cmdC := cmdC ms @ olds_cmds confs [x]\<rparr>"
    using ms1(1) by (auto simp: x olds_cmds_def send_defs send_cmd_def split: if_splits)
  with Cons.IH [OF ms1(2)] show ?case by (simp add: olds_cmds_def)
qed (simp add: olds_cmds_def)

lemma UpdateConfigs_cmds:
  "UpdateConfigs confs ms = Some ms' \<Longrightarrow>
   ms' = ms\<lparr>cmdC := cmdC ms @ news_cmds (queueConfig ms) confs @ olds_cmds confs (queueConfig ms)\<rparr>"
  by (auto simp: UpdateConfigs_def bind_eq_Some_conv dest!: update_news_cmds update_olds_cmds)

lemma Serve_turn_inv:
  assumes "Serve_turn d ms = Ret ms'" "ms_inv ms" "cmds_ok ms"
  shows "ms_inv ms' \<and> cmds_ok ms'"
proof (cases "cmdC ms")
  case Nil
  then show ?thesis using assms by (simp add: Serve_turn_def)
next
  case (Cons c r)
  then have s: "Serve_cmd d (ms\<lparr>cmdC := r\<rparr>) c = Ret ms'" using assms(1) by (simp add: Serve_turn_def)
  have "ms_inv (ms\<lparr>cmdC := r\<rparr>)" using assms(2) by (simp add: ms_inv_def)
  moreover have "wf_map (qc_Topic (cmd_conf c))" "list_all (\<lambda>c. wf_map (qc_Topic (cmd_conf c))) r"
    using assms(3) Cons by (simp_all add: cmds_ok_def)
  moreover have "cmdC ms' = r" using s by (auto simp: Serve_cmd_def Let_def split: op.splits if_splits)
  ultimately show ?thesis using Serve_cmd_inv [OF s] by (simp add: cmds_ok_def)
qed

lemma news_cmds_mem:
  "c \<in> set (news_cmds cur news) \<Longrightarrow>
   \<exists>n. (n, cmd_conf c) \<in> set news \<and> (\<forall>old. map_of cur n = Some old \<longrightarrow> \<not> DeepEqual (cmd_conf c) old)"
proof (induction news)
  case (Cons x news)
  then have "c \<in> set (news_cmds cur [x]) \<or> c \<in> set (news_cmds cur news)" by (auto simp: news_cmds_def)
  then show ?case
  proof
    assume "c \<in> set (news_cmds cur [x])"
    then show ?thesis
      by (cases x; cases "map_of cur (fst x)") (auto simp: news_cmds_def split: if_splits)
  next
    assume "c \<in> set (news_cmds cur news)"
    then show ?thesis using Cons.IH by auto
  qed
qed (simp add: news_cmds_def)

lemma olds_cmds_mem:
  "c \<in> set (olds_cmds confs olds) \<Longrightarrow>
   \<exists>n. (n, cmd_conf c) \<in> set olds \<and> map_of confs n = None \<and> cmd_op c = CmdQueueDel"
  by (induction olds) (auto simp: olds_cmds_def split: if_splits)

lemma UpdateConfigs_inv:
  assumes "UpdateConfigs confs ms = Some ms'" "ms_inv ms" "cmds_ok ms" "list_all (\<lambda>(q, qc). wf_map (qc_Topic qc)) confs"
  shows "ms_inv ms' \<and> cmds_ok ms'"
proof -
  have olds: "list_all (\<lambda>(q, qc). wf_map (qc_Topic qc)) (queueConfig ms)"
    using assms(2) by (force simp: ms_inv_iff list_all_map_of queue_ok_iff)
  have "list_all (\<lambda>c. wf_map (qc_Topic (cmd_conf c))) (news_cmds (queueConfig ms) confs)"
    using assms(4) by (auto simp: list_all_iff dest!: news_cmds_mem)
  moreover have "list_all (\<lambda>c. wf_map (qc_Topic (cmd_conf c))) (olds_cmds confs (queueConfig ms))"
    using olds by (auto simp: list_all_iff dest!: olds_cmds_mem)
  ultimately show ?thesis using UpdateConfigs_cmds [OF assms(1)] assms(2,3) by (simp add: cmds_ok_def ms_inv_def)
qed

lemma ms_reach_inv: "ms_reach ms \<Longrightarrow> ms_inv ms \<and> cmds_ok ms"
proof (induction rule: ms_reach.induct)
  case init
  then show ?case by (simp add: ms_inv_def cmds_ok_def NewMuxServer_def)
next
  case (update ms confs ms')
  then show ?case using UpdateConfigs_inv by blast
next
  case (serve ms d ms')
  then show ?case using Serve_turn_inv by blast
qed

subsection \<open>Convergence of UpdateConfigs\<close>

text \<open>The configuration as the commands change it.\<close>

definition cfg_step :: "Cmd \<Rightarrow> (QueueName \<rightharpoonup> QueueConfig) \<Rightarrow> (QueueName \<rightharpoonup> QueueConfig)" where
  "cfg_step c cfg =
     (let n = qc_QueueName (cmd_conf c) in
      case cmd_op c of
        CmdQueueAdd \<Rightarrow> if cfg n = None then cfg(n \<mapsto> cmd_conf c) else cfg
      | CmdQueueDel \<Rightarrow> cfg(n := None))"

lemma Serve_cmd_cfg:
  "Serve_cmd d ms c = Ret ms' \<Longrightarrow> map_of (queueConfig ms') = cfg_step c (map_of (queueConfig ms)) \<and> cmdC ms' = cmdC ms"
  by (auto simp: Serve_cmd_def cfg_step_def Let_def split: op.splits if_splits)

lemma Serve_cmd_other:
  "Serve_cmd d ms c = Ret ms' \<Longrightarrow> qc_QueueName (cmd_conf c) \<noteq> q \<Longrightarrow> map_of (mux ms') q = map_of (mux ms) q"
  by (auto simp: Serve_cmd_def Let_def split: op.splits if_splits)

lemma Serve_turns_cfg:
  assumes "Serve_turns d (length (cmdC ms)) ms = Ret ms'"
  shows "map_of (queueConfig ms') = fold cfg_step (cmdC ms) (map_of (queueConfig ms)) \<and> cmdC ms' = []
     \<and> (\<forall>q. (\<forall>c \<in> set (cmdC ms). qc_QueueName (cmd_conf c) \<noteq> q) \<longrightarrow> map_of (mux ms') q = map_of (mux ms) q)"
  using assms
proof (induction "cmdC ms" arbitrary: ms)
  case (Cons c r)
  note cs = Cons.hyps(2) [symmetric]
  obtain ms1 where ms1: "Serve_cmd d (ms\<lparr>cmdC := r\<rparr>) c = Ret ms1" "Serve_turns d (length r) ms1 = Ret ms'"
    using Cons.prems cs by (auto simp: Serve_turn_def)
  have f: "map_of (queueConfig ms1) = cfg_step c (map_of (queueConfig ms))" "cmdC ms1 = r"
    "qc_QueueName (cmd_conf c) \<noteq> q \<Longrightarrow> map_of (mux ms1) q = map_of (mux ms) q" for q
    using Serve_cmd_cfg [OF ms1(1)] Serve_cmd_other [OF ms1(1)] by simp_all
  show ?case using Cons.hyps(1) [of ms1] ms1(2) f cs by simp
qed simp

lemma Serve_turns_total:
  assumes "\<forall>c \<in> set (cmdC ms). cmd_op c = CmdQueueAdd \<longrightarrow> wf_conf d (cmd_conf c)"
  shows "\<exists>ms'. Serve_turns d (length (cmdC ms)) ms = Ret ms'"
  using assms
proof (induction "cmdC ms" arbitrary: ms)
  case (Cons c r)
  note cs = Cons.hyps(2) [symmetric]
  have "\<exists>ms1. Serve_cmd d (ms\<lparr>cmdC := r\<rparr>) c = Ret ms1"
  proof (cases "cmd_op c")
    case CmdQueueAdd
    then show ?thesis using Cons.prems cs by (intro Serve_cmd_total) simp
  qed (simp add: Serve_cmd_def Let_def)
  then obtain ms1 where ms1: "Serve_cmd d (ms\<lparr>cmdC := r\<rparr>) c = Ret ms1" by blast
  then have "cmdC ms1 = r" using Serve_cmd_cfg by fastforce
  then show ?case using Cons.hyps(1) [of ms1] Cons.prems cs ms1 by (auto simp: Serve_turn_def)
qed simp

text \<open>The workers of a queue are those made for its configuration by a command.\<close>

definition made :: "node \<Rightarrow> MuxServer \<Rightarrow> QueueName \<Rightarrow> bool" where
  "made d ms q \<longleftrightarrow>
     (case map_of (queueConfig ms) q of
        None \<Rightarrow> True
      | Some qc \<Rightarrow>
          (case map_of (mux ms) q of None \<Rightarrow> False | Some ts \<Rightarrow> new_muxers d qc q (qc_Topic qc) [] = Ret ts))"

lemma made_cmdC [simp]: "made d (ms\<lparr>cmdC := r\<rparr>) q \<longleftrightarrow> made d ms q"
  by (simp add: made_def cong: option.case_cong)

lemma Serve_cmd_made:
  assumes "Serve_cmd d ms c = Ret ms'" "made d ms q \<or> (cmd_op c = CmdQueueDel \<and> qc_QueueName (cmd_conf c) = q)"
  shows "made d ms' q"
  using assms by (cases "cmd_op c") (auto simp: made_def Serve_cmd_def Let_def split: if_splits option.splits)

lemma Serve_turns_made:
  assumes "Serve_turns d (length (cmdC ms)) ms = Ret ms'"
    and "made d ms q \<or> (\<exists>c \<in> set (cmdC ms). cmd_op c = CmdQueueDel \<and> qc_QueueName (cmd_conf c) = q)"
  shows "made d ms' q"
  using assms
proof (induction "cmdC ms" arbitrary: ms)
  case (Cons c r)
  note cs = Cons.hyps(2) [symmetric]
  obtain ms1 where ms1: "Serve_cmd d (ms\<lparr>cmdC := r\<rparr>) c = Ret ms1" "Serve_turns d (length r) ms1 = Ret ms'"
    using Cons.prems(1) cs by (auto simp: Serve_turn_def)
  have "cmdC ms1 = r" using Serve_cmd_cfg [OF ms1(1)] by simp
  moreover have "made d ms1 q \<or> (\<exists>c \<in> set r. cmd_op c = CmdQueueDel \<and> qc_QueueName (cmd_conf c) = q)"
    using Serve_cmd_made [OF ms1(1), of q] Cons.prems(2) cs by auto
  ultimately show ?case using Cons.hyps(1) [of ms1] ms1(2) by simp
qed simp

lemma fold_news:
  assumes "distinct (map fst news)" "\<forall>(q, qc) \<in> set news. qc_QueueName qc = q"
  shows "fold cfg_step (news_cmds cur news) cfg q =
     (case map_of news q of
        None \<Rightarrow> cfg q
      | Some conf \<Rightarrow>
          (case map_of cur q of
             None \<Rightarrow> (if cfg q = None then Some conf else cfg q)
           | Some old \<Rightarrow> if DeepEqual conf old then cfg q else Some conf))"
  using assms
proof (induction news arbitrary: cfg rule: list.induct)
  case Nil
  then show ?case by (simp add: news_cmds_def)
next
  case (Cons x news)
  obtain n conf where x: "x = (n, conf)" by (cases x)
  then have n: "qc_QueueName conf = n" "map_of news n = None"
    using Cons.prems by (auto simp: map_of_eq_None_iff)
  have split: "news_cmds cur (x # news) = news_cmds cur [x] @ news_cmds cur news" by (simp add: news_cmds_def)
  have "fold cfg_step (news_cmds cur [x]) cfg q =
      (if q = n then (case map_of cur n of None \<Rightarrow> (if cfg n = None then Some conf else cfg n)
         | Some old \<Rightarrow> if DeepEqual conf old then cfg n else Some conf) else cfg q)"
    using n(1) by (auto simp: news_cmds_def x cfg_step_def split: option.splits)
  moreover have "fold cfg_step (news_cmds cur (x # news)) cfg q
      = fold cfg_step (news_cmds cur news) (fold cfg_step (news_cmds cur [x]) cfg) q"
    by (simp add: split)
  moreover note Cons.IH [of "fold cfg_step (news_cmds cur [x]) cfg"]
  ultimately show ?case using Cons.prems n(2) x by (cases "q = n") (auto split: option.split)
qed

lemma fold_olds:
  assumes "\<forall>(q, qc) \<in> set olds. qc_QueueName qc = q"
  shows "fold cfg_step (olds_cmds confs olds) cfg q =
     (if q \<in> fst ` set olds \<and> map_of confs q = None then None else cfg q)"
  using assms
proof (induction olds arbitrary: cfg rule: list.induct)
  case Nil
  then show ?case by (simp add: olds_cmds_def)
next
  case (Cons x olds)
  obtain n conf where x: "x = (n, conf)" by (cases x)
  have split: "olds_cmds confs (x # olds) = olds_cmds confs [x] @ olds_cmds confs olds" by (simp add: olds_cmds_def)
  have "fold cfg_step (olds_cmds confs [x]) cfg q = (if q = n \<and> map_of confs n = None then None else cfg q)"
    using Cons.prems by (simp add: olds_cmds_def x cfg_step_def)
  then show ?case using Cons.IH [of "fold cfg_step (olds_cmds confs [x]) cfg"] Cons.prems x unfolding split by auto
qed

text \<open>The names under which a configuration is filed are the names in it.\<close>

definition named_confs :: "node \<Rightarrow> QueueConfs \<Rightarrow> bool" where
  "named_confs d confs \<longleftrightarrow> wf_map confs \<and> list_all (\<lambda>(q, qc). qc_QueueName qc = q \<and> wf_conf d qc) confs"

lemma DeepEqual_refl [simp]: "DeepEqual c c"
  by (simp add: DeepEqual_def map_eq_iff)

lemma ms_inv_queue:
  assumes "ms_inv ms" "map_of (queueConfig ms) q = Some qc"
  obtains ts where "map_of (mux ms) q = Some ts" "queue_ok q qc ts"
proof -
  obtain ts where "map_of (mux ms) q = Some ts" using assms by (auto simp: ms_inv_iff)
  moreover from this obtain qc' where "map_of (queueConfig ms) q = Some qc'" "queue_ok q qc' ts"
    using assms(1) unfolding ms_inv_iff by blast
  ultimately show thesis using assms(2) that by simp
qed

lemma ms_inv_workers:
  assumes "ms_inv ms" "map_of (mux ms) q = Some ts"
  shows "wf_map ts"
proof -
  obtain qc where "queue_ok q qc ts" using assms unfolding ms_inv_iff by blast
  then show ?thesis by (simp add: queue_ok_iff)
qed

lemma ms_inv_names:
  assumes "ms_inv ms"
  shows "\<forall>(q, qc) \<in> set (queueConfig ms). qc_QueueName qc = q"
proof clarify
  fix q qc assume "(q, qc) \<in> set (queueConfig ms)"
  then have "map_of (queueConfig ms) q = Some qc" using assms by (simp add: ms_inv_iff map_of_in_wf)
  then obtain ts where "queue_ok q qc ts" using ms_inv_queue [OF assms] by blast
  then show "qc_QueueName qc = q" by (simp add: queue_ok_iff)
qed

lemma UpdateConfigs_converges:
  assumes inv: "ms_inv ms" "cmdC ms = []" and confs: "named_confs d confs"
    and up: "UpdateConfigs confs ms = Some ms1"
  shows "\<exists>ms2. Serve_turns d (length (cmdC ms1)) ms1 = Ret ms2 \<and> cmdC ms2 = []
     \<and> (\<forall>q. rel_option DeepEqual (map_of confs q) (map_of (queueConfig ms2) q))
     \<and> (\<forall>q conf old. map_of confs q = Some conf \<longrightarrow> map_of (queueConfig ms) q = Some old \<longrightarrow> DeepEqual conf old
          \<longrightarrow> map_of (mux ms2) q = map_of (mux ms) q)
     \<and> (\<forall>q. \<not> (\<exists>conf old. map_of confs q = Some conf \<and> map_of (queueConfig ms) q = Some old \<and> DeepEqual conf old)
          \<longrightarrow> made d ms2 q)"
proof -
  let ?news = "news_cmds (queueConfig ms) confs" and ?olds = "olds_cmds confs (queueConfig ms)"
  have ms1: "ms1 = ms\<lparr>cmdC := ?news @ ?olds\<rparr>" using UpdateConfigs_cmds [OF up] inv(2) by simp
  have names: "distinct (map fst confs)" "\<forall>(q, qc) \<in> set confs. qc_QueueName qc = q" "\<forall>(q, qc) \<in> set confs. wf_conf d qc"
    using confs by (auto simp: named_confs_def wf_map_def list_all_iff)
  have "\<forall>c \<in> set (cmdC ms1). cmd_op c = CmdQueueAdd \<longrightarrow> wf_conf d (cmd_conf c)"
    using names(3) unfolding ms1 by (auto dest!: news_cmds_mem olds_cmds_mem)
  then obtain ms2 where ms2: "Serve_turns d (length (cmdC ms1)) ms1 = Ret ms2" using Serve_turns_total by blast
  note eff = Serve_turns_cfg [OF ms2]
  have cfg: "map_of (queueConfig ms2) q = (case map_of confs q of
       None \<Rightarrow> None
     | Some conf \<Rightarrow> (case map_of (queueConfig ms) q of None \<Rightarrow> Some conf
         | Some old \<Rightarrow> if DeepEqual conf old then Some old else Some conf))" for q
  proof -
    have e: "map_of (queueConfig ms2) = fold cfg_step ?olds (fold cfg_step ?news (map_of (queueConfig ms)))"
      using eff by (simp add: ms1)
    have none: "q \<notin> fst ` set (queueConfig ms) \<longleftrightarrow> map_of (queueConfig ms) q = None"
      by (simp add: map_of_eq_None_iff)
    show ?thesis unfolding e fold_olds [OF ms_inv_names [OF inv(1)]] fold_news [OF names(1,2)]
      using none by (auto split: option.split)
  qed
  have "rel_option DeepEqual (map_of confs q) (map_of (queueConfig ms2) q)" for q
    by (simp add: cfg split: option.splits)
  moreover have "map_of (mux ms2) q = map_of (mux ms) q"
    if q: "map_of confs q = Some conf" "map_of (queueConfig ms) q = Some old" "DeepEqual conf old" for q conf old
  proof -
    have "qc_QueueName (cmd_conf c) \<noteq> q" if "c \<in> set (?news @ ?olds)" for c
    proof
      assume n: "qc_QueueName (cmd_conf c) = q"
      from \<open>c \<in> set (?news @ ?olds)\<close> show False
      proof (simp only: set_append Un_iff, elim disjE)
        assume "c \<in> set ?news"
        then obtain n' where c: "(n', cmd_conf c) \<in> set confs"
          "\<forall>old. map_of (queueConfig ms) n' = Some old \<longrightarrow> \<not> DeepEqual (cmd_conf c) old"
          using news_cmds_mem by blast
        then have "n' = q" using n names(2) by auto
        moreover have "map_of confs n' = Some (cmd_conf c)" using c(1) names(1) by (rule map_of_is_SomeI [rotated])
        ultimately show False using c(2) q by simp
      next
        assume "c \<in> set ?olds"
        then obtain n' where "(n', cmd_conf c) \<in> set (queueConfig ms)" "map_of confs n' = None"
          using olds_cmds_mem by blast
        then show False using n q(1) ms_inv_names [OF inv(1)] by auto
      qed
    qed
    then show ?thesis using eff by (simp add: ms1)
  qed
  moreover have "made d ms2 q"
    if n: "\<not> (\<exists>conf old. map_of confs q = Some conf \<and> map_of (queueConfig ms) q = Some old \<and> DeepEqual conf old)" for q
  proof (rule Serve_turns_made [OF ms2])
    show "made d ms1 q \<or> (\<exists>c \<in> set (cmdC ms1). cmd_op c = CmdQueueDel \<and> qc_QueueName (cmd_conf c) = q)"
    proof (cases "map_of (queueConfig ms) q")
      case None
      then show ?thesis by (simp add: ms1 made_def)
    next
      case (Some old)
      show ?thesis
      proof (cases "map_of confs q")
        case None
        have "(q, old) \<in> set (queueConfig ms)" "qc_QueueName old = q"
          using Some ms_inv_names [OF inv(1)] by (auto dest: map_of_SomeD)
        then have "\<lparr>cmd_conf = old, cmd_op = CmdQueueDel\<rparr> \<in> set ?olds" using None by (force simp: olds_cmds_def)
        then show ?thesis using \<open>qc_QueueName old = q\<close> unfolding ms1 by force
      next
        case conf: (Some conf)
        then have "(q, conf) \<in> set confs" "qc_QueueName conf = q" "\<not> DeepEqual conf old"
          using Some n names(2) by (auto dest: map_of_SomeD)
        then have "\<lparr>cmd_conf = conf, cmd_op = CmdQueueDel\<rparr> \<in> set ?news" using Some by (force simp: news_cmds_def)
        then show ?thesis using \<open>qc_QueueName conf = q\<close> unfolding ms1 by force
      qed
    qed
  qed
  ultimately show ?thesis using ms2 eff by blast
qed

text \<open>The commands of an update fit into the channel unless there are hundreds of queues.\<close>

lemma UpdateConfigs_room:
  assumes "length (cmdC ms) + 2 * length confs + length (queueConfig ms) \<le> cmdC_cap"
  shows "\<exists>ms'. UpdateConfigs confs ms = Some ms'"
proof -
  have news: "length (cmdC ms) + 2 * length news \<le> cmdC_cap \<Longrightarrow>
      \<exists>ms'. update_news news ms = Some ms' \<and> length (cmdC ms') \<le> length (cmdC ms) + 2 * length news" for news ms
  proof (induction news arbitrary: ms rule: list.induct)
    case (Cons x news)
    obtain n conf where x: "x = (n, conf)" by (cases x)
    have "\<exists>ms1. update_news [x] ms = Some ms1 \<and> length (cmdC ms1) \<le> length (cmdC ms) + 2"
      using Cons.prems by (cases "map_of (queueConfig ms) n") (auto simp: x send_defs send_cmd_def)
    then obtain ms1 where "update_news [x] ms = Some ms1" "length (cmdC ms1) \<le> length (cmdC ms) + 2" by blast
    then show ?case using Cons.IH [of ms1] Cons.prems by (fastforce simp: x bind_eq_Some_conv)
  qed simp
  have olds: "length (cmdC ms) + length olds \<le> cmdC_cap \<Longrightarrow> \<exists>ms'. update_olds confs olds ms = Some ms'" for olds ms
  proof (induction olds arbitrary: ms rule: list.induct)
    case (Cons x olds)
    obtain n conf where x: "x = (n, conf)" by (cases x)
    show ?case using Cons.IH [of ms] Cons.IH [of "ms\<lparr>cmdC := cmdC ms @ [\<lparr>cmd_conf = conf, cmd_op = CmdQueueDel\<rparr>]\<rparr>"] Cons.prems
      by (auto simp: x send_defs send_cmd_def)
  qed simp
  obtain ms1 where ms1: "update_news confs ms = Some ms1" "length (cmdC ms1) \<le> length (cmdC ms) + 2 * length confs"
    using news [of ms confs] assms by auto
  show ?thesis using olds [of ms1 "queueConfig ms"] ms1 assms by (auto simp: UpdateConfigs_def)
qed

subsection \<open>Adding jobs reaches every topic\<close>

lemma init_retry_again [simp]: "init_retry tc (init_retry tc' j) = init_retry tc j"
  by (simp add: init_retry_def)

lemma init_retry_wf [simp, inv_intros]: "wf_job j \<Longrightarrow> in_i64 (tc_RetryTime tc) \<Longrightarrow> wf_job (init_retry tc j)"
  by (simp add: init_retry_def wf_job_def)

lemma init_retry_fresh: "fresh_job (init_retry tc j)"
  by (simp add: init_retry_def fresh_job_def)

lemma GetKey_topic_inj: "GetKey q t qt = GetKey q t' qt \<Longrightarrow> t = t'"
  by (simp add: GetKey_eq)

definition topics_ready :: "QueueConfs \<Rightarrow> QueueName \<Rightarrow> (TopicName \<times> Muxer) list \<Rightarrow> bool" where
  "topics_ready conf q ts \<longleftrightarrow>
     list_all (\<lambda>(t, mx). redisCli (mx_storager mx)
       \<and> (case topic_conf conf q t of None \<Rightarrow> False | Some tc \<Rightarrow> in_i64 (tc_RetryTime tc))) ts"

text \<open>The jobs as the topic \<open>t\<close> receives them.\<close>

definition jobs_for :: "QueueConfs \<Rightarrow> QueueName \<Rightarrow> TopicName \<Rightarrow> Job list \<Rightarrow> Job list" where
  "jobs_for conf q t js = (case topic_conf conf q t of None \<Rightarrow> [] | Some tc \<Rightarrow> map (init_retry tc) js)"

context redis_lists
begin

lemma AddJobs_step:
  assumes env: "e_redis env = cl" and "up (wld b)" "redisCli (mx_storager mx)"
    and tc: "topic_conf conf (queueName jobs) t = Some tc" "in_i64 (tc_RetryTime tc)"
    and jobs: "Slice jobs \<noteq> []" "\<forall>j \<in> set (Slice jobs). wf_job j" "\<not> retrying jobs"
  shows "\<exists>jobs' b'. AddJobs_loop env conf ((t, mx) # ts) jobs err b = AddJobs_loop env conf ts jobs' err b'
     \<and> up (wld b') \<and> queueName jobs' = queueName jobs \<and> Slice jobs' = map (init_retry tc) (Slice jobs) \<and> \<not> retrying jobs'
     \<and> queued (lst (wld b')) (mx_storager mx) (queueName jobs) t CommonQueue
       = queued (lst (wld b)) (mx_storager mx) (queueName jobs) t CommonQueue @ map (init_retry tc) (Slice jobs)
     \<and> (\<forall>s q' t' qt. GetKey q' t' qt \<noteq> GetKey (queueName jobs) t CommonQueue \<or> address s \<noteq> address (mx_storager mx)
          \<longrightarrow> queued (lst (wld b')) s q' t' qt = queued (lst (wld b)) s q' t' qt)
     \<and> b' = b\<lparr>wld := wld b'\<rparr>"
proof -
  define jobs1 where "jobs1 = jobs\<lparr>topicName := t, Slice := map (init_retry tc) (Slice jobs)\<rparr>"
  have init: "init_jobs (topic_conf conf (queueName jobs) t) (jobs\<lparr>topicName := t\<rparr>) = Ret jobs1"
    using tc(1) jobs(1) by (simp add: init_jobs_def jobs1_def)
  obtain w' where w': "AddQueue cl (mx_storager mx) jobs1 CommonQueue (wld b) = Ret (None, added jobs1 CommonQueue, w')" "up w'"
    "queued (lst w') (mx_storager mx) (queueName jobs) t CommonQueue
       = queued (lst (wld b)) (mx_storager mx) (queueName jobs) t CommonQueue @ Slice (added jobs1 CommonQueue)"
    "\<forall>s q' t' qt. GetKey q' t' qt \<noteq> GetKey (queueName jobs) t CommonQueue \<or> address s \<noteq> address (mx_storager mx)
          \<longrightarrow> queued (lst w') s q' t' qt = queued (lst (wld b)) s q' t' qt"
    using AddQueue_enqueues [OF assms(2,3), of jobs1 CommonQueue] jobs tc(2) by (auto simp: jobs1_def)
  have add: "added jobs1 CommonQueue = jobs1" using jobs(3) by (simp add: added_def jobs1_def bump_def)
  have "AddJobs_loop env conf ((t, mx) # ts) jobs err b = AddJobs_loop env conf ts jobs1 err (b\<lparr>wld := w'\<rparr>)"
    using init w'(1) add env by (simp add: bus_AddQueue_def)
  then show ?thesis using w' add jobs(3)
    by (intro exI [of _ jobs1] exI [of _ "b\<lparr>wld := w'\<rparr>"]) (auto simp: jobs1_def bump_def)
qed

lemma AddJobs_loop_fanout:
  assumes env: "e_redis env = cl" and "up (wld b)" "distinct (map fst ts)" "topics_ready conf (queueName jobs) ts"
    and jobs: "Slice jobs \<noteq> []" "\<forall>j \<in> set (Slice jobs). wf_job j" "\<not> retrying jobs"
  shows "\<exists>jobs' b'. AddJobs_loop env conf ts jobs err b = Ret (err, jobs', b') \<and> up (wld b')
     \<and> (\<forall>(t, mx) \<in> set ts. queued (lst (wld b')) (mx_storager mx) (queueName jobs) t CommonQueue
          = queued (lst (wld b)) (mx_storager mx) (queueName jobs) t CommonQueue @ jobs_for conf (queueName jobs) t (Slice jobs))
     \<and> (\<forall>s q' t' qt. (\<forall>(t, mx) \<in> set ts. GetKey q' t' qt \<noteq> GetKey (queueName jobs) t CommonQueue \<or> address s \<noteq> address (mx_storager mx))
          \<longrightarrow> queued (lst (wld b')) s q' t' qt = queued (lst (wld b)) s q' t' qt)
     \<and> queueName jobs' = queueName jobs \<and> map Content (Slice jobs') = map Content (Slice jobs)
     \<and> b' = b\<lparr>wld := wld b'\<rparr>"
  using assms(2-)
proof (induction ts arbitrary: jobs b rule: list.induct)
  case Nil
  then show ?case by simp
next
  case (Cons x ts)
  obtain t mx where x: "x = (t, mx)" by (cases x)
  obtain tc where tc: "topic_conf conf (queueName jobs) t = Some tc" "in_i64 (tc_RetryTime tc)" "redisCli (mx_storager mx)"
    using Cons.prems(3) by (auto simp: x topics_ready_def split: option.splits)
  obtain jobs1 b1 where s: "AddJobs_loop env conf (x # ts) jobs err b = AddJobs_loop env conf ts jobs1 err b1"
    "up (wld b1)" "queueName jobs1 = queueName jobs" "Slice jobs1 = map (init_retry tc) (Slice jobs)" "\<not> retrying jobs1"
    "queued (lst (wld b1)) (mx_storager mx) (queueName jobs) t CommonQueue
       = queued (lst (wld b)) (mx_storager mx) (queueName jobs) t CommonQueue @ map (init_retry tc) (Slice jobs)"
    "\<forall>s q' t' qt. GetKey q' t' qt \<noteq> GetKey (queueName jobs) t CommonQueue \<or> address s \<noteq> address (mx_storager mx)
          \<longrightarrow> queued (lst (wld b1)) s q' t' qt = queued (lst (wld b)) s q' t' qt"
    "b1 = b\<lparr>wld := wld b1\<rparr>"
    using AddJobs_step [OF env Cons.prems(1) tc(3,1,2) Cons.prems(4-6)] unfolding x by blast
  have same: "jobs_for conf (queueName jobs) t' (Slice jobs1) = jobs_for conf (queueName jobs) t' (Slice jobs)" for t'
    by (simp add: jobs_for_def s(4) comp_def split: option.split)
  have other: "GetKey (queueName jobs) t' CommonQueue \<noteq> GetKey (queueName jobs) t CommonQueue" if "(t', m') \<in> set ts" for t' m'
    using that Cons.prems(2) GetKey_topic_inj [of "queueName jobs" t' CommonQueue t] by (force simp: x)
  have ready: "distinct (map fst ts)" "topics_ready conf (queueName jobs1) ts"
    "Slice jobs1 \<noteq> []" "\<forall>j \<in> set (Slice jobs1). wf_job j"
    using Cons.prems s(3,4) tc(2) by (auto simp: topics_ready_def)
  obtain jobs' b' where r: "AddJobs_loop env conf ts jobs1 err b1 = Ret (err, jobs', b')" "up (wld b')"
     "\<forall>(t, mx) \<in> set ts. queued (lst (wld b')) (mx_storager mx) (queueName jobs) t CommonQueue
          = queued (lst (wld b1)) (mx_storager mx) (queueName jobs) t CommonQueue @ jobs_for conf (queueName jobs) t (Slice jobs)"
     "\<forall>s q' t' qt. (\<forall>(t, mx) \<in> set ts. GetKey q' t' qt \<noteq> GetKey (queueName jobs) t CommonQueue \<or> address s \<noteq> address (mx_storager mx))
          \<longrightarrow> queued (lst (wld b')) s q' t' qt = queued (lst (wld b1)) s q' t' qt"
     "queueName jobs' = queueName jobs" "map Content (Slice jobs') = map Content (Slice jobs1)" "b' = b1\<lparr>wld := wld b'\<rparr>"
    using Cons.IH [OF s(2) ready s(5)] unfolding s(3) same by blast
  have head: "queued (lst (wld b')) (mx_storager mx) (queueName jobs) t CommonQueue
      = queued (lst (wld b)) (mx_storager mx) (queueName jobs) t CommonQueue @ jobs_for conf (queueName jobs) t (Slice jobs)"
  proof -
    have "queued (lst (wld b')) (mx_storager mx) (queueName jobs) t CommonQueue
        = queued (lst (wld b1)) (mx_storager mx) (queueName jobs) t CommonQueue"
      by (rule r(4) [rule_format])
         (auto dest!: other simp: eq_commute [of "GetKey (queueName jobs) t CommonQueue"])
    then show ?thesis using s(6) tc(1) by (simp add: jobs_for_def)
  qed
  have tail: "\<forall>(t', mx') \<in> set ts. queued (lst (wld b')) (mx_storager mx') (queueName jobs) t' CommonQueue
      = queued (lst (wld b)) (mx_storager mx') (queueName jobs) t' CommonQueue @ jobs_for conf (queueName jobs) t' (Slice jobs)"
    using r(3) s(7) other by fastforce
  have "map Content (Slice jobs1) = map Content (Slice jobs)" by (simp add: s(4) init_retry_def)
  moreover have "b' = b\<lparr>wld := wld b'\<rparr>" using r(7) s(8) by (metis bus.update_convs(1) bus.cases bus.select_convs(1))
  moreover have "\<forall>s q' t' qt. (\<forall>(t, mx) \<in> set (x # ts). GetKey q' t' qt \<noteq> GetKey (queueName jobs) t CommonQueue \<or> address s \<noteq> address (mx_storager mx))
          \<longrightarrow> queued (lst (wld b')) s q' t' qt = queued (lst (wld b)) s q' t' qt"
    using r(4) s(7) by (auto simp: x)
  ultimately show ?case using r head tail s(1) by (intro exI [of _ jobs'] exI [of _ b']) (simp add: x)
qed

end

lemma MuxServer_AddJobs_loop:
  "map_of (mux ms) (queueName jobs) = Some ts \<Longrightarrow> ts \<noteq> [] \<Longrightarrow>
   MuxServer_AddJobs env ms jobs b = AddJobs_loop env (queueConfig ms) ts jobs None b"
  by (cases ts) (simp_all add: MuxServer_AddJobs_def del: AddJobs_loop.simps)

end
