(* ===== verification/Gateway.thy ===== *)
theory Gateway
  imports MuxServer
begin

text \<open>
  The Redis-protocol front end (\<open>gateway.go\<close>): its command handlers over a client's authentication
  state, the worker registry and the bus. A handler returns the replies it appends to the connection.

  The server library that parses requests is not part of the repository; its error text for a wrong
  number of arguments is the parameter \<open>wrong_args\<close>.

  The lemmas characterise which clients pass the check, that a client without authentication cannot
  change the stored jobs or read one, and what an accepted \<open>lpush\<close> stores and replies.
\<close>

subsection \<open>Replies and authentication\<close>

datatype resp =
    RespError string
  | RespOK
  | RespInline string
  | RespBulk string
  | RespNil

text \<open>The value stored in the client's context under \<open>auth\<close>.\<close>

datatype auth_value = NoAuth | AuthName string | AuthFalse

definition checkAuth :: "auth_value \<Rightarrow> QueueName \<Rightarrow> TopicName \<Rightarrow> string option" where
  "checkAuth auth qn tn =
     (let val = (if tn = [] then qn else qn @ ''/'' @ tn) in
      case auth of
        AuthName v \<Rightarrow>
          if val = v \<or> (qn = [] \<and> v \<noteq> []) then None else Some ''NOAUTH Authentication required.''
      | _ \<Rightarrow> Some ''NOAUTH Authentication required.'')"

text \<open>\<open>auth\<close>: the argument is \<open>queue\<close> or \<open>queue/topic\<close>, a colon and the password.\<close>

definition password_ok :: "QueueConfs \<Rightarrow> string \<Rightarrow> string \<Rightarrow> bool" where
  "password_ok confs name pw =
     (let qt = strings_Split name ''/'';
          qn = qt ! 0;
          tn = (if length qt = 2 then qt ! 1 else [])
      in case map_of confs qn of
           None \<Rightarrow> False
         | Some queue \<Rightarrow>
             if tn \<noteq> [] then
               (case map_of (qc_Topic queue) tn of None \<Rightarrow> False | Some topic \<Rightarrow> tc_Password topic = pw)
             else qc_Password queue = pw)"

definition gw_auth ::
  "(string \<Rightarrow> string) \<Rightarrow> QueueConfs \<Rightarrow> string \<Rightarrow> string list \<Rightarrow> auth_value \<Rightarrow> resp list \<times> auth_value" where
  "gw_auth wrong_args confs name args auth =
     (case args of
        [] \<Rightarrow> ([RespError (wrong_args name)], auth)
      | a # _ \<Rightarrow>
          (let fields = strings_Split a '':'' in
           if 2 \<le> length fields \<and> password_ok confs (fields ! 0) (fields ! 1)
           then ([RespOK], AuthName (fields ! 0))
           else ([RespError ''ERR invalid password''], AuthFalse)))"

definition gw_ping :: "auth_value \<Rightarrow> resp list" where
  "gw_ping auth =
     (case checkAuth auth [] [] of Some e \<Rightarrow> [RespError e] | None \<Rightarrow> [RespInline ''PONG''])"

subsection \<open>lpush and rpop\<close>

text \<open>The JSON reply; a nil slice is null.\<close>

definition gateway_resp :: "string list \<Rightarrow> string \<Rightarrow> string option \<Rightarrow> resp" where
  "gateway_resp jids tid err =
     RespBulk (json_marshal (case err of
       Some e \<Rightarrow> JObj [(''jobs'', JNull), (''inTraceId'', JStr tid), (''error'', JStr e)]
     | None \<Rightarrow> JObj [(''jobs'', if jids = [] then JNull else JArr (map JStr jids)), (''inTraceId'', JStr tid),
                     (''error'', JStr [])]))"

definition gw_lpush ::
  "('w, 'g) env \<Rightarrow> MuxServer \<Rightarrow> string list \<Rightarrow> auth_value \<Rightarrow> ('w, 'g) bus \<Rightarrow> (resp list \<times> ('w, 'g) bus) go" where
  "gw_lpush env ms args auth b =
     (if args = [] then Ret ([gateway_resp [] [] (Some ''Invalid Args'')], b)
      else
        (case ParseJob (e_gen env) (e_ServiceId env) (ids b) args of
           (Panic, g) \<Rightarrow> Panic
         | (Ret (Inl err), g) \<Rightarrow> Ret ([gateway_resp [] [] (Some err)], b\<lparr>ids := g\<rparr>)
         | (Ret (Inr (jobs, jids)), g) \<Rightarrow>
             (let b1 = b\<lparr>ids := g\<rparr> in
              case checkAuth auth (queueName jobs) (topicName jobs) of
                Some err \<Rightarrow> Ret ([gateway_resp [] (inTraceId jobs) (Some err)], b1)
              | None \<Rightarrow>
                  go_bind (MuxServer_AddJobs env ms jobs b1) (\<lambda>(err, jobs', b2).
                  let first = (case err of None \<Rightarrow> [] | Some e \<Rightarrow> [gateway_resp [] (inTraceId jobs) (Some e)]) in
                  go_bind (WriteTaskDebug (e_redis env) (unix env) (e_net env) (e_td env)
                             (queueName jobs') (Slice jobs') (wld b2)) (\<lambda>w3.
                  Ret (first @ [gateway_resp jids (inTraceId jobs) err],
                       b2\<lparr>wld := w3, GatewayStat := GatewayStats_Add (GatewayStat b2) (queueName jobs') (err = None)\<rparr>))))))"

definition gw_rpop ::
  "(redis_err \<Rightarrow> string) \<Rightarrow> ('w, 'g) env \<Rightarrow> MuxServer \<Rightarrow> string list \<Rightarrow> auth_value \<Rightarrow> ('w, 'g) bus \<Rightarrow>
   (resp list \<times> ('w, 'g) bus) go" where
  "gw_rpop err_text env ms args auth b =
     (case args of
        [] \<Rightarrow> Ret ([RespBulk ''Invalid Args''], b)
      | a # _ \<Rightarrow>
          (case strings_SplitN2 a (CHR ''/'') of
             qName # tName # _ \<Rightarrow>
               (case checkAuth auth qName tName of
                  Some e \<Rightarrow> Ret ([RespError e], b)
                | None \<Rightarrow>
                    go_bind (GetJobs env ms qName tName CommonQueue b) (\<lambda>(r, b1).
                    case r of
                      Inl e \<Rightarrow> Ret ([RespBulk e], b1)
                    | Inr (_, Some e) \<Rightarrow> Ret ([RespBulk (err_text e)], b1)
                    | Inr (None, None) \<Rightarrow> Ret ([RespNil], b1)
                    | Inr (Some jobs, None) \<Rightarrow> Ret ([RespBulk (Jobs_Encode jobs)], b1)))
           | _ \<Rightarrow> Ret ([RespBulk (''ParseJob fail: invalid job meta info: '' @ a)], b)))"

subsection \<open>Authentication\<close>

lemma checkAuth_iff:
  "checkAuth auth q t = None \<longleftrightarrow>
   (\<exists>v. auth = AuthName v \<and> (v = (if t = [] then q else q @ ''/'' @ t) \<or> (q = [] \<and> v \<noteq> [])))"
  by (cases auth) (auto simp: checkAuth_def Let_def)

lemma gw_auth_cases:
  "snd (gw_auth wa confs n (a # as) auth) = AuthName v \<longleftrightarrow>
     (\<exists>pw rest. strings_Split a '':'' = v # pw # rest \<and> password_ok confs v pw)"
proof -
  have "2 \<le> length xs \<longleftrightarrow> (\<exists>x y ys. xs = x # y # ys)" for xs :: "string list"
    by (cases xs; cases "tl xs") auto
  then show ?thesis by (auto simp: gw_auth_def Let_def)
qed

lemma gw_auth_fail: "\<nexists>v. snd (gw_auth wa confs n (a # as) auth) = AuthName v \<Longrightarrow> snd (gw_auth wa confs n (a # as) auth) = AuthFalse"
  by (auto simp: gw_auth_def Let_def split: if_splits)

text \<open>A name without slash is a queue, with one slash a topic.\<close>

lemma password_ok_queue: "CHR ''/'' \<notin> set q \<Longrightarrow> password_ok confs q pw \<longleftrightarrow> (\<exists>qc. map_of confs q = Some qc \<and> qc_Password qc = pw)"
  by (simp add: password_ok_def strings_Split_no_sep split: option.split)

lemma password_ok_topic:
  "CHR ''/'' \<notin> set q \<Longrightarrow> CHR ''/'' \<notin> set t \<Longrightarrow> t \<noteq> [] \<Longrightarrow>
   password_ok confs (q @ ''/'' @ t) pw \<longleftrightarrow>
     (\<exists>qc tc. map_of confs q = Some qc \<and> map_of (qc_Topic qc) t = Some tc \<and> tc_Password tc = pw)"
  using strings_Split_sep [of "CHR ''/''" q t]
  by (simp add: password_ok_def strings_Split_no_sep split: option.split)

text \<open>With two slashes the password of the queue is asked for.\<close>

lemma password_ok_deep:
  "CHR ''/'' \<notin> set q \<Longrightarrow> CHR ''/'' \<notin> set t \<Longrightarrow> CHR ''/'' \<notin> set u \<Longrightarrow>
   password_ok confs (q @ ''/'' @ t @ ''/'' @ u) pw \<longleftrightarrow> (\<exists>qc. map_of confs q = Some qc \<and> qc_Password qc = pw)"
  using strings_Split_sep [of "CHR ''/''" q "t @ ''/'' @ u"] strings_Split_sep [of "CHR ''/''" t u]
  by (simp add: password_ok_def strings_Split_no_sep split: option.split)

subsection \<open>Without authentication nothing happens\<close>

lemma gw_lpush_denied:
  assumes "strings_SplitN2 a (CHR ''/'') = q # t # r" "checkAuth auth q [] \<noteq> None"
  shows "\<exists>tid e g. gw_lpush env ms (a # cs) auth b = Ret ([gateway_resp [] tid (Some e)], b\<lparr>ids := g\<rparr>) \<and> checkAuth auth q [] = Some e"
  using assms by (auto simp: gw_lpush_def ParseJob_def Let_def split: prod.splits)

lemma gw_rpop_denied:
  assumes "strings_SplitN2 a (CHR ''/'') = q # t # r" "checkAuth auth q t \<noteq> None"
  shows "\<exists>e. gw_rpop et env ms (a # cs) auth b = Ret ([RespError e], b) \<and> checkAuth auth q t = Some e"
  using assms by (auto simp: gw_rpop_def)

lemma gw_lpush_unauthorised:
  assumes "strings_SplitN2 a (CHR ''/'') = q # t # r" "\<nexists>v. auth = AuthName v \<and> (v = q \<or> (q = [] \<and> v \<noteq> []))"
  shows "\<exists>tid g. gw_lpush env ms (a # cs) auth b
     = Ret ([gateway_resp [] tid (Some ''NOAUTH Authentication required.'')], b\<lparr>ids := g\<rparr>)"
proof -
  have "checkAuth auth q [] = Some ''NOAUTH Authentication required.''"
    using assms(2) by (cases auth) (auto simp: checkAuth_def)
  with gw_lpush_denied [OF assms(1), of auth env ms cs b] show ?thesis by auto
qed

lemma gw_rpop_unauthorised:
  assumes "strings_SplitN2 a (CHR ''/'') = q # t # r"
    and "\<nexists>v. auth = AuthName v \<and> (v = (if t = [] then q else q @ ''/'' @ t) \<or> (q = [] \<and> v \<noteq> []))"
  shows "gw_rpop et env ms (a # cs) auth b = Ret ([RespError ''NOAUTH Authentication required.''], b)"
proof -
  have "checkAuth auth q t = Some ''NOAUTH Authentication required.''"
    using assms(2) by (cases auth) (auto simp: checkAuth_def Let_def)
  with gw_rpop_denied [OF assms(1), of auth et env ms cs b] show ?thesis by auto
qed

subsection \<open>An accepted lpush\<close>

definition ascii :: "string \<Rightarrow> bool" where
  "ascii s \<longleftrightarrow> list_all (\<lambda>c. of_char c < (128 :: nat)) s"

lemma ascii_show_nat [simp]: "ascii (show_nat n)"
  using show_nat_digits [of n] by (auto simp: ascii_def all_digits_def list_all_iff digit_val_def split: if_splits)

lemma ascii_append [simp]: "ascii (s @ t) \<longleftrightarrow> ascii s \<and> ascii t"
  by (simp add: ascii_def)

lemma ParseJob_loop_wf:
  "valid_utf8 tid \<Longrightarrow> \<forall>c \<in> set cs. valid_utf8 c \<Longrightarrow> j \<in> set (fst (ParseJob_loop gen tid g cs)) \<Longrightarrow> wf_job j"
proof (induction cs arbitrary: g)
  case (Cons c cs)
  then show ?case
    by (auto simp: Let_def case_prod_beta GenId_def wf_job_def new_Job_def valid_utf8_digits)
qed simp

lemma valid_tid: "ascii sid \<Longrightarrow> valid_utf8 (fst (GenTraceId gen sid g))"
  by (auto simp: GenTraceId_def Let_def case_prod_beta ascii_def [symmetric] intro!: valid_utf8_ascii)

text \<open>The batch an \<open>lpush\<close> builds from its arguments.\<close>

definition pushed :: "('w, 'g) env \<Rightarrow> 'g \<Rightarrow> QueueName \<Rightarrow> string list \<Rightarrow> Jobs" where
  "pushed env g q cs =
     (let (tid, g1) = GenTraceId (e_gen env) (e_ServiceId env) g in
      \<lparr>inTraceId = tid, outTraceId = [], queueName = q, topicName = [], retrying = False,
       Slice = fst (ParseJob_loop (e_gen env) tid g1 cs)\<rparr>)"

lemma pushed_simps [simp]:
  "queueName (pushed env g q cs) = q" "topicName (pushed env g q cs) = []" "retrying (pushed env g q cs) = False"
  "map Content (Slice (pushed env g q cs)) = cs"
  by (simp_all add: pushed_def case_prod_beta Let_def ParseJob_loop_contents)

lemma pushed_wf:
  "ascii (e_ServiceId env) \<Longrightarrow> \<forall>c \<in> set cs. valid_utf8 c \<Longrightarrow> \<forall>j \<in> set (Slice (pushed env g q cs)). wf_job j"
  using valid_tid [of "e_ServiceId env" "e_gen env" g]
  by (auto simp: pushed_def Let_def case_prod_beta intro: ParseJob_loop_wf)

lemma ParseJob_pushed:
  assumes "strings_SplitN2 a (CHR ''/'') = q # t # r"
  shows "\<exists>g'. ParseJob (e_gen env) (e_ServiceId env) g (a # cs)
      = (Ret (Inr (pushed env g q cs, map JobId (Slice (pushed env g q cs)))), g')"
  using assms by (simp add: ParseJob_def pushed_def Let_def case_prod_beta)

text \<open>What the gateway needs of its surroundings.\<close>

locale gateway = redis_lists cl lst up
  for cl :: "'w client" and lst :: "'w \<Rightarrow> string \<Rightarrow> string \<Rightarrow> string list" and up :: "'w \<Rightarrow> bool" +
  fixes env :: "('w, 'g) env"
  assumes gw_redis: "e_redis env = cl"
    and gw_debug: "collection_ok (TaskDebugEnable (e_net env)) (e_td env)"
    and gw_service: "ascii (e_ServiceId env)"
begin

lemma lpush_stores:
  assumes "up (wld b)" "ms_inv ms" "plain_name q"
    and meta: "strings_SplitN2 a (CHR ''/'') = q # t # r" "checkAuth auth q [] = None"
    and topics: "map_of (mux ms) q = Some ts" "ts \<noteq> []" "topics_ready (queueConfig ms) q ts"
    and contents: "cs \<noteq> []" "\<forall>c \<in> set cs. valid_utf8 c"
  shows "\<exists>b'. gw_lpush env ms (a # cs) auth b
       = Ret ([gateway_resp (map JobId (Slice (pushed env (ids b) q cs))) (inTraceId (pushed env (ids b) q cs)) None], b')
     \<and> up (wld b') \<and> MuxStat b' = MuxStat b
     \<and> GatewayStat b' = GatewayStats_Add (GatewayStat b) q True
     \<and> (\<forall>(t', mx) \<in> set ts. queued (lst (wld b')) (mx_storager mx) q t' CommonQueue
          = queued (lst (wld b)) (mx_storager mx) q t' CommonQueue
            @ jobs_for (queueConfig ms) q t' (Slice (pushed env (ids b) q cs)))"
proof -
  let ?jobs = "pushed env (ids b) q cs"
  obtain g where g: "ParseJob (e_gen env) (e_ServiceId env) (ids b) (a # cs) = (Ret (Inr (?jobs, map JobId (Slice ?jobs))), g)"
    using ParseJob_pushed [OF meta(1), of env "ids b" cs] by blast
  have slice: "Slice ?jobs \<noteq> []"
  proof
    assume "Slice ?jobs = []"
    then show False using contents(1) pushed_simps(4) [of env "ids b" q cs] by simp
  qed
  have dist: "distinct (map fst ts)" using ms_inv_workers [OF assms(2) topics(1)] by (simp add: wf_map_def)
  obtain jobs' b2 where b2: "AddJobs_loop env (queueConfig ms) ts ?jobs None (b\<lparr>ids := g\<rparr>) = Ret (None, jobs', b2)" "up (wld b2)"
    "\<forall>(t', mx) \<in> set ts. queued (lst (wld b2)) (mx_storager mx) q t' CommonQueue
       = queued (lst (wld b)) (mx_storager mx) q t' CommonQueue @ jobs_for (queueConfig ms) q t' (Slice ?jobs)"
    "queueName jobs' = q" "b2 = b\<lparr>ids := g, wld := wld b2\<rparr>"
    using AddJobs_loop_fanout [OF gw_redis, of "b\<lparr>ids := g\<rparr>" ts "queueConfig ms" ?jobs None]
      assms(1) dist topics(3) slice pushed_wf [OF gw_service contents(2)] by auto
  obtain w3 where w3: "WriteTaskDebug cl (unix env) (e_net env) (e_td env) q (Slice jobs') (wld b2) = Ret w3" "up w3"
    "\<forall>s q t qt. plain_name q \<longrightarrow> queued (lst w3) s q t qt = queued (lst (wld b2)) s q t qt"
    using WriteTaskDebug_keeps_jobs [OF b2(2) gw_debug assms(3)] by blast
  have add: "MuxServer_AddJobs env ms ?jobs (b\<lparr>ids := g\<rparr>) = Ret (None, jobs', b2)"
    using b2(1) MuxServer_AddJobs_loop [of ms ?jobs ts env "b\<lparr>ids := g\<rparr>"] topics(1,2) by simp
  let ?b' = "b2\<lparr>wld := w3, GatewayStat := GatewayStats_Add (GatewayStat b2) q True\<rparr>"
  have st: "MuxStat b2 = MuxStat b" "GatewayStat b2 = GatewayStat b" by (subst b2(5), simp)+
  have "gw_lpush env ms (a # cs) auth b = Ret ([gateway_resp (map JobId (Slice ?jobs)) (inTraceId ?jobs) None], ?b')"
    using g meta(2) add w3(1) b2(4) by (simp add: gw_lpush_def gw_redis Let_def)
  then show ?thesis using w3 b2(3) assms(3) st by (intro exI [of _ ?b']) auto
qed

lemma rpop_takes_oldest:
  assumes "up (wld b)"
    and meta: "strings_SplitN2 a (CHR ''/'') = q # t # r" "checkAuth auth q t = None"
    and mx: "GetMuxer ms q t = Inr mx" "redisCli (mx_storager mx)"
    and jobs: "queued (lst (wld b)) (mx_storager mx) q t CommonQueue = j # js"
  shows "\<exists>b' jobs'. gw_rpop et env ms (a # cs) auth b = Ret ([RespBulk (Jobs_Encode jobs')], b') \<and> Slice jobs' = [j]
     \<and> up (wld b') \<and> queued (lst (wld b')) (mx_storager mx) q t CommonQueue = js"
proof -
  obtain jobs' g w' where g: "GetJobsFromQueue cl (e_gen env) (e_ServiceId env) (mx_storager mx) q t CommonQueue (ids b) (wld b)
      = Ret ((Some jobs', None), g, w')" "Slice jobs' = [j]" "up w'"
    "queued (lst w') (mx_storager mx) q t CommonQueue = js"
    using GetJobs_dequeues [OF assms(1) mx(2) jobs, of "e_gen env" "e_ServiceId env" "ids b"] by auto
  have "GetJobs env ms q t CommonQueue b = Ret (Inr (Some jobs', None), b\<lparr>wld := w', ids := g\<rparr>)"
    using mx(1) g(1) by (auto simp: GetJobs_def GetMuxer_def gw_redis split: option.splits list.splits)
  then have "gw_rpop et env ms (a # cs) auth b = Ret ([RespBulk (Jobs_Encode jobs')], b\<lparr>wld := w', ids := g\<rparr>)"
    using meta by (simp add: gw_rpop_def)
  with g show ?thesis by (intro exI [of _ "b\<lparr>wld := w', ids := g\<rparr>"] exI [of _ jobs']) simp
qed

end

subsection \<open>Sessions\<close>

text \<open>
  The commands \<open>NewGateway\<close> registers, and what a client's connection does with a sequence of them. The
  text of \<open>info\<close> (time and process) is a parameter, and of the server library (\<open>redeo\<close>): the name under which it looks a
  command up, which does not depend on the case in which the client writes it, and its answer to an unknown command.
\<close>

record ('w, 'g) gw_params =
  gp_lookup :: "string \<Rightarrow> string"
  gp_wrong :: "string \<Rightarrow> string"
  gp_unknown :: "string \<Rightarrow> string"
  gp_info :: string
  gp_err_text :: "redis_err \<Rightarrow> string"
  gp_confs :: QueueConfs
  gp_env :: "('w, 'g) env"
  gp_server :: MuxServer

definition gw_handle ::
  "('w, 'g) gw_params \<Rightarrow> string \<times> string list \<Rightarrow> auth_value \<times> ('w, 'g) bus \<Rightarrow> (resp list \<times> auth_value \<times> ('w, 'g) bus) go" where
  "gw_handle P cmd s =
     (case (cmd, s) of ((name, args), (auth, b)) \<Rightarrow>
        let n = gp_lookup P name in
        if n = ''auth'' then (case gw_auth (gp_wrong P) (gp_confs P) name args auth of (rs, auth') \<Rightarrow> Ret (rs, auth', b))
        else if n = ''ping'' then Ret (gw_ping auth, auth, b)
        else if n = ''lpush'' then go_bind (gw_lpush (gp_env P) (gp_server P) args auth b) (\<lambda>(rs, b'). Ret (rs, auth, b'))
        else if n = ''rpop'' then go_bind (gw_rpop (gp_err_text P) (gp_env P) (gp_server P) args auth b) (\<lambda>(rs, b'). Ret (rs, auth, b'))
        else if n = ''info'' then Ret ([RespInline (gp_info P)], auth, b)
        else Ret ([RespError (gp_unknown P name)], auth, b))"

fun gw_session ::
  "('w, 'g) gw_params \<Rightarrow> (string \<times> string list) list \<Rightarrow> auth_value \<times> ('w, 'g) bus \<Rightarrow> (resp list list \<times> auth_value \<times> ('w, 'g) bus) go" where
  "gw_session P [] s = Ret ([], s)"
| "gw_session P (cmd # cmds) s =
     go_bind (gw_handle P cmd s) (\<lambda>(rs, s1). go_bind (gw_session P cmds s1) (\<lambda>(rss, s2). Ret (rs # rss, s2)))"

text \<open>An \<open>auth\<close> command that carries a right password.\<close>

definition right_password :: "('w, 'g) gw_params \<Rightarrow> string \<times> string list \<Rightarrow> bool" where
  "right_password P cmd \<longleftrightarrow> gp_lookup P (fst cmd) = ''auth'' \<and>
     (\<exists>v pw more. snd cmd \<noteq> [] \<and> strings_Split (hd (snd cmd)) '':'' = v # pw # more \<and> password_ok (gp_confs P) v pw)"

lemma checkAuth_unknown: "\<nexists>v. auth = AuthName v \<Longrightarrow> checkAuth auth q t = Some ''NOAUTH Authentication required.''"
  by (cases auth) (simp_all add: checkAuth_def Let_def)

text \<open>The same bus up to the id generator.\<close>

definition same_bus :: "('w, 'g) bus \<Rightarrow> ('w, 'g) bus \<Rightarrow> bool" where
  "same_bus b b' \<longleftrightarrow> b' = b\<lparr>ids := ids b'\<rparr>"

lemma same_bus_refl [simp]: "same_bus b b" "same_bus b (b\<lparr>ids := g\<rparr>)"
  by (simp_all add: same_bus_def)

lemma gw_lpush_unknown:
  assumes "\<nexists>v. auth = AuthName v"
  shows "\<exists>rs b'. gw_lpush env ms args auth b = Ret (rs, b') \<and> same_bus b b'"
proof (cases args)
  case (Cons a as)
  then show ?thesis using checkAuth_unknown [OF assms]
    by (cases "strings_SplitN2 a (CHR ''/'')"; cases "tl (strings_SplitN2 a (CHR ''/''))")
       (simp_all add: gw_lpush_def ParseJob_def Let_def case_prod_beta)
qed (simp add: gw_lpush_def)

lemma gw_rpop_unknown:
  assumes "\<nexists>v. auth = AuthName v"
  shows "\<exists>rs. gw_rpop et env ms args auth b = Ret (rs, b)"
proof (cases args)
  case (Cons a as)
  then show ?thesis using checkAuth_unknown [OF assms]
    by (cases "strings_SplitN2 a (CHR ''/'')"; cases "tl (strings_SplitN2 a (CHR ''/''))") (simp_all add: gw_rpop_def)
qed (simp add: gw_rpop_def)

lemma gw_auth_unknown:
  assumes "\<nexists>v. auth = AuthName v" "gp_lookup P name = ''auth''" "\<not> right_password P (name, args)"
  shows "\<nexists>v. snd (gw_auth wrong (gp_confs P) n args auth) = AuthName v"
proof (cases args)
  case Nil
  then show ?thesis using assms(1) by (simp add: gw_auth_def)
next
  case (Cons a as)
  then show ?thesis using gw_auth_cases [of wrong "gp_confs P" n a as auth] assms(2,3) by (auto simp: right_password_def)
qed

lemma gw_handle_unknown:
  assumes "\<nexists>v. auth = AuthName v" "\<not> right_password P cmd"
  shows "\<exists>rs auth' b'. gw_handle P cmd (auth, b) = Ret (rs, auth', b') \<and> (\<nexists>v. auth' = AuthName v) \<and> same_bus b b'"
proof -
  obtain name args where cmd: "cmd = (name, args)" by (cases cmd)
  obtain rs2 b2 where p: "gw_lpush (gp_env P) (gp_server P) args auth b = Ret (rs2, b2)" "same_bus b b2"
    using gw_lpush_unknown [OF assms(1)] by blast
  obtain rs3 where r: "gw_rpop (gp_err_text P) (gp_env P) (gp_server P) args auth b = Ret (rs3, b)"
    using gw_rpop_unknown [OF assms(1)] by blast
  show ?thesis
  proof (cases "gp_lookup P name = ''auth''")
    case True
    then show ?thesis using gw_auth_unknown [OF assms(1) True, of args "gp_wrong P" name] assms(2)
      by (cases "gw_auth (gp_wrong P) (gp_confs P) name args auth") (simp add: gw_handle_def cmd Let_def)
  next
    case False
    then show ?thesis using assms(1) p r by (simp add: gw_handle_def cmd Let_def)
  qed
qed

text \<open>A session in which no right password is given changes nothing but the id generator.\<close>

lemma gw_session_unknown:
  "\<nexists>v. auth = AuthName v \<Longrightarrow> list_all (\<lambda>cmd. \<not> right_password P cmd) cmds \<Longrightarrow>
   \<exists>rss auth' b'. gw_session P cmds (auth, b) = Ret (rss, auth', b') \<and> length rss = length cmds \<and> same_bus b b'"
proof (induction cmds arbitrary: auth b)
  case (Cons cmd cmds)
  then obtain rs auth1 b1 where s: "gw_handle P cmd (auth, b) = Ret (rs, auth1, b1)" "\<nexists>v. auth1 = AuthName v" "same_bus b b1"
    using gw_handle_unknown [of auth P cmd b] by auto
  then obtain rss auth' b' where t: "gw_session P cmds (auth1, b1) = Ret (rss, auth', b')" "length rss = length cmds" "same_bus b1 b'"
    using Cons.IH [of auth1 b1] Cons.prems(2) by auto
  have "same_bus b b'" using s(3) t(3) by (cases b; cases b1; cases b') (simp add: same_bus_def)
  then show ?case using s t by simp
qed simp

lemma same_bus_fields: "same_bus b b' \<Longrightarrow> wld b' = wld b \<and> MuxStat b' = MuxStat b \<and> GatewayStat b' = GatewayStat b"
  by (cases b; cases b') (simp add: same_bus_def)

end
