(* ===== verification/RedisConn.thy ===== *)
theory RedisConn
  imports RedisCommands
begin

text \<open>
  The wire protocol of the Redis client (\<open>utility/msgRedis/conn.go\<close>): how a request is written and
  how a reply is read. The buffered writer of a connection is the byte sequence written so far, the
  buffered reader the byte sequence still to be read; a read past its end is the I/O error \<open>EOF\<close>.

  The lemmas show that a written length is the decimal text of the number, that a reply in the
  format of the protocol (\<open>goredis.go\<close>) is read back exactly and nothing behind it is consumed, and
  that reading always makes progress.
\<close>

definition DefaultBufferSize :: nat where
  "DefaultBufferSize = 64"

definition CommonErrPrefix :: string where
  "CommonErrPrefix = ''CommonError:''"

definition is_common :: "redis_err \<Rightarrow> bool" where
  "is_common e =
     (case e of
        ErrKeyNotExist \<Rightarrow> True | ErrBadArgs \<Rightarrow> True | ErrEmptyDB \<Rightarrow> True | ErrResponseType \<Rightarrow> True
      | CommonErr t \<Rightarrow> True
      | PlainErr t \<Rightarrow> strings_Contains t CommonErrPrefix
      | _ \<Rightarrow> False)"

subsection \<open>Writing a request\<close>

text \<open>
  \<open>writeLen\<close> fills the connection's buffer from its end: CR LF, the digits of \<open>n\<close> from the last to
  the first, the prefix. The first argument of the loop is the number of free cells (\<open>pos + 1\<close>).
\<close>

fun writeLen_loop :: "nat \<Rightarrow> nat \<Rightarrow> string \<Rightarrow> nat \<times> string" where
  "writeLen_loop 0 i acc = (0, acc)"
| "writeLen_loop (Suc p) i acc =
     (if i = 0 then (Suc p, acc) else writeLen_loop p (i div 10) (digit_char (i mod 10) # acc))"

definition writeLen :: "char \<Rightarrow> nat \<Rightarrow> string go" where
  "writeLen pfx n =
     (if n = 0 then Ret (pfx # ''0'' @ CRLF)
      else (case writeLen_loop (DefaultBufferSize - 2) n CRLF of
              (0, acc) \<Rightarrow> Panic
            | (Suc p, acc) \<Rightarrow> Ret (pfx # acc)))"

definition writeBytes :: "string \<Rightarrow> string go" where
  "writeBytes b = go_bind (writeLen (CHR ''$'') (length b)) (\<lambda>h. Ret (h @ b @ CRLF))"

definition writeString :: "string \<Rightarrow> string go" where
  "writeString s = go_bind (writeLen (CHR ''$'') (length s)) (\<lambda>h. Ret (h @ s @ CRLF))"

definition writeInt64 :: "int \<Rightarrow> string go" where
  "writeInt64 n = writeBytes (show_int n)"

definition write_arg :: "arg \<Rightarrow> string go" where
  "write_arg a =
     (case a of
        AInt n \<Rightarrow> writeInt64 n
      | AFloat t \<Rightarrow> writeBytes t
      | AStr s \<Rightarrow> writeString s
      | ABytes b \<Rightarrow> writeBytes b
      | ABool b \<Rightarrow> if b then writeString ''1'' else writeString ''0''
      | ANil \<Rightarrow> writeString [])"

fun write_args :: "arg list \<Rightarrow> string go" where
  "write_args [] = Ret []"
| "write_args (a # as) = go_bind (write_arg a) (\<lambda>t. go_bind (write_args as) (\<lambda>u. Ret (t @ u)))"

definition writeRequest :: "string \<Rightarrow> arg list \<Rightarrow> string go" where
  "writeRequest command args =
     go_bind (writeLen (CHR ''*'') (1 + length args)) (\<lambda>h.
     go_bind (writeString command) (\<lambda>c.
     go_bind (write_args args) (\<lambda>t. Ret (h @ c @ t))))"

text \<open>The text that represents an argument on the wire.\<close>

definition arg_text :: "arg \<Rightarrow> string" where
  "arg_text a =
     (case a of
        AInt n \<Rightarrow> show_int n | AFloat t \<Rightarrow> t | AStr s \<Rightarrow> s | ABytes b \<Rightarrow> b
      | ABool b \<Rightarrow> if b then ''1'' else ''0'' | ANil \<Rightarrow> [])"

definition bulk :: "string \<Rightarrow> string" where
  "bulk s = CHR ''$'' # show_nat (length s) @ CRLF @ s @ CRLF"

lemma digits_rec: "0 < n \<Longrightarrow> show_nat n = (if n div 10 = 0 then [] else show_nat (n div 10)) @ [digit_char (n mod 10)]"
  by (subst show_nat.simps) (auto simp: div_eq_0_iff)

lemma writeLen_loop_digits:
  "i < 10 ^ p \<Longrightarrow> 0 < i \<Longrightarrow> \<exists>p'. writeLen_loop (Suc p) i acc = (Suc p', show_nat i @ acc)"
proof (induction p arbitrary: i acc)
  case 0
  then show ?case by simp
next
  case (Suc p)
  show ?case
  proof (cases "i div 10 = 0")
    case True
    then have "i < 10" by auto
    with Suc.prems True show ?thesis by (simp add: digits_rec [of i])
  next
    case False
    have "i div 10 < 10 ^ p" using Suc.prems(1) by auto
    then obtain p' where "writeLen_loop (Suc p) (i div 10) (digit_char (i mod 10) # acc)
        = (Suc p', show_nat (i div 10) @ digit_char (i mod 10) # acc)"
      using Suc.IH False by blast
    with False Suc.prems(2) show ?thesis by (auto simp: digits_rec [of i])
  qed
qed

text \<open>The 64-byte buffer is large enough for every length a 64-bit machine can produce.\<close>

lemma writeLen_ok:
  assumes "n < 10 ^ 61"
  shows "writeLen c n = Ret (c # show_nat n @ CRLF)"
proof (cases "n = 0")
  case True
  moreover have "show_nat 0 = ''0''" by code_simp
  ultimately show ?thesis by (simp add: writeLen_def)
next
  case False
  then have "0 < n" by simp
  then obtain p' where "writeLen_loop (Suc 61) n CRLF = (Suc p', show_nat n @ CRLF)"
    using writeLen_loop_digits [OF assms] by blast
  moreover have "DefaultBufferSize - 2 = Suc 61" by (simp add: DefaultBufferSize_def)
  ultimately show ?thesis using False by (simp only: writeLen_def) simp
qed

lemma writeString_ok: "length s < 10 ^ 61 \<Longrightarrow> writeString s = Ret (bulk s)"
  by (simp add: writeString_def writeLen_ok bulk_def)

lemma writeBytes_ok: "length s < 10 ^ 61 \<Longrightarrow> writeBytes s = Ret (bulk s)"
  by (simp add: writeBytes_def writeLen_ok bulk_def)

lemma write_arg_ok: "length (arg_text a) < 10 ^ 61 \<Longrightarrow> write_arg a = Ret (bulk (arg_text a))"
  by (cases a) (auto simp: write_arg_def arg_text_def writeString_ok writeBytes_ok writeInt64_def)

lemma write_args_ok:
  "\<forall>a \<in> set as. length (arg_text a) < 10 ^ 61 \<Longrightarrow>
   write_args as = Ret (concat (map (\<lambda>a. bulk (arg_text a)) as))"
  by (induction as) (simp_all add: write_arg_ok)

lemma writeRequest_ok:
  assumes "length command < 10 ^ 61" "\<forall>a \<in> set as. length (arg_text a) < 10 ^ 61" "Suc (length as) < 10 ^ 61"
  shows "writeRequest command as =
    Ret (CHR ''*'' # show_nat (Suc (length as)) @ CRLF @ concat (map bulk (command # map arg_text as)))"
  using assms by (simp add: writeRequest_def writeLen_ok writeString_ok write_args_ok comp_def)

subsection \<open>Reading a reply\<close>

text \<open>\<open>ReadBytes('\n')\<close>: the line with its terminator, or EOF with everything consumed.\<close>

definition read_bytes_lf :: "string \<Rightarrow> string option \<times> string" where
  "read_bytes_lf s =
     (case dropWhile (\<lambda>c. c \<noteq> LF) s of
        [] \<Rightarrow> (None, [])
      | _ # r \<Rightarrow> (Some (takeWhile (\<lambda>c. c \<noteq> LF) s @ [LF]), r))"

definition readLine :: "string \<Rightarrow> (redis_err + string) \<times> string" where
  "readLine s =
     (case read_bytes_lf s of
        (None, r) \<Rightarrow> (Inl (PlainErr ''EOF''), r)
      | (Some p, r) \<Rightarrow>
          if length p \<le> 2 then (Inl ErrBadTerminator, r) else (Inr (take (length p - 2) p), r))"

definition parseInt :: "string \<Rightarrow> redis_err + int" where
  "parseInt p = (case ParseInt p of (n, None) \<Rightarrow> Inr n | (_, Some e) \<Rightarrow> Inl (CommonErr ''strconv.ParseInt''))"

definition maxAlloc :: int where
  "maxAlloc = 2 ^ 48"

text \<open>
  \<open>make([]byte, n + 2)\<close> panics for a negative length (also after wrap-around) and beyond the address
  space; the slice \<open>result[:n]\<close> panics for a negative \<open>n\<close>.
\<close>

definition parseBulkString :: "string \<Rightarrow> string \<Rightarrow> (redis_err + reply) go \<times> string" where
  "parseBulkString p s =
     (case ParseInt p of
        (_, Some e) \<Rightarrow> (Ret (Inl (CommonErr ''strconv.ParseInt'')), s)
      | (n, None) \<Rightarrow>
          if n = -1 then (Ret (Inr RNil), s)
          else if i64 (n + 2) < 0 \<or> maxAlloc < i64 (n + 2) \<or> n < 0 then (Panic, s)
          else if length s < nat n + 2
          then (Ret (Inl (PlainErr (if s = [] then ''EOF'' else ''unexpected EOF''))), [])
          else (Ret (Inr (RBytes (take (nat n) s))), drop (nat n + 2) s))"

lemma read_bytes_lf_len: "read_bytes_lf s = (Some p, r) \<Longrightarrow> length r < length s"
proof -
  assume a: "read_bytes_lf s = (Some p, r)"
  then obtain x where "dropWhile (\<lambda>c. c \<noteq> LF) s = x # r"
    by (auto simp: read_bytes_lf_def split: list.splits)
  then have "length (x # r) \<le> length s" by (metis length_dropWhile_le)
  then show ?thesis by simp
qed

lemma readLine_len: "readLine s = (Inr p, r) \<Longrightarrow> length r < length s"
  by (auto simp: readLine_def dest: read_bytes_lf_len split: option.splits prod.splits if_splits)

text \<open>
  \<open>readResponse\<close> and the element loop of \<open>parseArray\<close>. The guard \<open>length r \<le> length s\<close> always holds
  (\<open>readResponse_len\<close>). The nil slice \<open>parseArray\<close> returns for length -1 is, as an \<open>interface{}\<close>,
  a slice without elements and not nil.
\<close>

function readResponse :: "string \<Rightarrow> (redis_err + reply) go \<times> string"
  and readElems :: "nat \<Rightarrow> string \<Rightarrow> (redis_err + reply list) go \<times> string" where
  "readResponse s =
     (case readLine s of
        (Inl e, r) \<Rightarrow> (Ret (Inl e), r)
      | (Inr [], r) \<Rightarrow> (Panic, r)
      | (Inr (t # p), r) \<Rightarrow>
          if t = CHR ''-'' then (Ret (Inl (CommonErr p)), r)
          else if t = CHR '':'' then
            (Ret (case parseInt p of Inl e \<Rightarrow> Inl e | Inr n \<Rightarrow> Inr (RInt n)), r)
          else if t = CHR ''+'' then (Ret (Inr (RBytes p)), r)
          else if t = CHR ''$'' then parseBulkString p r
          else if t = CHR ''*'' then
            (case ParseInt p of
               (_, Some e) \<Rightarrow> (Ret (Inl (CommonErr ''strconv.ParseInt'')), r)
             | (n, None) \<Rightarrow>
                 if n = -1 then (Ret (Inr (RArr [])), r)
                 else if n < 0 \<or> maxAlloc < n * 16 then (Panic, r)
                 else (case readElems (nat n) r of
                         (Panic, r') \<Rightarrow> (Panic, r')
                       | (Ret (Inl e), r') \<Rightarrow> (Ret (Inl e), r')
                       | (Ret (Inr vs), r') \<Rightarrow> (Ret (Inr (RArr vs)), r')))
          else (Ret (Inl (CommonErr ''Err type'')), r))"
| "readElems 0 s = (Ret (Inr []), s)"
| "readElems (Suc n) s =
     (case readResponse s of
        (Panic, r) \<Rightarrow> (Panic, r)
      | (Ret (Inl e), r) \<Rightarrow> (Ret (Inl e), r)
      | (Ret (Inr v), r) \<Rightarrow>
          if length r \<le> length s then
            (case readElems n r of
               (Panic, r') \<Rightarrow> (Panic, r')
             | (Ret (Inl e), r') \<Rightarrow> (Ret (Inl e), r')
             | (Ret (Inr vs), r') \<Rightarrow> (Ret (Inr (v # vs)), r'))
          else (Panic, r))"
  by pat_completeness auto
termination
  by (relation "measures [case_sum length (length \<circ> snd), case_sum (\<lambda>_. 0) (Suc \<circ> fst)]")
     (auto dest: readLine_len [OF sym])

declare readResponse.simps [simp del] readElems.simps(2) [simp del]

subsection \<open>The reply format and the round trip\<close>

text \<open>The format of replies as \<open>goredis.go\<close> documents it.\<close>

fun resp_encode :: "reply \<Rightarrow> string" where
  "resp_encode RNil = ''$-1'' @ CRLF"
| "resp_encode (RInt n) = CHR '':'' # show_int n @ CRLF"
| "resp_encode (RBytes b) = bulk b"
| "resp_encode (RArr vs) = CHR ''*'' # show_nat (length vs) @ CRLF @ concat (map resp_encode vs)"

text \<open>Replies whose integers fit and whose sizes can be allocated.\<close>

fun wf_reply :: "reply \<Rightarrow> bool" where
  "wf_reply RNil = True"
| "wf_reply (RInt n) = in_i64 n"
| "wf_reply (RBytes b) = (int (length b) + 2 \<le> maxAlloc)"
| "wf_reply (RArr vs) = (int (length vs) * 16 \<le> maxAlloc \<and> (\<forall>v \<in> set vs. wf_reply v))"

lemma LF_no_digit [simp]: "LF \<notin> set (show_nat n)" "LF \<notin> set (show_int i)"
  by (auto simp: show_int_def no_digit_in_show_nat digit_val_def)

lemma read_bytes_lf_line: "LF \<notin> set p \<Longrightarrow> read_bytes_lf (p @ LF # rest) = (Some (p @ [LF]), rest)"
proof -
  assume a: "LF \<notin> set p"
  then have "dropWhile (\<lambda>c. c \<noteq> LF) (p @ LF # rest) = LF # rest"
    and "takeWhile (\<lambda>c. c \<noteq> LF) (p @ LF # rest) = p"
    by (induction p) auto
  then show ?thesis by (simp add: read_bytes_lf_def)
qed

lemma readLine_line:
  assumes "LF \<notin> set p" "p \<noteq> []"
  shows "readLine (p @ CRLF @ rest) = (Inr p, rest)"
proof -
  have "read_bytes_lf ((p @ [CR]) @ LF # rest) = (Some ((p @ [CR]) @ [LF]), rest)"
    using assms by (intro read_bytes_lf_line) auto
  then show ?thesis using assms(2) by (cases p) (auto simp: readLine_def)
qed

lemma readLine_tagged: "LF \<notin> set (t # p) \<Longrightarrow> readLine (t # p @ CR # LF # rest) = (Inr (t # p), rest)"
  using readLine_line [of "t # p" rest] by simp

lemma maxAlloc_i64: "0 \<le> n \<Longrightarrow> n \<le> maxAlloc \<Longrightarrow> in_i64 n"
  by (simp add: maxAlloc_def in_i64_def)

lemma ParseInt_len: "int n \<le> maxAlloc \<Longrightarrow> ParseInt (show_nat n) = (int n, None)"
  using ParseInt_show_int [of "int n"] by (simp add: show_int_def maxAlloc_i64)

lemma ParseInt_minus1 [simp]: "ParseInt ''-1'' = (-1, None)"
proof -
  have "show_nat 1 = ''1''" by (simp add: show_nat.simps) code_simp
  then show ?thesis using ParseInt_show_int [of "-1"] by (simp add: show_int_def in_i64_def)
qed

lemma parseBulkString_ok:
  assumes "int (length b) + 2 \<le> maxAlloc"
  shows "parseBulkString (show_nat (length b)) (b @ CR # LF # rest) = (Ret (Inr (RBytes b)), rest)"
  using assms ParseInt_len [of "length b"] by (simp add: parseBulkString_def maxAlloc_i64)

lemma readResponse_encode:
  "wf_reply r \<Longrightarrow> readResponse (resp_encode r @ rest) = (Ret (Inr r), rest)"
proof (induction r arbitrary: rest)
  case RNil
  then show ?case
    using readLine_tagged [of "CHR ''$''" "''-1''" rest] by (simp add: readResponse.simps parseBulkString_def)
next
  case (RInt n)
  then show ?case
    using readLine_tagged [of "CHR '':''" "show_int n" rest] by (simp add: readResponse.simps parseInt_def)
next
  case (RBytes b)
  then show ?case
    using readLine_tagged [of "CHR ''$''" "show_nat (length b)" "b @ CR # LF # rest"] parseBulkString_ok
    by (simp add: readResponse.simps bulk_def)
next
  case (RArr vs)
  have elems: "readElems (length us) (concat (map resp_encode us) @ rest) = (Ret (Inr us), rest)"
    if "set us \<subseteq> set vs" for us
    using that
  proof (induction us)
    case (Cons u us)
    have "readResponse (resp_encode u @ concat (map resp_encode us) @ rest)
        = (Ret (Inr u), concat (map resp_encode us) @ rest)"
      using RArr.IH [of u] RArr.prems Cons.prems by auto
    with Cons show ?case by (simp add: readElems.simps(2))
  qed simp
  have l: "int (length vs) * 16 \<le> maxAlloc" and l1: "int (length vs) \<le> maxAlloc" using RArr.prems by auto
  have "readLine (resp_encode (RArr vs) @ rest)
      = (Inr (CHR ''*'' # show_nat (length vs)), concat (map resp_encode vs) @ rest)"
    using readLine_tagged [of "CHR ''*''" "show_nat (length vs)" "concat (map resp_encode vs) @ rest"] by simp
  with elems [of vs] l ParseInt_len [OF l1] show ?case
    by (simp add: readResponse.simps)
qed

text \<open>Status and error lines; an error reply is a common error, so the connection is kept.\<close>

lemma readResponse_status: "LF \<notin> set p \<Longrightarrow> readResponse (CHR ''+'' # p @ CRLF @ rest) = (Ret (Inr (RBytes p)), rest)"
  using readLine_tagged [of "CHR ''+''" p rest] by (simp add: readResponse.simps)

lemma readResponse_error: "LF \<notin> set p \<Longrightarrow> readResponse (CHR ''-'' # p @ CRLF @ rest) = (Ret (Inl (CommonErr p)), rest)"
  using readLine_tagged [of "CHR ''-''" p rest] by (simp add: readResponse.simps)

text \<open>Reading consumes: the guard in the element loop never fails, and no reply is read from nothing.\<close>

lemma read_bytes_lf_le: "read_bytes_lf s = (p, r) \<Longrightarrow> length r \<le> length s"
proof (cases p)
  case None
  then show "read_bytes_lf s = (p, r) \<Longrightarrow> length r \<le> length s"
    by (auto simp: read_bytes_lf_def split: list.splits)
qed (auto dest: read_bytes_lf_len)

lemma readLine_le: "readLine s = (x, r) \<Longrightarrow> length r \<le> length s"
  by (auto simp: readLine_def dest: read_bytes_lf_le split: option.splits prod.splits if_splits)

lemma parseBulkString_le: "parseBulkString p s = (x, r) \<Longrightarrow> length r \<le> length s"
  by (auto simp: parseBulkString_def split: prod.splits option.splits if_splits)

lemma readResponse_readElems_le:
  "length (snd (readResponse s)) \<le> length s"
  "length (snd (readElems n s)) \<le> length s"
proof (induction s and n s rule: readResponse_readElems.induct)
  case (1 s)
  obtain l r0 where l: "readLine s = (l, r0)" by (cases "readLine s")
  then have le: "length r0 \<le> length s" by (rule readLine_le)
  have bulk: "length (snd (parseBulkString p r0)) \<le> length s" for p
    using parseBulkString_le [of p r0] le by (cases "parseBulkString p r0") fastforce
  have elems: "length (snd (readElems (nat n) r0)) \<le> length s"
    if "l = Inr (CHR ''*'' # p)" "ParseInt p = (n, None)" "n \<noteq> -1" "\<not> (n < 0 \<or> maxAlloc < n * 16)" for p n
    using 1 l le that by fastforce
  show ?case using l le bulk elems
    by (fastforce simp: readResponse.simps [of s]
        split: sum.splits list.splits if_splits prod.splits option.splits go.splits)
next
  case (2 s)
  then show ?case by simp
next
  case (3 n s)
  then show ?case
    by (fastforce simp: readElems.simps(2) [of n s] split: sum.splits if_splits prod.splits go.splits)
qed

text \<open>A bulk reply whose length is negative but not -1 makes the reader panic.\<close>

lemma negative_length_panics: "fst (readResponse (''$-2'' @ CRLF @ rest)) = Panic"
proof -
  have "show_nat 2 = ''2''" by (simp add: show_nat.simps) code_simp
  then have "ParseInt ''-2'' = (-2, None)" using ParseInt_show_int [of "-2"] by (simp add: show_int_def in_i64_def)
  then show ?thesis using readLine_tagged [of "CHR ''$''" "''-2''" rest]
    by (simp add: readResponse.simps parseBulkString_def)
qed

end
