(* ===== verification/MemRedis.thy ===== *)
theory MemRedis
  imports Gateway RedisConn
begin

text \<open>
  A Redis server that keeps its lists in memory: the list commands the bus uses, as the Redis
  documentation describes them. It shows that the laws of \<open>redis_lists\<close> can hold, provides the
  concrete worlds of the examples, and is the other end of the wire in \<open>wire_call\<close>, which sends a
  command through the encoder and the decoder of \<open>RedisConn\<close>.
\<close>

type_synonym mem = "string \<Rightarrow> string \<Rightarrow> string list"

text \<open>Negative indices count from the end.\<close>

definition range_index :: "int \<Rightarrow> nat \<Rightarrow> int" where
  "range_index i n = (if i < 0 then int n + i else i)"

definition list_range :: "int \<Rightarrow> int \<Rightarrow> 'a list \<Rightarrow> 'a list" where
  "list_range i j xs =
     (let a = nat (range_index i (length xs)); b = range_index j (length xs)
      in drop a (take (nat (b + 1)) xs))"

definition index_arg :: "arg \<Rightarrow> int option" where
  "index_arg a =
     (case a of
        AInt n \<Rightarrow> Some n
      | AStr s \<Rightarrow> (case ParseInt s of (n, None) \<Rightarrow> Some n | _ \<Rightarrow> None)
      | _ \<Rightarrow> None)"

definition mem_pop :: "mem \<Rightarrow> string \<Rightarrow> string \<Rightarrow> reply \<times> mem" where
  "mem_pop w a k =
     (if w a k = [] then (RNil, w) else (RBytes (last (w a k)), put w a k (butlast (w a k))))"

fun mem_exec :: "string \<Rightarrow> string \<Rightarrow> arg list \<Rightarrow> mem \<Rightarrow> (redis_err + reply) \<times> mem" where
  "mem_exec a cmd (AStr k # as) w =
     (if cmd = ''LPUSH'' then
        (let xs = rev (map arg_text as) @ w a k in (Inr (RInt (int (length xs))), put w a k xs))
      else if cmd = ''RPOP'' \<and> as = [] then (let (r, w') = mem_pop w a k in (Inr r, w'))
      else if cmd = ''LLEN'' \<and> as = [] then (Inr (RInt (int (length (w a k)))), w)
      else if cmd = ''DEL'' \<and> as = [] then
        (Inr (RInt (if w a k = [] then 0 else 1)), put w a k [])
      else if cmd = ''RPOPLPUSH'' then
        (case as of
           [AStr k'] \<Rightarrow>
             (case mem_pop w a k of
                (RBytes x, w') \<Rightarrow> (Inr (RBytes x), put w' a k' (x # w' a k'))
              | (r, w') \<Rightarrow> (Inr r, w'))
         | _ \<Rightarrow> (Inl (CommonErr ''ERR wrong number of arguments''), w))
      else if cmd = ''LRANGE'' then
        (case as of
           [i, j] \<Rightarrow>
             (case (index_arg i, index_arg j) of
                (Some i', Some j') \<Rightarrow> (Inr (RArr (map RBytes (list_range i' j' (w a k)))), w)
              | _ \<Rightarrow> (Inl (CommonErr ''ERR value is not an integer or out of range''), w))
         | _ \<Rightarrow> (Inl (CommonErr ''ERR wrong number of arguments''), w))
      else if cmd = ''LTRIM'' then
        (case as of
           [i, j] \<Rightarrow>
             (case (index_arg i, index_arg j) of
                (Some i', Some j') \<Rightarrow> (Inr (RBytes ''OK''), put w a k (list_range i' j' (w a k)))
              | _ \<Rightarrow> (Inl (CommonErr ''ERR value is not an integer or out of range''), w))
         | _ \<Rightarrow> (Inl (CommonErr ''ERR wrong number of arguments''), w))
      else (Inl (CommonErr ''ERR unknown command''), w))"
| "mem_exec a cmd as w = (Inl (CommonErr ''ERR unknown command''), w)"

definition mem_up :: "mem \<Rightarrow> bool" where
  "mem_up w = True"

lemma list_range_prefix: "0 \<le> n \<Longrightarrow> list_range 0 n xs = take (nat n + 1) xs"
  by (simp add: list_range_def range_index_def Let_def nat_add_distrib)

interpretation mem: redis_lists mem_exec "\<lambda>w. w" mem_up
proof
  show "\<exists>n w'. mem_exec a ''LPUSH'' (AStr k # map AStr vs) w = (Inr (RInt n), w') \<and> mem_up w'
      \<and> w' = put w a k (rev vs @ w a k)" for w vs a k
    by (simp add: mem_up_def arg_text_def comp_def)
  show "w a k = [] \<Longrightarrow> \<exists>w'. mem_exec a ''RPOP'' [AStr k] w = (Inr RNil, w') \<and> mem_up w' \<and> w' = w" for w a k
    by (simp add: mem_pop_def mem_up_def)
  show "w a k = xs @ [x] \<Longrightarrow> \<exists>w'. mem_exec a ''RPOP'' [AStr k] w = (Inr (RBytes x), w') \<and> mem_up w'
      \<and> w' = put w a k xs" for w a k xs x
    by (simp add: mem_pop_def mem_up_def)
  show "\<exists>w'. mem_exec a ''LLEN'' [AStr k] w = (Inr (RInt (int (length (w a k)))), w') \<and> mem_up w' \<and> w' = w" for w a k
    by (simp add: mem_up_def)
  show "\<exists>n w'. mem_exec a ''DEL'' [AStr k] w = (Inr (RInt n), w') \<and> mem_up w' \<and> w' = put w a k []" for w a k
    by (simp add: mem_up_def)
  show "w a k = [] \<Longrightarrow> \<exists>w'. mem_exec a ''RPOPLPUSH'' [AStr k, AStr k'] w = (Inr RNil, w') \<and> mem_up w' \<and> w' = w" for w a k k'
    by (simp add: mem_pop_def mem_up_def)
  show "k \<noteq> k' \<Longrightarrow> w a k = xs @ [x] \<Longrightarrow>
      \<exists>w'. mem_exec a ''RPOPLPUSH'' [AStr k, AStr k'] w = (Inr (RBytes x), w') \<and> mem_up w'
        \<and> w' = put (put w a k xs) a k' (x # w a k')" for w a k k' xs x
    by (simp add: mem_pop_def mem_up_def) (simp add: put_def)
  show "0 \<le> n \<Longrightarrow> \<exists>w'. mem_exec a ''LRANGE'' [AStr k, AInt 0, AInt n] w
      = (Inr (RArr (map RBytes (take (nat n + 1) (w a k)))), w') \<and> mem_up w' \<and> w' = w" for w n a k
    by (simp add: mem_up_def list_range_prefix index_arg_def)
  show "0 \<le> n \<Longrightarrow> \<exists>w'. mem_exec a ''LTRIM'' [AStr k, AInt 0, AInt n] w = (Inr (RBytes ''OK''), w') \<and> mem_up w'
        \<and> w' = put w a k (take (nat n + 1) (w a k))" for w n a k
    by (simp add: mem_up_def list_range_prefix index_arg_def)
qed

subsection \<open>The server behind the wire\<close>

text \<open>
  \<open>Call\<close> of a connection whose peer is a server: the request is encoded, the server decodes the
  words of the command and executes them, the encoded reply is read. \<open>exec\<close> gets the words as strings.
\<close>

definition serve_bytes :: "(string \<Rightarrow> arg list \<Rightarrow> 'w \<Rightarrow> (redis_err + reply) \<times> 'w) \<Rightarrow> string \<Rightarrow> 'w \<Rightarrow> string \<times> 'w" where
  "serve_bytes exec req w =
     (case readResponse req of
        (Ret (Inr (RArr (RBytes cmd # ws))), _) \<Rightarrow>
          (case exec cmd (map (\<lambda>r. case r of RBytes b \<Rightarrow> AStr b | _ \<Rightarrow> ANil) ws) w of
             (Inr r, w') \<Rightarrow> (resp_encode r, w')
           | (Inl (CommonErr t), w') \<Rightarrow> (CHR ''-'' # t @ CRLF, w')
           | (Inl _, w') \<Rightarrow> (CHR ''-'' # ''ERR'' @ CRLF, w'))
      | _ \<Rightarrow> (CHR ''-'' # ''ERR Protocol error'' @ CRLF, w))"

definition wire_call ::
  "(string \<Rightarrow> arg list \<Rightarrow> 'w \<Rightarrow> (redis_err + reply) \<times> 'w) \<Rightarrow> string \<Rightarrow> arg list \<Rightarrow> 'w \<Rightarrow>
   (redis_err + reply) go \<times> 'w" where
  "wire_call exec cmd args w =
     (case writeRequest cmd args of
        Panic \<Rightarrow> (Panic, w)
      | Ret req \<Rightarrow> (let (bytes, w') = serve_bytes exec req w in (fst (readResponse bytes), w')))"

definition small_request :: "string \<Rightarrow> arg list \<Rightarrow> bool" where
  "small_request cmd args \<longleftrightarrow>
     int (length cmd) + 2 \<le> maxAlloc \<and> list_all (\<lambda>a. int (length (arg_text a)) + 2 \<le> maxAlloc) args
     \<and> int (Suc (length args)) * 16 \<le> maxAlloc"

lemma maxAlloc_nat: "int n \<le> maxAlloc \<Longrightarrow> n < 10 ^ 61"
proof -
  assume "int n \<le> maxAlloc"
  then have "int n < int (10 ^ 61)" by (simp add: maxAlloc_def)
  then show ?thesis by (simp only: of_nat_less_iff)
qed

lemma request_is_array:
  assumes "small_request cmd args"
  shows "writeRequest cmd args = Ret (resp_encode (RArr (map RBytes (cmd # map arg_text args))))"
proof -
  have "int (length cmd) \<le> maxAlloc" "\<forall>a \<in> set args. int (length (arg_text a)) \<le> maxAlloc" "int (Suc (length args)) \<le> maxAlloc"
    using assms by (auto simp: small_request_def list_all_iff)
  then have "length cmd < 10 ^ 61" "\<forall>a \<in> set args. length (arg_text a) < 10 ^ 61" "Suc (length args) < 10 ^ 61"
    by (blast intro: maxAlloc_nat)+
  from writeRequest_ok [OF this] show ?thesis by (simp add: comp_def)
qed

lemma request_read_back:
  assumes "small_request cmd args"
  shows "\<exists>req. writeRequest cmd args = Ret req
     \<and> readResponse (req @ rest) = (Ret (Inr (RArr (map RBytes (cmd # map arg_text args)))), rest)"
proof -
  have "wf_reply (RArr (map RBytes (cmd # map arg_text args)))"
    using assms by (auto simp: small_request_def list_all_iff)
  from readResponse_encode [OF this] show ?thesis using request_is_array [OF assms] by blast
qed

lemma wire_call_ok:
  assumes "small_request cmd args"
    and "exec cmd (map (\<lambda>a. AStr (arg_text a)) args) w = (Inr r, w')" "wf_reply r"
  shows "wire_call exec cmd args w = (Ret (Inr r), w')"
proof -
  obtain req where req: "writeRequest cmd args = Ret req"
    "readResponse req = (Ret (Inr (RArr (RBytes cmd # map (\<lambda>a. RBytes (arg_text a)) args))), [])"
    using request_read_back [OF assms(1), of "[]"] by (auto simp: comp_def)
  have "serve_bytes exec req w = (resp_encode r, w')"
    using assms(2) req(2) by (simp add: serve_bytes_def comp_def)
  then show ?thesis using req(1) readResponse_encode [OF assms(3), of "[]"] by (simp add: wire_call_def)
qed

lemma wire_call_err:
  assumes "small_request cmd args"
    and "exec cmd (map (\<lambda>a. AStr (arg_text a)) args) w = (Inl (CommonErr t), w')" "LF \<notin> set t"
  shows "wire_call exec cmd args w = (Ret (Inl (CommonErr t)), w')"
proof -
  obtain req where req: "writeRequest cmd args = Ret req"
    "readResponse req = (Ret (Inr (RArr (RBytes cmd # map (\<lambda>a. RBytes (arg_text a)) args))), [])"
    using request_read_back [OF assms(1), of "[]"] by (auto simp: comp_def)
  have "serve_bytes exec req w = (CHR ''-'' # t @ CRLF, w')"
    using assms(2) req(2) by (simp add: serve_bytes_def comp_def)
  then show ?thesis using req(1) readResponse_error [OF assms(3), of "[]"] by (simp add: wire_call_def)
qed

end
