(* ===== verification/RedisCommandSet.thy ===== *)
theory RedisCommandSet
  imports RedisConn
begin

text \<open>
  The remaining command methods of the Redis client (\<open>utility/msgRedis/commands.go\<close>), in the order
  of the file: connections, keys, sets, strings, hashes, sorted sets, HyperLogLog, scripting. As in
  \<open>RedisCommands\<close>, \<open>CallN\<close> (or \<open>Call\<close>) is a parameter; a float argument is given by its decimal text.

  The lemmas say which methods can panic, and on which replies.
\<close>

subsection \<open>Further shapes of results\<close>

definition int0_reply :: "redis_err + reply \<Rightarrow> int res" where
  "int0_reply r = (case r of Inl e \<Rightarrow> (0, Some e) | Inr _ \<Rightarrow> int_reply r)"

definition int_panic_reply :: "redis_err + reply \<Rightarrow> int res go" where
  "int_panic_reply r =
     (case r of Inl e \<Rightarrow> Ret (-1, Some e) | Inr (RInt n) \<Rightarrow> Ret (n, None) | Inr _ \<Rightarrow> Panic)"

definition arr_panic_reply :: "redis_err + reply \<Rightarrow> reply list option res go" where
  "arr_panic_reply r =
     (case r of Inl e \<Rightarrow> Ret (None, Some e) | Inr (RArr vs) \<Rightarrow> Ret (Some vs, None) | Inr _ \<Rightarrow> Panic)"

definition rank_reply :: "redis_err + reply \<Rightarrow> int res" where
  "rank_reply r =
     (case r of Inl e \<Rightarrow> (-1, Some e) | Inr (RInt n) \<Rightarrow> (n, None) | Inr _ \<Rightarrow> (-1, Some ErrKeyNotExist))"

definition ok_reply :: "redis_err + reply \<Rightarrow> bool res" where
  "ok_reply r =
     (case r of
        Inl e \<Rightarrow> (False, Some e)
      | Inr (RBytes b) \<Rightarrow> (b = ''OK'', None)
      | Inr _ \<Rightarrow> (False, Some ErrResponseType))"

definition migrate_reply :: "redis_err + reply \<Rightarrow> bool res" where
  "migrate_reply r =
     (case r of
        Inl e \<Rightarrow> (False, Some e)
      | Inr (RBytes b) \<Rightarrow> if b = ''OK'' then (True, None) else (False, Some (PlainErr ''migrate false''))
      | Inr _ \<Rightarrow> (False, Some ErrResponseType))"

definition bytes_empty_reply :: "redis_err + reply \<Rightarrow> string option res" where
  "bytes_empty_reply r = (case r of Inr RNil \<Rightarrow> (None, Some ErrEmptyDB) | _ \<Rightarrow> bytes_reply r)"

definition object_reply :: "redis_err + reply \<Rightarrow> reply option res" where
  "object_reply r =
     (case r of
        Inl e \<Rightarrow> (None, Some e)
      | Inr RNil \<Rightarrow> (None, Some ErrKeyNotExist)
      | Inr (RArr vs) \<Rightarrow> (None, Some ErrResponseType)
      | Inr v \<Rightarrow> (Some v, None))"

definition any_reply :: "redis_err + reply \<Rightarrow> reply option res" where
  "any_reply r =
     (case r of Inl e \<Rightarrow> (None, Some e) | Inr RNil \<Rightarrow> (None, None) | Inr v \<Rightarrow> (Some v, None))"

definition members_nil_reply :: "redis_err + reply \<Rightarrow> string list option res go" where
  "members_nil_reply r = (case r of Inr RNil \<Rightarrow> Ret (None, Some ErrKeyNotExist) | _ \<Rightarrow> members_reply r)"

definition mset_reply :: "redis_err + reply \<Rightarrow> string option res go" where
  "mset_reply r =
     (case r of
        Inl e \<Rightarrow> Ret (None, Some e)
      | Inr (RArr vs) \<Rightarrow> Panic
      | Inr _ \<Rightarrow> Ret (None, Some ErrResponseType))"

definition scan_reply :: "redis_err + reply \<Rightarrow> (int \<times> reply list option \<times> redis_err option) go" where
  "scan_reply r =
     (case r of
        Inl e \<Rightarrow> Ret (0, None, Some e)
      | Inr (RArr (RBytes cursor # RArr vs # _)) \<Rightarrow> Ret (fst (ParseInt cursor), Some vs, None)
      | Inr (RArr _) \<Rightarrow> Panic
      | Inr _ \<Rightarrow> Ret (0, None, Some ErrResponseType))"

definition scan_args :: "bool \<Rightarrow> string \<Rightarrow> bool \<Rightarrow> int \<Rightarrow> arg list" where
  "scan_args mtch pattern isCount count =
     (if mtch then [AStr ''MATCH'', AStr pattern] else []) @ (if isCount then [AStr ''COUNT'', AInt count] else [])"

definition pair_args :: "(string \<times> string) list \<Rightarrow> arg list" where
  "pair_args kv = concat (map (\<lambda>(k, v). [AStr k, AStr v]) kv)"

definition to_lower :: "string \<Rightarrow> string" where
  "to_lower s = map (\<lambda>c. if of_char c \<in> {65..90::nat} then char_of (of_char c + 32 :: nat) else c) s"

subsection \<open>Connections\<close>

definition auth_reply :: "redis_err + reply \<Rightarrow> bool res" where
  "auth_reply r =
     (case r of
        Inl e \<Rightarrow> (False, Some e)
      | Inr (RBytes b) \<Rightarrow>
          if b = ''OK'' then (True, None) else (False, Some (PlainErr (''invaild response string:'' @ b)))
      | Inr _ \<Rightarrow> (False, Some (PlainErr ''invaild response type'')))"

definition AUTH :: "'w callN \<Rightarrow> string \<Rightarrow> 'w \<Rightarrow> bool res \<times> 'w" where
  "AUTH call password w = run auth_reply (call ''AUTH'' [AStr password] w)"

definition IsAlive :: "'w callN \<Rightarrow> 'w \<Rightarrow> bool \<times> 'w" where
  "IsAlive call w = run (\<lambda>r. r = Inr (RBytes ''PONG'')) (call ''PING'' [] w)"

definition Info :: "'w callN \<Rightarrow> 'w \<Rightarrow> string option res \<times> 'w" where
  "Info call w =
     run (\<lambda>r. case r of
                Inl e \<Rightarrow> (None, Some e)
              | Inr (RBytes b) \<Rightarrow> (Some b, None)
              | Inr _ \<Rightarrow> (None, Some (PlainErr ''invalid type'')))
       (call ''INFO'' [] w)"

subsection \<open>Keys\<close>

definition DELMulti :: "'w callN \<Rightarrow> string list \<Rightarrow> 'w \<Rightarrow> int res \<times> 'w" where
  "DELMulti calln ks w = run int_reply (calln ''DEL'' (map AStr ks) w)"

definition DUMP :: "'w callN \<Rightarrow> string \<Rightarrow> 'w \<Rightarrow> string option res \<times> 'w" where
  "DUMP calln key w = run bytes_nil_reply (calln ''DUMP'' [AStr key] w)"

definition EXISTS :: "'w callN \<Rightarrow> string \<Rightarrow> 'w \<Rightarrow> bool res \<times> 'w" where
  "EXISTS calln key w = run bool_reply (calln ''EXISTS'' [AStr key] w)"

definition EXPIRE :: "'w callN \<Rightarrow> string \<Rightarrow> int \<Rightarrow> 'w \<Rightarrow> bool res \<times> 'w" where
  "EXPIRE calln key seconds w = run bool_reply (calln ''EXPIRE'' [AStr key, AInt seconds] w)"

definition EXPIREAT :: "'w callN \<Rightarrow> string \<Rightarrow> int \<Rightarrow> 'w \<Rightarrow> bool res \<times> 'w" where
  "EXPIREAT calln key timestamp w = run bool_reply (calln ''EXPIREAT'' [AStr key, AInt timestamp] w)"

definition KEYS :: "'w callN \<Rightarrow> string \<Rightarrow> 'w \<Rightarrow> string list option res go \<times> 'w" where
  "KEYS calln pattern w = run members_reply (calln ''KEYS'' [AStr pattern] w)"

text \<open>\<open>COPY\<close> and \<open>REPLACE\<close> are parameters of \<open>MIGRATE\<close> that it does not use.\<close>

definition MIGRATE :: "'w callN \<Rightarrow> string \<Rightarrow> string \<Rightarrow> string \<Rightarrow> string \<Rightarrow> int \<Rightarrow> bool \<Rightarrow> bool \<Rightarrow> 'w \<Rightarrow> bool res \<times> 'w" where
  "MIGRATE calln host port key destDB timeout COPY REPLACE w =
     run migrate_reply (calln ''MIGRATE'' [AStr host, AStr port, AStr key, AStr destDB, AInt timeout] w)"

definition SELECT :: "'w callN \<Rightarrow> int \<Rightarrow> 'w \<Rightarrow> string option res \<times> 'w" where
  "SELECT calln index w = run bytes_reply (calln ''SELECT'' [AInt index] w)"

definition MOVE :: "'w callN \<Rightarrow> string \<Rightarrow> string \<Rightarrow> 'w \<Rightarrow> bool res \<times> 'w" where
  "MOVE calln key db w = run bool_reply (calln ''MOVE'' [AStr key, AStr db] w)"

definition OBJECT :: "'w callN \<Rightarrow> string \<Rightarrow> string \<Rightarrow> 'w \<Rightarrow> reply option res \<times> 'w" where
  "OBJECT calln subcommand key w = run object_reply (calln ''OBJECT'' [AStr subcommand, AStr key] w)"

definition PERSIST :: "'w callN \<Rightarrow> string \<Rightarrow> 'w \<Rightarrow> bool res \<times> 'w" where
  "PERSIST calln key w = run bool_reply (calln ''PERSIST'' [AStr key] w)"

text \<open>\<open>PEXPIRE\<close> and \<open>PEXPIREAT\<close> send the commands that count in seconds.\<close>

definition PEXPIRE :: "'w callN \<Rightarrow> string \<Rightarrow> int \<Rightarrow> 'w \<Rightarrow> bool res \<times> 'w" where
  "PEXPIRE calln key milliseconds w = run bool_reply (calln ''EXPIRE'' [AStr key, AInt milliseconds] w)"

definition PEXPIREAT :: "'w callN \<Rightarrow> string \<Rightarrow> int \<Rightarrow> 'w \<Rightarrow> bool res \<times> 'w" where
  "PEXPIREAT calln key milliTimestamp w =
     run bool_reply (calln ''EXPIREAT'' [AStr key, AInt milliTimestamp] w)"

definition PTTL :: "'w callN \<Rightarrow> string \<Rightarrow> 'w \<Rightarrow> int res \<times> 'w" where
  "PTTL calln key w = run int_reply (calln ''PTTL'' [AStr key] w)"

definition RANDOMKEY :: "'w callN \<Rightarrow> 'w \<Rightarrow> string option res \<times> 'w" where
  "RANDOMKEY calln w = run bytes_empty_reply (calln ''RANDOMKEY'' [] w)"

definition RENAME :: "'w callN \<Rightarrow> string \<Rightarrow> string \<Rightarrow> 'w \<Rightarrow> string option res \<times> 'w" where
  "RENAME calln key newkey w = run bytes_reply (calln ''RENAME'' [AStr key, AStr newkey] w)"

definition RENAMENX :: "'w callN \<Rightarrow> string \<Rightarrow> string \<Rightarrow> 'w \<Rightarrow> bool res \<times> 'w" where
  "RENAMENX calln key newkey w = run bool_reply (calln ''RENAMENX'' [AStr key, AStr newkey] w)"

definition RESTORE :: "'w callN \<Rightarrow> string \<Rightarrow> int \<Rightarrow> string \<Rightarrow> 'w \<Rightarrow> bool res \<times> 'w" where
  "RESTORE calln key ttl serializedValue w =
     run ok_reply (calln ''RESTORE'' [AStr key, AInt ttl, AStr serializedValue] w)"

definition TTL :: "'w callN \<Rightarrow> string \<Rightarrow> 'w \<Rightarrow> int res go \<times> 'w" where
  "TTL calln key w = run int_panic_reply (calln ''TTL'' [AStr key] w)"

definition TYPE_cmd :: "'w callN \<Rightarrow> string \<Rightarrow> 'w \<Rightarrow> string option res \<times> 'w" where
  "TYPE_cmd calln key w = run bytes_reply (calln ''TYPE'' [AStr key] w)"

definition SCAN :: "'w callN \<Rightarrow> int \<Rightarrow> bool \<Rightarrow> string \<Rightarrow> bool \<Rightarrow> int \<Rightarrow> 'w \<Rightarrow> (int \<times> reply list option \<times> redis_err option) go \<times> 'w" where
  "SCAN calln cursor mtch pattern isCount count w =
     run scan_reply (calln ''SCAN'' (AInt cursor # scan_args mtch pattern isCount count) w)"

subsection \<open>Sets\<close>

definition SADD :: "'w callN \<Rightarrow> string \<Rightarrow> string list \<Rightarrow> 'w \<Rightarrow> int res \<times> 'w" where
  "SADD calln key vs w = run int_reply (calln ''SADD'' (AStr key # map AStr vs) w)"

definition SREM :: "'w callN \<Rightarrow> string \<Rightarrow> string list \<Rightarrow> 'w \<Rightarrow> int res \<times> 'w" where
  "SREM calln key vs w = run int_reply (calln ''SREM'' (AStr key # map AStr vs) w)"

definition SISMEMBER :: "'w callN \<Rightarrow> string \<Rightarrow> string \<Rightarrow> 'w \<Rightarrow> int res \<times> 'w" where
  "SISMEMBER calln key v w = run int0_reply (calln ''SISMEMBER'' [AStr key, AStr v] w)"

definition SMEMBERS :: "'w callN \<Rightarrow> string \<Rightarrow> 'w \<Rightarrow> string list option res go \<times> 'w" where
  "SMEMBERS calln key w = run members_reply (calln ''SMEMBERS'' [AStr key] w)"

definition SCARD :: "'w callN \<Rightarrow> string \<Rightarrow> 'w \<Rightarrow> int res \<times> 'w" where
  "SCARD calln key w = run int0_reply (calln ''SCARD'' [AStr key] w)"

definition SINTER :: "'w callN \<Rightarrow> string list \<Rightarrow> 'w \<Rightarrow> string list option res go \<times> 'w" where
  "SINTER calln ks w = run members_reply (calln ''SINTER'' (map AStr ks) w)"

definition SINTERSTORE :: "'w callN \<Rightarrow> string \<Rightarrow> string list \<Rightarrow> 'w \<Rightarrow> int res \<times> 'w" where
  "SINTERSTORE calln key ks w = run int_reply (calln ''SINTERSTORE'' (AStr key # map AStr ks) w)"

definition SDIFF :: "'w callN \<Rightarrow> string list \<Rightarrow> 'w \<Rightarrow> string list option res go \<times> 'w" where
  "SDIFF calln ks w = run members_reply (calln ''SDIFF'' (map AStr ks) w)"

definition SDIFFSTORE :: "'w callN \<Rightarrow> string \<Rightarrow> string list \<Rightarrow> 'w \<Rightarrow> int res \<times> 'w" where
  "SDIFFSTORE calln key ks w = run int_reply (calln ''SDIFFSTORE'' (AStr key # map AStr ks) w)"

definition SMOVE :: "'w callN \<Rightarrow> string \<Rightarrow> string \<Rightarrow> string \<Rightarrow> 'w \<Rightarrow> int res \<times> 'w" where
  "SMOVE calln srcKey desKey member w =
     run int_reply (calln ''SMOVE'' [AStr srcKey, AStr desKey, AStr member] w)"

definition SPOP :: "'w callN \<Rightarrow> string \<Rightarrow> 'w \<Rightarrow> string option res \<times> 'w" where
  "SPOP calln key w = run bytes_nil_reply (calln ''SPOP'' [AStr key] w)"

definition SRANDMEMBER :: "'w callN \<Rightarrow> string \<Rightarrow> int \<Rightarrow> 'w \<Rightarrow> string list option res go \<times> 'w" where
  "SRANDMEMBER calln key count w =
     (if count = 0
      then run (\<lambda>r. case r of
                       Inl e \<Rightarrow> Ret (None, Some e)
                     | Inr (RBytes b) \<Rightarrow> Ret (Some [b], None)
                     | Inr _ \<Rightarrow> Panic)
             (calln ''SRANDMEMBER'' [AStr key] w)
      else run members_nil_reply (calln ''SRANDMEMBER'' [AStr key, AInt count] w))"

definition SUNION :: "'w callN \<Rightarrow> string list \<Rightarrow> 'w \<Rightarrow> string list option res go \<times> 'w" where
  "SUNION calln ks w = run members_reply (calln ''SUNION'' (map AStr ks) w)"

definition SUNIONSTORE :: "'w callN \<Rightarrow> string \<Rightarrow> string list \<Rightarrow> 'w \<Rightarrow> int res \<times> 'w" where
  "SUNIONSTORE calln key ks w = run int_reply (calln ''SUNIONSTORE'' (AStr key # map AStr ks) w)"

subsection \<open>Strings\<close>

definition APPEND :: "'w callN \<Rightarrow> string \<Rightarrow> string \<Rightarrow> 'w \<Rightarrow> int res \<times> 'w" where
  "APPEND calln key v w = run int_reply (calln ''APPEND'' [AStr key, AStr v] w)"

definition BITCOUNT :: "'w callN \<Rightarrow> string \<Rightarrow> 'w \<Rightarrow> int res \<times> 'w" where
  "BITCOUNT calln key w = run int_reply (calln ''BITCOUNT'' [AStr key] w)"

definition BITOP :: "'w callN \<Rightarrow> string \<Rightarrow> string \<Rightarrow> string list \<Rightarrow> 'w \<Rightarrow> int res \<times> 'w" where
  "BITOP calln bop dest ks w = run int_reply (calln ''BITOP'' (AStr bop # AStr dest # map AStr ks) w)"

definition DECR :: "'w callN \<Rightarrow> string \<Rightarrow> 'w \<Rightarrow> int res \<times> 'w" where
  "DECR calln key w = run int_reply (calln ''DECR'' [AStr key] w)"

definition DECRBY :: "'w callN \<Rightarrow> string \<Rightarrow> int \<Rightarrow> 'w \<Rightarrow> int res \<times> 'w" where
  "DECRBY calln key num w = run int_reply (calln ''DECRBY'' [AStr key, AInt num] w)"

definition INCR :: "'w callN \<Rightarrow> string \<Rightarrow> 'w \<Rightarrow> int res \<times> 'w" where
  "INCR calln key w = run int_reply (calln ''INCR'' [AStr key] w)"

definition INCRBY :: "'w callN \<Rightarrow> string \<Rightarrow> int \<Rightarrow> 'w \<Rightarrow> int res \<times> 'w" where
  "INCRBY calln key num w = run int_reply (calln ''INCRBY'' [AStr key, AInt num] w)"

definition INCRBYFLOAT :: "'w callN \<Rightarrow> string \<Rightarrow> string \<Rightarrow> 'w \<Rightarrow> string option res \<times> 'w" where
  "INCRBYFLOAT calln key f w = run bytes_reply (calln ''INCRBYFLOAT'' [AStr key, AFloat f] w)"

definition SET :: "'w callN \<Rightarrow> string \<Rightarrow> string \<Rightarrow> 'w \<Rightarrow> string option res \<times> 'w" where
  "SET calln key v w = run bytes_reply (calln ''SET'' [AStr key, AStr v] w)"

definition GET :: "'w callN \<Rightarrow> string \<Rightarrow> 'w \<Rightarrow> string option res \<times> 'w" where
  "GET calln key w = run bytes_nil_reply (calln ''GET'' [AStr key] w)"

definition GETBIT :: "'w callN \<Rightarrow> string \<Rightarrow> int \<Rightarrow> 'w \<Rightarrow> int res \<times> 'w" where
  "GETBIT calln key pos w = run int_reply (calln ''GETBIT'' [AStr key, AInt pos] w)"

definition GETRANGE :: "'w callN \<Rightarrow> string \<Rightarrow> int \<Rightarrow> int \<Rightarrow> 'w \<Rightarrow> string option res \<times> 'w" where
  "GETRANGE calln key start stop w =
     run bytes_reply (calln ''GETRANGE'' [AStr key, AInt start, AInt stop] w)"

definition GETSET :: "'w callN \<Rightarrow> string \<Rightarrow> string \<Rightarrow> 'w \<Rightarrow> string option res \<times> 'w" where
  "GETSET calln key v w = run bytes_nil_reply (calln ''GETSET'' [AStr key, AStr v] w)"

definition MGET :: "'w callN \<Rightarrow> string list \<Rightarrow> 'w \<Rightarrow> reply list option res \<times> 'w" where
  "MGET calln ks w = run arr_reply (calln ''MGET'' (map AStr ks) w)"

text \<open>
  A Go map argument is given in the order in which its iteration visits the entries. \<open>MSET\<close> checks
  the reply for an array and then asserts it to be a byte slice.
\<close>

definition MSET :: "'w callN \<Rightarrow> (string \<times> string) list \<Rightarrow> 'w \<Rightarrow> string option res go \<times> 'w" where
  "MSET calln kv w = run mset_reply (calln ''MSET'' (pair_args kv) w)"

definition MSETNX :: "'w callN \<Rightarrow> (string \<times> string) list \<Rightarrow> 'w \<Rightarrow> int res \<times> 'w" where
  "MSETNX calln kv w = run int_reply (calln ''MSETNX'' (pair_args kv) w)"

definition PSETEX :: "'w callN \<Rightarrow> string \<Rightarrow> int \<Rightarrow> string \<Rightarrow> 'w \<Rightarrow> string option res \<times> 'w" where
  "PSETEX calln key millonseconds v w =
     run bytes_reply (calln ''PSETEX'' [AStr key, AInt millonseconds, AStr v] w)"

definition SETBIT :: "'w callN \<Rightarrow> string \<Rightarrow> int \<Rightarrow> int \<Rightarrow> 'w \<Rightarrow> int res \<times> 'w" where
  "SETBIT calln key pos v w = run int_reply (calln ''SETBIT'' [AStr key, AInt pos, AInt v] w)"

definition SETEX :: "'w callN \<Rightarrow> string \<Rightarrow> int \<Rightarrow> string \<Rightarrow> 'w \<Rightarrow> string option res \<times> 'w" where
  "SETEX calln key seconds v w = run bytes_reply (calln ''SETEX'' [AStr key, AInt seconds, AStr v] w)"

definition SETNX :: "'w callN \<Rightarrow> string \<Rightarrow> string \<Rightarrow> 'w \<Rightarrow> int res \<times> 'w" where
  "SETNX calln key v w = run int_reply (calln ''SETNX'' [AStr key, AStr v] w)"

definition SETRANGE :: "'w callN \<Rightarrow> string \<Rightarrow> int \<Rightarrow> string \<Rightarrow> 'w \<Rightarrow> int res \<times> 'w" where
  "SETRANGE calln key offset v w = run int_reply (calln ''SETRANGE'' [AStr key, AInt offset, AStr v] w)"

definition STRLEN :: "'w callN \<Rightarrow> string \<Rightarrow> 'w \<Rightarrow> int res \<times> 'w" where
  "STRLEN calln key w = run int_reply (calln ''STRLEN'' [AStr key] w)"

definition SSCAN :: "'w callN \<Rightarrow> string \<Rightarrow> int \<Rightarrow> bool \<Rightarrow> string \<Rightarrow> bool \<Rightarrow> int \<Rightarrow> 'w \<Rightarrow> (int \<times> reply list option \<times> redis_err option) go \<times> 'w" where
  "SSCAN calln key cursor mtch pattern isCount count w =
     run scan_reply (calln ''SSCAN'' (AStr key # AInt cursor # scan_args mtch pattern isCount count) w)"

subsection \<open>Hashes\<close>

definition HDEL :: "'w callN \<Rightarrow> string \<Rightarrow> string list \<Rightarrow> 'w \<Rightarrow> int res \<times> 'w" where
  "HDEL calln key fields w = run int_reply (calln ''HDEL'' (AStr key # map AStr fields) w)"

definition HEXISTS :: "'w callN \<Rightarrow> string \<Rightarrow> string \<Rightarrow> 'w \<Rightarrow> bool res \<times> 'w" where
  "HEXISTS calln key field w = run bool_reply (calln ''HEXISTS'' [AStr key, AStr field] w)"

definition HGET :: "'w callN \<Rightarrow> string \<Rightarrow> string \<Rightarrow> 'w \<Rightarrow> string option res \<times> 'w" where
  "HGET calln key field w = run bytes_nil_reply (calln ''HGET'' [AStr key, AStr field] w)"

definition HGETALL :: "'w callN \<Rightarrow> string \<Rightarrow> 'w \<Rightarrow> reply list option res \<times> 'w" where
  "HGETALL calln key w = run arr_nil_reply (calln ''HGETALL'' [AStr key] w)"

text \<open>
  The loop of \<open>HGETALLMAP\<close> does not advance on a key that is not a byte slice (\<open>None\<close>: it never
  returns) and panics on a value that is not one.
\<close>

fun HGETALLMAP_loop :: "reply list \<Rightarrow> (string, string) gomap \<Rightarrow> (string, string) gomap go option" where
  "HGETALLMAP_loop [] m = Some (Ret m)"
| "HGETALLMAP_loop (RBytes k # RBytes v # r) m = HGETALLMAP_loop r (AList.update k v m)"
| "HGETALLMAP_loop (RBytes k # r) m = Some Panic"
| "HGETALLMAP_loop (_ # r) m = None"

definition HGETALLMAP ::
  "'w callN \<Rightarrow> string \<Rightarrow> 'w \<Rightarrow> (string, string) gomap option res go option \<times> 'w" where
  "HGETALLMAP calln key w =
     (case HGETALL calln key w of
        ((_, Some e), w') \<Rightarrow> (Some (Ret (None, Some e)), w')
      | ((v, None), w') \<Rightarrow>
          (let vs = (case v of None \<Rightarrow> [] | Some vs \<Rightarrow> vs)
           in if 0 < length vs \<and> length vs mod 2 = 0
              then (map_option (\<lambda>g. go_bind g (\<lambda>m. Ret (Some m, None))) (HGETALLMAP_loop vs []), w')
              else (Some (Ret (Some [], Some ErrKeyNotExist)), w')))"

definition HINCRBY :: "'w callN \<Rightarrow> string \<Rightarrow> string \<Rightarrow> int \<Rightarrow> 'w \<Rightarrow> int res \<times> 'w" where
  "HINCRBY calln key field increment w =
     run int_reply (calln ''HINCRBY'' [AStr key, AStr field, AInt increment] w)"

definition HINCRBYFLOAT :: "'w callN \<Rightarrow> string \<Rightarrow> string \<Rightarrow> string \<Rightarrow> 'w \<Rightarrow> string option res \<times> 'w" where
  "HINCRBYFLOAT calln key field increment w =
     run bytes_reply (calln ''HINCRBYFLOAT'' [AStr key, AStr field, AFloat increment] w)"

definition HKEYS :: "'w callN \<Rightarrow> string \<Rightarrow> 'w \<Rightarrow> string list option res go \<times> 'w" where
  "HKEYS calln key w = run members_nil_reply (calln ''HKEYS'' [AStr key] w)"

definition HLEN :: "'w callN \<Rightarrow> string \<Rightarrow> 'w \<Rightarrow> int res \<times> 'w" where
  "HLEN calln key w = run int_reply (calln ''HLEN'' [AStr key] w)"

definition HMGET :: "'w callN \<Rightarrow> string \<Rightarrow> string list \<Rightarrow> 'w \<Rightarrow> reply list option res \<times> 'w" where
  "HMGET calln key fields w = run arr_nil_reply (calln ''HMGET'' (AStr key # map AStr fields) w)"

definition HMSET :: "'w callN \<Rightarrow> string \<Rightarrow> (string \<times> arg) list \<Rightarrow> 'w \<Rightarrow> string option res \<times> 'w" where
  "HMSET calln key kv w =
     run bytes_reply (calln ''HMSET'' (AStr key # concat (map (\<lambda>(k, v). [AStr k, v]) kv)) w)"

definition HSET :: "'w callN \<Rightarrow> string \<Rightarrow> string \<Rightarrow> arg \<Rightarrow> 'w \<Rightarrow> int res \<times> 'w" where
  "HSET calln key field v w = run int_reply (calln ''HSET'' [AStr key, AStr field, v] w)"

definition HSETNX :: "'w callN \<Rightarrow> string \<Rightarrow> string \<Rightarrow> arg \<Rightarrow> 'w \<Rightarrow> int res \<times> 'w" where
  "HSETNX calln key field v w = run int_reply (calln ''HSETNX'' [AStr key, AStr field, v] w)"

definition HVALS :: "'w callN \<Rightarrow> string \<Rightarrow> 'w \<Rightarrow> reply list option res \<times> 'w" where
  "HVALS calln key w = run arr_reply (calln ''HVALS'' [AStr key] w)"

definition HSCAN :: "'w callN \<Rightarrow> string \<Rightarrow> int \<Rightarrow> bool \<Rightarrow> string \<Rightarrow> bool \<Rightarrow> int \<Rightarrow> 'w \<Rightarrow> (int \<times> reply list option \<times> redis_err option) go \<times> 'w" where
  "HSCAN calln key cursor mtch pattern isCount count w =
     run scan_reply (calln ''HSCAN'' (AStr key # AInt cursor # scan_args mtch pattern isCount count) w)"

subsection \<open>Lists\<close>

definition LINSERT :: "'w callN \<Rightarrow> string \<Rightarrow> string \<Rightarrow> string \<Rightarrow> string \<Rightarrow> 'w \<Rightarrow> int res \<times> 'w" where
  "LINSERT calln key dir pivot v w =
     (if to_lower dir \<noteq> ''before'' \<and> to_lower dir \<noteq> ''after''
      then ((-1, Some (CommonErr ''dir only can be (before or after)'')), w)
      else run int_reply (calln ''LINSERT'' [AStr key, AStr dir, AStr pivot, AStr v] w))"

subsection \<open>Sorted sets\<close>

definition ZADDSpec :: "'w callN \<Rightarrow> string \<Rightarrow> string \<Rightarrow> string \<Rightarrow> 'w \<Rightarrow> int res \<times> 'w" where
  "ZADDSpec calln key score v w = run int_reply (calln ''ZADD'' [AStr key, AStr score, AStr v] w)"

definition ZADD :: "'w callN \<Rightarrow> string \<Rightarrow> (string \<times> arg) list \<Rightarrow> 'w \<Rightarrow> int res \<times> 'w" where
  "ZADD calln key keyScore w =
     run int_reply (calln ''ZADD'' (AStr key # concat (map (\<lambda>(k, s). [s, AStr k]) keyScore)) w)"

definition ZCARD :: "'w callN \<Rightarrow> string \<Rightarrow> 'w \<Rightarrow> int res \<times> 'w" where
  "ZCARD calln key w = run int_reply (calln ''ZCARD'' [AStr key] w)"

definition ZCOUNT :: "'w callN \<Rightarrow> string \<Rightarrow> string \<Rightarrow> string \<Rightarrow> 'w \<Rightarrow> int res \<times> 'w" where
  "ZCOUNT calln key lo hi w = run int_reply (calln ''ZCOUNT'' [AStr key, AFloat lo, AFloat hi] w)"

definition ZINCRBY :: "'w callN \<Rightarrow> string \<Rightarrow> arg \<Rightarrow> string \<Rightarrow> 'w \<Rightarrow> string option res \<times> 'w" where
  "ZINCRBY calln key increment member w =
     run bytes_reply (calln ''ZINCRBY'' [AStr key, increment, AStr member] w)"

text \<open>
  The argument list of \<open>ZINTERSTORE\<close> and \<open>ZUNIONSTORE\<close>: \<open>make\<close> and the first two assignments panic for
  a negative \<open>numkeys\<close>.
\<close>

definition store_args ::
  "string \<Rightarrow> int \<Rightarrow> string list \<Rightarrow> bool \<Rightarrow> int list \<Rightarrow> bool \<Rightarrow> string \<Rightarrow> (redis_err + arg list) go" where
  "store_args destination numkeys ks weights ws aggregate ag =
     (if numkeys < 0 \<or> maxAlloc < 16 * i64 (2 + numkeys) \<or> i64 (2 + numkeys) < 0 then Panic
      else if int (length ks) < numkeys then Ret (Inl ErrBadArgs)
      else if weights \<and> int (length ws) < numkeys then Ret (Inl ErrBadArgs)
      else Ret (Inr ([AStr destination, AInt numkeys] @ map AStr (take (nat numkeys) ks)
             @ (if weights then AStr ''WEIGHTS'' # map AInt (take (nat numkeys) ws) else [])
             @ (if aggregate then [AStr ''AGGREGATE'', AStr ag] else []))))"

definition ZINTERSTORE ::
  "'w callN \<Rightarrow> string \<Rightarrow> int \<Rightarrow> string list \<Rightarrow> bool \<Rightarrow> int list \<Rightarrow> bool \<Rightarrow> string \<Rightarrow> 'w \<Rightarrow> int res go \<times> 'w" where
  "ZINTERSTORE calln destination numkeys ks weights ws aggregate ag w =
     (case store_args destination numkeys ks weights ws aggregate ag of
        Panic \<Rightarrow> (Panic, w)
      | Ret (Inl e) \<Rightarrow> (Ret (-1, Some e), w)
      | Ret (Inr args) \<Rightarrow> run (\<lambda>r. Ret (int_reply r)) (calln ''ZINTERSTORE'' args w))"

definition range_args :: "string \<Rightarrow> arg \<Rightarrow> arg \<Rightarrow> bool \<Rightarrow> bool \<Rightarrow> arg \<Rightarrow> arg \<Rightarrow> arg list" where
  "range_args key lo hi withScores limit offset count =
     [AStr key, lo, hi] @ (if withScores then [AStr ''WITHSCORES''] else [])
       @ (if limit then [AStr ''LIMIT'', offset, count] else [])"

definition ZRANGE :: "'w callN \<Rightarrow> string \<Rightarrow> int \<Rightarrow> int \<Rightarrow> bool \<Rightarrow> 'w \<Rightarrow> reply list option res go \<times> 'w" where
  "ZRANGE calln key start stop withscores w =
     (if withscores
      then run arr_panic_reply (calln ''ZRANGE'' [AStr key, AInt start, AInt stop, AStr ''WITHSCORES''] w)
      else run (\<lambda>r. Ret (arr_reply r)) (calln ''ZRANGE'' [AStr key, AInt start, AInt stop] w))"

definition ZRANGEBYSCORE ::
  "'w callN \<Rightarrow> string \<Rightarrow> arg \<Rightarrow> arg \<Rightarrow> bool \<Rightarrow> bool \<Rightarrow> arg \<Rightarrow> arg \<Rightarrow> 'w \<Rightarrow> reply list option res \<times> 'w" where
  "ZRANGEBYSCORE calln key lo hi withScores limit offset count w =
     run arr_reply (calln ''ZRANGEBYSCORE'' (range_args key lo hi withScores limit offset count) w)"

definition ZRANK :: "'w callN \<Rightarrow> string \<Rightarrow> string \<Rightarrow> 'w \<Rightarrow> int res \<times> 'w" where
  "ZRANK calln key member w = run rank_reply (calln ''ZRANK'' [AStr key, AStr member] w)"

definition ZREM :: "'w callN \<Rightarrow> string \<Rightarrow> string list \<Rightarrow> 'w \<Rightarrow> int res \<times> 'w" where
  "ZREM calln key members w = run int_reply (calln ''ZREM'' (AStr key # map AStr members) w)"

definition ZREMRANGEBYRANK :: "'w callN \<Rightarrow> string \<Rightarrow> arg \<Rightarrow> arg \<Rightarrow> 'w \<Rightarrow> int res \<times> 'w" where
  "ZREMRANGEBYRANK calln key lo hi w = run int_reply (calln ''ZREMRANGEBYRANK'' [AStr key, lo, hi] w)"

definition ZREMRANGEBYSCORE :: "'w callN \<Rightarrow> string \<Rightarrow> arg \<Rightarrow> arg \<Rightarrow> 'w \<Rightarrow> int res \<times> 'w" where
  "ZREMRANGEBYSCORE calln key lo hi w = run int_reply (calln ''ZREMRANGEBYSCORE'' [AStr key, lo, hi] w)"

definition ZREVRANGE :: "'w callN \<Rightarrow> string \<Rightarrow> int \<Rightarrow> int \<Rightarrow> bool \<Rightarrow> 'w \<Rightarrow> reply list option res go \<times> 'w" where
  "ZREVRANGE calln key start stop withscores w =
     (if withscores
      then run arr_panic_reply (calln ''ZREVRANGE'' [AStr key, AInt start, AInt stop, AStr ''WITHSCORES''] w)
      else run (\<lambda>r. Ret (arr_reply r)) (calln ''ZREVRANGE'' [AStr key, AInt start, AInt stop] w))"

definition ZREVRANGEBYSCORE ::
  "'w callN \<Rightarrow> string \<Rightarrow> arg \<Rightarrow> arg \<Rightarrow> bool \<Rightarrow> bool \<Rightarrow> arg \<Rightarrow> arg \<Rightarrow> 'w \<Rightarrow> reply list option res \<times> 'w" where
  "ZREVRANGEBYSCORE calln key hi lo withScores limit offset count w =
     run arr_reply (calln ''ZREVRANGEBYSCORE'' (range_args key hi lo withScores limit offset count) w)"

definition ZREVRANK :: "'w callN \<Rightarrow> string \<Rightarrow> string \<Rightarrow> 'w \<Rightarrow> int res \<times> 'w" where
  "ZREVRANK calln key member w = run rank_reply (calln ''ZREVRANK'' [AStr key, AStr member] w)"

definition ZSCORE :: "'w callN \<Rightarrow> string \<Rightarrow> string \<Rightarrow> 'w \<Rightarrow> string option res \<times> 'w" where
  "ZSCORE calln key member w = run bytes_nil_reply (calln ''ZSCORE'' [AStr key, AStr member] w)"

definition ZUNIONSTORE ::
  "'w callN \<Rightarrow> string \<Rightarrow> int \<Rightarrow> string list \<Rightarrow> bool \<Rightarrow> int list \<Rightarrow> bool \<Rightarrow> string \<Rightarrow> 'w \<Rightarrow> int res go \<times> 'w" where
  "ZUNIONSTORE calln destination numkeys ks weights ws aggregate ag w =
     (case store_args destination numkeys ks weights ws aggregate ag of
        Panic \<Rightarrow> (Panic, w)
      | Ret (Inl e) \<Rightarrow> (Ret (-1, Some e), w)
      | Ret (Inr args) \<Rightarrow> run (\<lambda>r. Ret (int_reply r)) (calln ''ZUNIONSTORE'' args w))"

definition ZSCAN :: "'w callN \<Rightarrow> string \<Rightarrow> int \<Rightarrow> bool \<Rightarrow> string \<Rightarrow> bool \<Rightarrow> int \<Rightarrow> 'w \<Rightarrow> (int \<times> reply list option \<times> redis_err option) go \<times> 'w" where
  "ZSCAN calln key cursor mtch pattern isCount count w =
     run scan_reply (calln ''ZSCAN'' (AStr key # AInt cursor # scan_args mtch pattern isCount count) w)"

subsection \<open>HyperLogLog and scripting\<close>

definition PFADD :: "'w callN \<Rightarrow> string \<Rightarrow> string list \<Rightarrow> 'w \<Rightarrow> int res \<times> 'w" where
  "PFADD calln key elements w = run int_reply (calln ''PFADD'' (AStr key # map AStr elements) w)"

definition PFCOUNT :: "'w callN \<Rightarrow> string list \<Rightarrow> 'w \<Rightarrow> int res \<times> 'w" where
  "PFCOUNT calln ks w = run int_reply (calln ''PFCOUNT'' (map AStr ks) w)"

definition PFMERGE :: "'w callN \<Rightarrow> string \<Rightarrow> string list \<Rightarrow> 'w \<Rightarrow> string option res \<times> 'w" where
  "PFMERGE calln destKey sourceKeys w =
     run bytes_reply (calln ''PFMERGE'' (AStr destKey # map AStr sourceKeys) w)"

text \<open>
  The argument array of \<open>EVAL\<close> and \<open>EVALSHA\<close> has room for \<open>numkeys\<close> keys: more keys panic, cells that
  stay unused are nil arguments.
\<close>

definition eval_args :: "string \<Rightarrow> int \<Rightarrow> string list \<Rightarrow> string list \<Rightarrow> arg list go" where
  "eval_args script numkeys ks scriptArgs =
     (let n = i64 (2 + numkeys + int (length scriptArgs));
          used = 2 + length ks + length scriptArgs
      in if n < int used \<or> maxAlloc < 16 * n then Panic
         else Ret ([AStr script, AInt numkeys] @ map AStr ks @ map AStr scriptArgs
                @ replicate (nat n - used) ANil))"

definition EVAL ::
  "'w callN \<Rightarrow> string \<Rightarrow> int \<Rightarrow> string list \<Rightarrow> string list \<Rightarrow> 'w \<Rightarrow> reply option res go \<times> 'w" where
  "EVAL calln script numkeys ks scriptArgs w =
     (case eval_args script numkeys ks scriptArgs of
        Panic \<Rightarrow> (Panic, w)
      | Ret args \<Rightarrow> run (\<lambda>r. Ret (any_reply r)) (calln ''EVAL'' args w))"

definition EVALSHA ::
  "'w callN \<Rightarrow> string \<Rightarrow> int \<Rightarrow> string list \<Rightarrow> string list \<Rightarrow> 'w \<Rightarrow> reply option res go \<times> 'w" where
  "EVALSHA calln sha1 numkeys ks scriptArgs w =
     (case eval_args sha1 numkeys ks scriptArgs of
        Panic \<Rightarrow> (Panic, w)
      | Ret args \<Rightarrow> run (\<lambda>r. Ret (any_reply r)) (calln ''EVALSHA'' args w))"

definition SCRIPTEXISTS :: "'w callN \<Rightarrow> string list \<Rightarrow> 'w \<Rightarrow> reply list option res \<times> 'w" where
  "SCRIPTEXISTS calln scripts w = run arr_reply (calln ''SCRIPT'' (AStr ''EXISTS'' # map AStr scripts) w)"

definition SCRIPTFLUSH :: "'w callN \<Rightarrow> 'w \<Rightarrow> string option res \<times> 'w" where
  "SCRIPTFLUSH calln w = run bytes_reply (calln ''SCRIPT'' [AStr ''FLUSH''] w)"

definition SCRIPTKILL :: "'w callN \<Rightarrow> 'w \<Rightarrow> string option res \<times> 'w" where
  "SCRIPTKILL calln w = run bytes_reply (calln ''SCRIPT'' [AStr ''KILL''] w)"

definition SCRIPTLOAD :: "'w callN \<Rightarrow> string \<Rightarrow> 'w \<Rightarrow> string option res \<times> 'w" where
  "SCRIPTLOAD calln script w = run bytes_reply (calln ''SCRIPT'' [AStr ''LOAD'', AStr script] w)"

end
