(* ===== verification/RedisPool.thy ===== *)
theory RedisPool
  imports RedisCommandSet "HOL-Library.Word"
begin

text \<open>
  The connections and connection pools of the Redis client (\<open>utility/msgRedis/conn.go\<close>, \<open>pool.go\<close>,
  \<open>once.go\<close>). The code passes pointers to connections and pools around and changes what they point to,
  so both live in a heap, with a pointer a number. The network is a parameter \<open>dev\<close>: dialling, writing the
  bytes of a flushed buffer (the write deadline included), reading the bytes that arrive until the reply
  is complete, the peer closes or the deadline passes, closing, the clock in seconds and sleeping. The timeouts of a
  connection only set these deadlines and are left out.
  Counters are unbounded integers.

  The lemmas show that a pool accounts for its connections (\<open>pool_inv\<close>) and that \<open>Pop\<close> returns.
\<close>

subsection \<open>Connections, pools, the heap\<close>

record 'w dev =
  d_dial :: "string \<Rightarrow> 'w \<Rightarrow> (string + nat) \<times> 'w"
  d_write :: "nat \<Rightarrow> string \<Rightarrow> 'w \<Rightarrow> string option \<times> 'w"
  d_read :: "nat \<Rightarrow> 'w \<Rightarrow> string \<times> 'w"
  d_close :: "nat \<Rightarrow> 'w \<Rightarrow> 'w"
  d_unix :: "'w \<Rightarrow> int"
  d_sleep :: "'w \<Rightarrow> 'w"

record Conn =
  c_Address :: string
  c_keepAlive :: bool
  c_isIdle :: bool
  c_pipeCount :: nat
  c_lastActiveTime :: int
  c_conn :: "nat option" \<comment> \<open>the socket\<close>
  c_rb :: string \<comment> \<open>bytes received and not yet read\<close>
  c_wb :: string \<comment> \<open>bytes written and not yet flushed\<close>
  c_werr :: "redis_err option" \<comment> \<open>the error the buffered writer keeps\<close>
  c_pool :: "nat option"
  c_err :: "redis_err option"
  c_isOnce :: bool

record Pool =
  p_Address :: string
  p_Password :: string
  p_IdleNum :: int
  p_ActiveNum :: int
  p_MaxConnNum :: int
  p_MaxIdleNum :: int
  p_CreateNum :: int
  p_CreateFailedNum :: int
  p_WaitTimeoutNum :: int
  p_PingErrNum :: int
  p_CallNetErrNum :: int
  p_MaxIdleSeconds :: int
  p_ClientPool :: "nat list" \<comment> \<open>the buffered channel, its capacity is \<open>MaxConnNum\<close>\<close>
  p_CallNum :: int
  p_ScriptMap :: "(string, string) gomap"

record 'w heap =
  h_conns :: "nat \<Rightarrow> Conn"
  h_next :: nat
  h_pools :: "nat \<Rightarrow> Pool"
  h_npools :: nat
  h_net :: 'w

definition upd_conn :: "nat \<Rightarrow> (Conn \<Rightarrow> Conn) \<Rightarrow> 'w heap \<Rightarrow> 'w heap" where
  "upd_conn i f h = h\<lparr>h_conns := (h_conns h)(i := f (h_conns h i))\<rparr>"

definition upd_pool :: "nat \<Rightarrow> (Pool \<Rightarrow> Pool) \<Rightarrow> 'w heap \<Rightarrow> 'w heap" where
  "upd_pool p f h = h\<lparr>h_pools := (h_pools h)(p := f (h_pools h p))\<rparr>"

definition upd_opool :: "nat option \<Rightarrow> (Pool \<Rightarrow> Pool) \<Rightarrow> 'w heap \<Rightarrow> 'w heap" where
  "upd_opool op f h = (case op of None \<Rightarrow> h | Some p \<Rightarrow> upd_pool p f h)"

lemma upd_conn_simps [simp]:
  "h_conns (upd_conn i f h) = (h_conns h)(i := f (h_conns h i))" "h_next (upd_conn i f h) = h_next h"
  "h_pools (upd_conn i f h) = h_pools h" "h_npools (upd_conn i f h) = h_npools h" "h_net (upd_conn i f h) = h_net h"
  by (simp_all add: upd_conn_def)

lemma upd_pool_simps [simp]:
  "h_conns (upd_pool p g h) = h_conns h" "h_next (upd_pool p g h) = h_next h"
  "h_pools (upd_pool p g h) = (h_pools h)(p := g (h_pools h p))" "h_npools (upd_pool p g h) = h_npools h"
  "h_net (upd_pool p g h) = h_net h"
  by (simp_all add: upd_pool_def)

subsection \<open>Push\<close>

definition Conn_Close :: "'w dev \<Rightarrow> nat \<Rightarrow> 'w heap \<Rightarrow> 'w heap" where
  "Conn_Close dev i h =
     (case c_conn (h_conns h i) of None \<Rightarrow> h | Some s \<Rightarrow> h\<lparr>h_net := d_close dev s (h_net h)\<rparr>)"

lemma Conn_Close_simps [simp]:
  "h_conns (Conn_Close dev i h) = h_conns h" "h_next (Conn_Close dev i h) = h_next h"
  "h_pools (Conn_Close dev i h) = h_pools h" "h_npools (Conn_Close dev i h) = h_npools h"
  by (simp_all add: Conn_Close_def split: option.splits)

definition Pool_Push :: "'w dev \<Rightarrow> nat \<Rightarrow> nat option \<Rightarrow> 'w heap \<Rightarrow> 'w heap" where
  "Pool_Push dev p oc h =
     (case oc of
        None \<Rightarrow> h
      | Some i \<Rightarrow>
          if c_isIdle (h_conns h i) then h
          else
            (let h1 = upd_conn i (\<lambda>c. c\<lparr>c_isIdle := True\<rparr>) h;
                 drop = (\<lambda>h. Conn_Close dev i (upd_pool p (\<lambda>P. P\<lparr>p_ActiveNum := p_ActiveNum P - 1\<rparr>) h));
                 P = h_pools h1 p
             in if c_err (h_conns h1 i) \<noteq> None then drop h1
                else if p_MaxIdleNum P < p_IdleNum P then drop h1
                else if int (length (p_ClientPool P)) < p_MaxConnNum P then
                  upd_pool p (\<lambda>P. P\<lparr>p_ClientPool := p_ClientPool P @ [i], p_IdleNum := p_IdleNum P + 1,
                                     p_ActiveNum := p_ActiveNum P - 1\<rparr>) h1
                else drop h1))"

subsection \<open>Calls\<close>

text \<open>
  \<open>Call\<close> between setting the deadlines and reading the reply. A nil socket panics; the writer's kept
  error comes back without anything being sent.
\<close>

definition exchange ::
  "'w dev \<Rightarrow> nat \<Rightarrow> string \<Rightarrow> arg list \<Rightarrow> 'w heap \<Rightarrow> ((redis_err + reply) \<times> 'w heap) go" where
  "exchange dev i command args h =
     (case c_conn (h_conns h i) of
        None \<Rightarrow> Panic
      | Some s \<Rightarrow>
          go_bind (writeRequest command args) (\<lambda>req.
          case c_werr (h_conns h i) of
            Some e \<Rightarrow> Ret (Inl e, h)
          | None \<Rightarrow>
              (case d_write dev s (c_wb (h_conns h i) @ req) (h_net h) of
                 (Some t, w) \<Rightarrow>
                   Ret (Inl (PlainErr t), upd_conn i (\<lambda>c. c\<lparr>c_werr := Some (PlainErr t)\<rparr>) (h\<lparr>h_net := w\<rparr>))
               | (None, w) \<Rightarrow>
                   (case d_read dev s w of
                      (bytes, w') \<Rightarrow>
                        (case readResponse (c_rb (h_conns h i) @ bytes) of
                           (Panic, _) \<Rightarrow> Panic
                         | (Ret r, rest) \<Rightarrow>
                             Ret (r, upd_conn i (\<lambda>c. c\<lparr>c_wb := [], c_rb := rest\<rparr>) (h\<lparr>h_net := w'\<rparr>)))))))"

text \<open>The deferred function of \<open>Call\<close>.\<close>

definition call_defer :: "'w dev \<Rightarrow> nat \<Rightarrow> string \<Rightarrow> redis_err + reply \<Rightarrow> 'w heap \<Rightarrow> 'w heap" where
  "call_defer dev i command r h =
     (let h1 = (case r of
                  Inl e \<Rightarrow>
                    if is_common e then h
                    else upd_conn i (\<lambda>c. c\<lparr>c_err := Some e\<rparr>)
                           (upd_opool (c_pool (h_conns h i))
                              (\<lambda>P. if command \<noteq> ''PING'' then P\<lparr>p_CallNetErrNum := p_CallNetErrNum P + 1\<rparr>
                                   else P\<lparr>p_PingErrNum := p_PingErrNum P + 1\<rparr>) h)
                | Inr _ \<Rightarrow> h)
      in if c_isOnce (h_conns h1 i) then
           (let h2 = upd_conn i (\<lambda>c. c\<lparr>c_isOnce := False\<rparr>) h1
            in case c_pool (h_conns h2 i) of None \<Rightarrow> h2 | Some p \<Rightarrow> Pool_Push dev p (Some i) h2)
         else h1)"

definition Conn_Call ::
  "'w dev \<Rightarrow> nat \<Rightarrow> string \<Rightarrow> arg list \<Rightarrow> 'w heap \<Rightarrow> ((redis_err + reply) \<times> 'w heap) go" where
  "Conn_Call dev i command args h =
     (case c_err (h_conns h i) of
        Some e \<Rightarrow> Ret (Inl e, h)
      | None \<Rightarrow>
          (let h1 = upd_opool (c_pool (h_conns h i)) (\<lambda>P. P\<lparr>p_CallNum := p_CallNum P + 1\<rparr>)
                      (upd_conn i (\<lambda>c. c\<lparr>c_lastActiveTime := d_unix dev (h_net h)\<rparr>) h)
           in go_bind (exchange dev i command args h1) (\<lambda>(r, h2). Ret (r, call_defer dev i command r h2))))"

definition Conn_IsAlive :: "'w dev \<Rightarrow> nat \<Rightarrow> 'w heap \<Rightarrow> (bool \<times> 'w heap) go" where
  "Conn_IsAlive dev i h =
     go_bind (Conn_Call dev i ''PING'' [] h) (\<lambda>(r, h'). Ret (r = Inr (RBytes ''PONG''), h'))"

definition Conn_AUTH :: "'w dev \<Rightarrow> nat \<Rightarrow> string \<Rightarrow> 'w heap \<Rightarrow> (bool res \<times> 'w heap) go" where
  "Conn_AUTH dev i password h =
     go_bind (Conn_Call dev i ''AUTH'' [AStr password] h) (\<lambda>(r, h'). Ret (auth_reply r, h'))"

subsection \<open>Dialling\<close>

definition new_Conn :: "string \<Rightarrow> nat option \<Rightarrow> bool \<Rightarrow> nat option \<Rightarrow> int \<Rightarrow> Conn" where
  "new_Conn address sock keepAlive pool now =
     \<lparr>c_Address = address, c_keepAlive = keepAlive, c_isIdle = True, c_pipeCount = 0, c_lastActiveTime = now,
      c_conn = sock, c_rb = [], c_wb = [], c_werr = None, c_pool = pool, c_err = None, c_isOnce = False\<rparr>"

definition alloc_conn :: "Conn \<Rightarrow> 'w heap \<Rightarrow> nat \<times> 'w heap" where
  "alloc_conn c h = (h_next h, h\<lparr>h_conns := (h_conns h)(h_next h := c), h_next := Suc (h_next h)\<rparr>)"

text \<open>An \<open>AUTH\<close> that fails makes \<open>Dial\<close> fail, the socket stays open.\<close>

definition Dial ::
  "'w dev \<Rightarrow> string \<Rightarrow> string \<Rightarrow> bool \<Rightarrow> nat option \<Rightarrow> 'w heap \<Rightarrow> ((redis_err + nat) \<times> 'w heap) go" where
  "Dial dev address password keepAlive pool h =
     (case d_dial dev address (h_net h) of
        (Inl e, w) \<Rightarrow> Ret (Inl (PlainErr e), h\<lparr>h_net := w\<rparr>)
      | (Inr s, w) \<Rightarrow>
          (let address' = (if password \<noteq> [] then address @ '':'' @ password else address);
               (i, h1) = alloc_conn (new_Conn address' (Some s) keepAlive pool (d_unix dev w)) (h\<lparr>h_net := w\<rparr>)
           in if password \<noteq> [] then
                go_bind (Conn_AUTH dev i password h1) (\<lambda>((_, e), h2).
                Ret (case e of Some e \<Rightarrow> Inl e | None \<Rightarrow> Inr i, h2))
              else Ret (Inr i, h1)))"

definition Connect :: "'w dev \<Rightarrow> string \<Rightarrow> 'w heap \<Rightarrow> ((redis_err + nat) \<times> 'w heap) go" where
  "Connect dev addr h =
     (case strings_Split addr '':'' of
        [a, b, password] \<Rightarrow> Dial dev (a @ '':'' @ b) password False None h
      | [a, b] \<Rightarrow> Dial dev addr [] False None h
      | _ \<Rightarrow> Ret (Inl (PlainErr ''invalid address pattarn''), h))"

definition Conn_Copy :: "nat \<Rightarrow> nat \<Rightarrow> 'w heap \<Rightarrow> 'w heap" where
  "Conn_Copy i k h = upd_conn i (\<lambda>_. (h_conns h k)\<lparr>c_err := None\<rparr>) h"

subsection \<open>Pop\<close>

definition DefaultMaxConnsWaitTimes :: nat where
  "DefaultMaxConnsWaitTimes = 50"

text \<open>The channel cannot be made with a negative or an excessive capacity.\<close>

definition NewPool :: "string \<Rightarrow> string \<Rightarrow> int \<Rightarrow> int \<Rightarrow> int \<Rightarrow> Pool go" where
  "NewPool address password maxConnNum maxIdleNum maxIdleSeconds =
     (if \<not> chan_size_ok maxConnNum then Panic
      else Ret \<lparr>p_Address = address, p_Password = password, p_IdleNum = 0, p_ActiveNum = 0,
                p_MaxConnNum = maxConnNum, p_MaxIdleNum = maxIdleNum, p_CreateNum = 0,
                p_CreateFailedNum = 0, p_WaitTimeoutNum = 0, p_PingErrNum = 0, p_CallNetErrNum = 0,
                p_MaxIdleSeconds = maxIdleSeconds, p_ClientPool = [], p_CallNum = 0, p_ScriptMap = []\<rparr>)"

text \<open>Marking a connection from the channel as in use.\<close>

definition take_conn :: "nat \<Rightarrow> nat \<Rightarrow> 'w heap \<Rightarrow> 'w heap" where
  "take_conn p i h =
     upd_pool p (\<lambda>P. P\<lparr>p_IdleNum := p_IdleNum P - 1, p_ActiveNum := p_ActiveNum P + 1\<rparr>)
       (upd_conn i (\<lambda>c. c\<lparr>c_isIdle := False\<rparr>) h)"

text \<open>
  The loop of \<open>Pop\<close>; \<open>oc\<close> is the variable \<open>c\<close>, which keeps a connection found dead. Other goroutines do
  not act between the steps. The dialled connection is pushed into the channel and taken out in the
  next round. The loop need not end, so the result is an option.
\<close>

partial_function (option) Pop_loop ::
  "'w dev \<Rightarrow> nat \<Rightarrow> nat \<Rightarrow> nat option \<Rightarrow> 'w heap \<Rightarrow> (nat option \<times> 'w heap) go option" where
  "Pop_loop dev p WaitTimes oc h =
     (case p_ClientPool (h_pools h p) of
        i # is \<Rightarrow>
          (let h1 = upd_pool p (\<lambda>P. P\<lparr>p_ClientPool := is\<rparr>) h in
           if p_MaxIdleSeconds (h_pools h p) < d_unix dev (h_net h) - c_lastActiveTime (h_conns h i) then
             (case Conn_IsAlive dev i h1 of
                Panic \<Rightarrow> Some Panic
              | Ret (alive, h2) \<Rightarrow>
                  if alive then Some (Ret (Some i, take_conn p i h2))
                  else Pop_loop dev p WaitTimes (Some i)
                         (upd_pool p (\<lambda>P. P\<lparr>p_IdleNum := p_IdleNum P - 1\<rparr>) (Conn_Close dev i h2)))
           else Some (Ret (Some i, take_conn p i h1)))
      | [] \<Rightarrow>
          if p_MaxConnNum (h_pools h p) \<le> p_IdleNum (h_pools h p) + p_ActiveNum (h_pools h p) then
            (case WaitTimes of
               0 \<Rightarrow> Some (Ret (oc, upd_pool p (\<lambda>P. P\<lparr>p_WaitTimeoutNum := p_WaitTimeoutNum P + 1\<rparr>) h))
             | Suc n \<Rightarrow> Pop_loop dev p n oc (h\<lparr>h_net := d_sleep dev (h_net h)\<rparr>))
          else
            (case Dial dev (p_Address (h_pools h p)) (p_Password (h_pools h p)) True (Some p) h of
               Panic \<Rightarrow> Some Panic
             | Ret (r, h1) \<Rightarrow>
                 (case r of
                    Inl e \<Rightarrow> Some (Ret (oc, upd_pool p (\<lambda>P. P\<lparr>p_CreateFailedNum := p_CreateFailedNum P + 1\<rparr>) h1))
                  | Inr i \<Rightarrow>
                      Pop_loop dev p WaitTimes oc
                        (Pool_Push dev p (Some i)
                           (upd_conn i (\<lambda>c. c\<lparr>c_isIdle := False\<rparr>)
                              (upd_pool p (\<lambda>P. P\<lparr>p_ActiveNum := p_ActiveNum P + 1, p_CreateNum := p_CreateNum P + 1\<rparr>) h1))))))"

definition Pool_Pop :: "'w dev \<Rightarrow> nat \<Rightarrow> 'w heap \<Rightarrow> (nat option \<times> 'w heap) go option" where
  "Pool_Pop dev p h = Pop_loop dev p DefaultMaxConnsWaitTimes None h"

text \<open>\<open>CallN\<close> with \<open>retry\<close> attempts left; the index \<open>i\<close> of the code counts up, \<open>retry\<close> down.\<close>

fun CallN_loop ::
  "'w dev \<Rightarrow> nat \<Rightarrow> bool \<Rightarrow> string \<Rightarrow> arg list \<Rightarrow> nat \<Rightarrow> 'w heap \<Rightarrow> ((redis_err + reply) \<times> 'w heap) go option" where
  "CallN_loop dev i isOnce command args 0 h = Some (Ret (Inr RNil, h))"
| "CallN_loop dev i isOnce command args (Suc n) h =
     (case Conn_Call dev i command args h of
        Panic \<Rightarrow> Some Panic
      | Ret (r, h1) \<Rightarrow>
          (case (c_err (h_conns h1 i), c_pool (h_conns h1 i)) of
             (Some _, Some p) \<Rightarrow>
               if n = 0 then Some (Ret (r, h1))
               else
                 (let h2 = (if isOnce then h1 else Pool_Push dev p (Some i) h1) in
                  case Pool_Pop dev p h2 of
                    None \<Rightarrow> None
                  | Some Panic \<Rightarrow> Some Panic
                  | Some (Ret (None, h3)) \<Rightarrow> Some (Ret (r, h3))
                  | Some (Ret (Some k, h3)) \<Rightarrow>
                      CallN_loop dev i isOnce command args n
                        (upd_conn i (\<lambda>c. c\<lparr>c_isOnce := isOnce\<rparr>) (Conn_Copy i k h3)))
           | _ \<Rightarrow> Some (Ret (r, h1))))"

definition Conn_CallN ::
  "'w dev \<Rightarrow> nat \<Rightarrow> nat \<Rightarrow> string \<Rightarrow> arg list \<Rightarrow> 'w heap \<Rightarrow> ((redis_err + reply) \<times> 'w heap) go option" where
  "Conn_CallN dev retry i command args h =
     (case c_err (h_conns h i) of
        Some e \<Rightarrow> Some (Ret (Inl e, h))
      | None \<Rightarrow> CallN_loop dev i (c_isOnce (h_conns h i)) command args retry h)"

subsection \<open>Pipelines and transactions\<close>

definition PipeSend :: "nat \<Rightarrow> string \<Rightarrow> arg list \<Rightarrow> 'w heap \<Rightarrow> (redis_err option \<times> 'w heap) go" where
  "PipeSend i command args h =
     go_bind (writeRequest command args) (\<lambda>req.
     let h1 = upd_conn i (\<lambda>c. c\<lparr>c_pipeCount := Suc (c_pipeCount c)\<rparr>) h in
     Ret (case c_werr (h_conns h i) of
            Some e \<Rightarrow> (Some e, h1)
          | None \<Rightarrow> (None, upd_conn i (\<lambda>c. c\<lparr>c_wb := c_wb c @ req\<rparr>) h1)))"

text \<open>Reading the replies of a pipeline: an error leaves nil in the slice, the last error is returned.\<close>

fun pipe_read :: "nat \<Rightarrow> string \<Rightarrow> (reply list \<times> redis_err option \<times> string) go" where
  "pipe_read 0 s = Ret ([], None, s)"
| "pipe_read (Suc n) s =
     (case readResponse s of
        (Panic, _) \<Rightarrow> Panic
      | (Ret r, s1) \<Rightarrow>
          go_bind (pipe_read n s1) (\<lambda>(vs, e, s2).
          Ret ((case r of Inl _ \<Rightarrow> RNil | Inr v \<Rightarrow> v) # vs,
               if n = 0 then (case r of Inl e \<Rightarrow> Some e | Inr _ \<Rightarrow> None) else e, s2)))"

definition PipeExec :: "'w dev \<Rightarrow> nat \<Rightarrow> 'w heap \<Rightarrow> ((reply list option \<times> redis_err option) \<times> 'w heap) go" where
  "PipeExec dev i h =
     (let c = h_conns h i in
      case (c_werr c, c_conn c) of
        (Some e, _) \<Rightarrow> Ret ((None, Some e), h)
      | (None, None) \<Rightarrow> Panic
      | (None, Some s) \<Rightarrow>
          (case d_write dev s (c_wb c) (h_net h) of
             (Some t, w) \<Rightarrow>
               Ret ((None, Some (PlainErr t)), upd_conn i (\<lambda>c. c\<lparr>c_werr := Some (PlainErr t)\<rparr>) (h\<lparr>h_net := w\<rparr>))
           | (None, w) \<Rightarrow>
               (case d_read dev s w of
                  (bytes, w') \<Rightarrow>
                    go_bind (pipe_read (c_pipeCount c) (c_rb c @ bytes)) (\<lambda>(vs, e, rest).
                    Ret ((Some vs, e),
                         upd_conn i (\<lambda>c. c\<lparr>c_wb := [], c_rb := rest, c_pipeCount := 0\<rparr>) (h\<lparr>h_net := w'\<rparr>))))))"

definition word_reply :: "string \<Rightarrow> redis_err + reply \<Rightarrow> redis_err option" where
  "word_reply t r =
     (case r of
        Inl e \<Rightarrow> Some e
      | Inr (RBytes b) \<Rightarrow> if b = t then None else Some (PlainErr (''invalid return:'' @ b))
      | Inr _ \<Rightarrow> Some ErrBadType)"

definition MULTI :: "'w dev \<Rightarrow> nat \<Rightarrow> 'w heap \<Rightarrow> (redis_err option \<times> 'w heap) go" where
  "MULTI dev i h = go_bind (Conn_Call dev i ''MULTI'' [] h) (\<lambda>(r, h'). Ret (word_reply ''OK'' r, h'))"

definition TransSend :: "'w dev \<Rightarrow> nat \<Rightarrow> string \<Rightarrow> arg list \<Rightarrow> 'w heap \<Rightarrow> (redis_err option \<times> 'w heap) go" where
  "TransSend dev i command args h =
     go_bind (Conn_Call dev i command args h) (\<lambda>(r, h'). Ret (word_reply ''QUEUED'' r, h'))"

text \<open>The error of \<open>EXEC\<close> is overwritten by the result of flushing an empty buffer.\<close>

definition TransExec :: "'w dev \<Rightarrow> nat \<Rightarrow> 'w heap \<Rightarrow> ((reply list option \<times> redis_err option) \<times> 'w heap) go" where
  "TransExec dev i h =
     go_bind (Conn_Call dev i ''EXEC'' [] h) (\<lambda>(r, h').
     case c_werr (h_conns h' i) of
       Some e \<Rightarrow> Ret ((None, Some e), h')
     | None \<Rightarrow>
         (case r of
            Inl _ \<Rightarrow> Ret ((None, Some ErrNil), h')
          | Inr RNil \<Rightarrow> Ret ((None, Some ErrNil), h')
          | Inr (RArr vs) \<Rightarrow> Ret ((Some vs, None), h')
          | Inr _ \<Rightarrow> Panic))"

definition Discard :: "'w dev \<Rightarrow> nat \<Rightarrow> 'w heap \<Rightarrow> (redis_err option \<times> 'w heap) go" where
  "Discard dev i h = go_bind (Conn_Call dev i ''DISCARD'' [] h) (\<lambda>(r, h'). Ret (word_reply ''OK'' r, h'))"

text \<open>\<open>Watch\<close> ranges over the arguments it is about to fill, which are nil, and not over the keys.\<close>

definition Watch :: "'w dev \<Rightarrow> nat \<Rightarrow> string list \<Rightarrow> 'w heap \<Rightarrow> (redis_err option \<times> 'w heap) go" where
  "Watch dev i ks h =
     go_bind (Conn_Call dev i ''WATCH'' (map (\<lambda>_. ANil) ks) h) (\<lambda>(r, h'). Ret (word_reply ''OK'' r, h'))"

subsection \<open>Reading and resetting the counters\<close>

record PoolInfo =
  pi_Address :: string
  pi_IdleNum :: int
  pi_ActiveNum :: int
  pi_CreateNum :: int
  pi_TimeoutNum :: int
  pi_CreateFailedNum :: int
  pi_CallNetErrNum :: int
  pi_PingErrNum :: int
  pi_Qps :: int

definition Actives :: "nat \<Rightarrow> 'w heap \<Rightarrow> int" where "Actives p h = p_ActiveNum (h_pools h p)"

definition Idles :: "nat \<Rightarrow> 'w heap \<Rightarrow> int" where "Idles p h = p_IdleNum (h_pools h p)"

text \<open>\<open>QPS\<close> reads the counter, sleeps a second and reads it again, in the heap \<open>h'\<close> of that moment.\<close>

definition QPS :: "nat \<Rightarrow> 'w heap \<Rightarrow> 'w heap \<Rightarrow> int" where
  "QPS p h h' = p_CallNum (h_pools h' p) - p_CallNum (h_pools h p)"

text \<open>\<open>QPSAvg\<close> reads it after each of three further seconds; Go's division truncates towards zero.\<close>

definition QPSAvg :: "nat \<Rightarrow> 'w heap \<Rightarrow> 'w heap \<Rightarrow> 'w heap \<Rightarrow> 'w heap \<Rightarrow> int" where
  "QPSAvg p h0 h1 h2 h3 =
     (let s = QPS p h0 h1 + QPS p h1 h2 + QPS p h2 h3 in if s < 0 then - (- s div 3) else s div 3)"

definition Pool_Info :: "nat \<Rightarrow> 'w heap \<Rightarrow> 'w heap \<Rightarrow> PoolInfo" where
  "Pool_Info p h h' =
     (let P = h_pools h p in
      \<lparr>pi_Address = p_Address P, pi_IdleNum = p_IdleNum P, pi_ActiveNum = p_ActiveNum P,
       pi_CreateNum = p_CreateNum P, pi_TimeoutNum = p_WaitTimeoutNum P,
       pi_CreateFailedNum = p_CreateFailedNum P, pi_CallNetErrNum = p_CallNetErrNum P,
       pi_PingErrNum = p_PingErrNum P, pi_Qps = QPS p h h'\<rparr>)"

definition Pool_ClearInfo :: "nat \<Rightarrow> 'w heap \<Rightarrow> 'w heap" where
  "Pool_ClearInfo p h =
     upd_pool p (\<lambda>P. P\<lparr>p_CreateFailedNum := 0, p_WaitTimeoutNum := 0, p_CallNetErrNum := 0,
                       p_PingErrNum := 0, p_CallNum := 0\<rparr>) h"

definition AddScriptSha1 :: "nat \<Rightarrow> string \<Rightarrow> string \<Rightarrow> 'w heap \<Rightarrow> 'w heap" where
  "AddScriptSha1 p name script h = upd_pool p (\<lambda>P. P\<lparr>p_ScriptMap := AList.update name script (p_ScriptMap P)\<rparr>) h"

definition DelScriptSha1 :: "nat \<Rightarrow> string \<Rightarrow> 'w heap \<Rightarrow> 'w heap" where
  "DelScriptSha1 p name h = upd_pool p (\<lambda>P. P\<lparr>p_ScriptMap := AList.delete name (p_ScriptMap P)\<rparr>) h"

definition GetScriptSha1 :: "nat \<Rightarrow> string \<Rightarrow> 'w heap \<Rightarrow> string" where
  "GetScriptSha1 p name h = (case map_of (p_ScriptMap (h_pools h p)) name of None \<Rightarrow> [] | Some s \<Rightarrow> s)"

subsection \<open>Several pools\<close>

record MultiPool =
  mp_pools :: "(string, nat) gomap"
  mp_servers :: "string list"
  mp_maxConnNum :: int
  mp_maxIdleNum :: int
  mp_maxIdleSeconds :: int

definition alloc_pool :: "Pool \<Rightarrow> 'w heap \<Rightarrow> nat \<times> 'w heap" where
  "alloc_pool P h = (h_npools h, h\<lparr>h_pools := (h_pools h)(h_npools h := P), h_npools := Suc (h_npools h)\<rparr>)"

text \<open>The pool of an address \<open>host:port\<close> or \<open>host:port:password\<close>, \<open>None\<close> for another form.\<close>

definition pool_of_address :: "string \<Rightarrow> int \<Rightarrow> int \<Rightarrow> int \<Rightarrow> Pool go option" where
  "pool_of_address address maxConnNum maxIdleNum maxIdleSeconds =
     (case strings_Split address '':'' of
        [a, b, password] \<Rightarrow> Some (NewPool (a @ '':'' @ b) password maxConnNum maxIdleNum maxIdleSeconds)
      | [a, b] \<Rightarrow> Some (NewPool address [] maxConnNum maxIdleNum maxIdleSeconds)
      | _ \<Rightarrow> None)"

definition AddPool :: "string \<Rightarrow> MultiPool \<times> 'w heap \<Rightarrow> (nat option \<times> MultiPool \<times> 'w heap) go" where
  "AddPool address mh =
     (let (mp, h) = mh in
      case map_of (mp_pools mp) address of
        Some p \<Rightarrow> Ret (Some p, mp, h)
      | None \<Rightarrow>
          (case pool_of_address address (mp_maxConnNum mp) (mp_maxIdleNum mp) (mp_maxIdleSeconds mp) of
             None \<Rightarrow> Ret (None, mp, h)
           | Some gp \<Rightarrow>
               go_bind gp (\<lambda>P. let (p, h1) = alloc_pool P h in
               Ret (Some p, mp\<lparr>mp_pools := AList.update address p (mp_pools mp),
                               mp_servers := mp_servers mp @ [address]\<rparr>, h1))))"

fun add_pools :: "string list \<Rightarrow> MultiPool \<times> 'w heap \<Rightarrow> (MultiPool \<times> 'w heap) go" where
  "add_pools [] mh = Ret mh"
| "add_pools (addr # as) mh = go_bind (AddPool addr mh) (\<lambda>(_, mh'). add_pools as mh')"

text \<open>\<open>servers\<close> starts with as many empty strings as there are addresses.\<close>

definition NewMultiPool :: "string list \<Rightarrow> int \<Rightarrow> int \<Rightarrow> int \<Rightarrow> 'w heap \<Rightarrow> (MultiPool \<times> 'w heap) go" where
  "NewMultiPool addresses maxConnNum maxIdleNum maxIdleSeconds h =
     add_pools addresses
       (\<lparr>mp_pools = [], mp_servers = replicate (length addresses) [], mp_maxConnNum = maxConnNum,
         mp_maxIdleNum = maxIdleNum, mp_maxIdleSeconds = maxIdleSeconds\<rparr>, h)"

definition DelPool :: "string \<Rightarrow> MultiPool \<Rightarrow> MultiPool" where
  "DelPool address mp =
     mp\<lparr>mp_pools := AList.delete address (mp_pools mp), mp_servers := remove1 address (mp_servers mp)\<rparr>"

text \<open>The loop over \<open>servers\<close> assigns to its own variable and changes nothing.\<close>

definition ReplacePool ::
  "string \<Rightarrow> string \<Rightarrow> int \<Rightarrow> int \<Rightarrow> int \<Rightarrow> MultiPool \<times> 'w heap \<Rightarrow> (bool \<times> MultiPool \<times> 'w heap) go" where
  "ReplacePool src dst maxConnNum maxIdleNum maxIdleSeconds mh =
     (let (mp, h) = mh; mp1 = mp\<lparr>mp_pools := AList.delete src (mp_pools mp)\<rparr> in
      if map_of (mp_pools mp) src = None then Ret (False, mp1, h)
      else (case pool_of_address dst maxConnNum maxIdleNum maxIdleSeconds of
              None \<Rightarrow> Ret (False, mp1, h)
            | Some gp \<Rightarrow>
                go_bind gp (\<lambda>P. let (p, h1) = alloc_pool P h in
                Ret (True, mp1\<lparr>mp_pools := AList.update dst p (mp_pools mp1)\<rparr>, h1))))"

definition PopByAddr ::
  "'w dev \<Rightarrow> string \<Rightarrow> MultiPool \<times> 'w heap \<Rightarrow> (nat option \<times> MultiPool \<times> 'w heap) go option" where
  "PopByAddr dev addr mh =
     (case AddPool addr mh of
        Panic \<Rightarrow> Some Panic
      | Ret (None, mh') \<Rightarrow> Some (Ret (None, mh'))
      | Ret (Some p, mp, h) \<Rightarrow>
          (case Pool_Pop dev p h of
             None \<Rightarrow> None
           | Some Panic \<Rightarrow> Some Panic
           | Some (Ret (oc, h')) \<Rightarrow> Some (Ret (oc, mp, h'))))"

definition PushByAddr :: "'w dev \<Rightarrow> string \<Rightarrow> nat option \<Rightarrow> MultiPool \<Rightarrow> 'w heap \<Rightarrow> 'w heap" where
  "PushByAddr dev addr oc mp h =
     (case map_of (mp_pools mp) addr of None \<Rightarrow> h | Some p \<Rightarrow> Pool_Push dev p oc h)"

definition Sum_step :: "32 word \<Rightarrow> char \<Rightarrow> 32 word" where
  "Sum_step hash k =
     (let h1 = hash + of_char k; h2 = h1 + push_bit 10 h1 in xor h2 (drop_bit 6 h2))"

definition Sum_hash :: "string \<Rightarrow> int" where
  "Sum_hash key =
     (let h = foldl Sum_step 0 key;
          h1 = h + push_bit 3 h;
          h2 = xor h1 (drop_bit 11 h1);
          h3 = h2 + push_bit 15 h2
      in uint h3)"

text \<open>The address a key selects: no pools divide by zero, an index beyond \<open>servers\<close> panics as well.\<close>

definition key_address :: "string \<Rightarrow> MultiPool \<Rightarrow> string go" where
  "key_address key mp =
     (if mp_pools mp = [] then Panic
      else (let n = nat (Sum_hash key mod int (length (mp_pools mp))) in
            if n < length (mp_servers mp) then Ret (mp_servers mp ! n) else Panic))"

definition PopByKey :: "'w dev \<Rightarrow> string \<Rightarrow> MultiPool \<Rightarrow> 'w heap \<Rightarrow> (nat option \<times> 'w heap) go option" where
  "PopByKey dev key mp h =
     (case key_address key mp of
        Panic \<Rightarrow> Some Panic
      | Ret addr \<Rightarrow> (case map_of (mp_pools mp) addr of None \<Rightarrow> Some (Ret (None, h)) | Some p \<Rightarrow> Pool_Pop dev p h))"

definition PushByKey :: "'w dev \<Rightarrow> string \<Rightarrow> nat option \<Rightarrow> MultiPool \<Rightarrow> 'w heap \<Rightarrow> 'w heap go" where
  "PushByKey dev key oc mp h =
     go_bind (key_address key mp) (\<lambda>addr.
     Ret (case map_of (mp_pools mp) addr of None \<Rightarrow> h | Some p \<Rightarrow> Pool_Push dev p oc h))"

definition MultiPool_Push :: "'w dev \<Rightarrow> nat option \<Rightarrow> MultiPool \<Rightarrow> 'w heap \<Rightarrow> 'w heap" where
  "MultiPool_Push dev oc mp h =
     (case oc of
        None \<Rightarrow> h
      | Some i \<Rightarrow>
          (case map_of (mp_pools mp) (c_Address (h_conns h i)) of None \<Rightarrow> h | Some p \<Rightarrow> Pool_Push dev p oc h))"

definition MultiPool_Info :: "MultiPool \<Rightarrow> 'w heap \<Rightarrow> 'w heap \<Rightarrow> PoolInfo list" where
  "MultiPool_Info mp h h' = map (\<lambda>(_, p). Pool_Info p h h') (mp_pools mp)"

definition MultiPool_ClearInfo :: "MultiPool \<Rightarrow> 'w heap \<Rightarrow> 'w heap" where
  "MultiPool_ClearInfo mp h = fold (\<lambda>(_, p). Pool_ClearInfo p) (mp_pools mp) h"

text \<open>
  \<open>Call(address)\<close> of a multi pool: a connection that goes back to its pool after one call, or a
  connection that fails every call.
\<close>

definition Once :: "'w dev \<Rightarrow> string \<Rightarrow> MultiPool \<times> 'w heap \<Rightarrow> (nat \<times> MultiPool \<times> 'w heap) go option" where
  "Once dev addr mh =
     (case PopByAddr dev addr mh of
        None \<Rightarrow> None
      | Some Panic \<Rightarrow> Some Panic
      | Some (Ret (None, mp, h)) \<Rightarrow>
          (let (i, h1) = alloc_conn ((new_Conn [] None False None 0)
                 \<lparr>c_isIdle := False, c_err := Some (PlainErr (''get a nil conn address='' @ addr))\<rparr>) h
           in Some (Ret (i, mp, h1)))
      | Some (Ret (Some i, mp, h)) \<Rightarrow> Some (Ret (i, mp, upd_conn i (\<lambda>c. c\<lparr>c_isOnce := True\<rparr>) h)))"

definition RetryTimes_redis :: nat where "RetryTimes_redis = 2"

text \<open>A command method on such a connection, as \<open>s.redisCli.Call(s.address).LPUSH(...)\<close> runs it.\<close>

definition once_call ::
  "'w dev \<Rightarrow> string \<Rightarrow> string \<Rightarrow> arg list \<Rightarrow> MultiPool \<times> 'w heap \<Rightarrow> ((redis_err + reply) \<times> MultiPool \<times> 'w heap) go option" where
  "once_call dev addr command args mh =
     (case Once dev addr mh of
        None \<Rightarrow> None
      | Some Panic \<Rightarrow> Some Panic
      | Some (Ret (i, mp, h)) \<Rightarrow>
          (case Conn_CallN dev RetryTimes_redis i command args h of
             None \<Rightarrow> None
           | Some Panic \<Rightarrow> Some Panic
           | Some (Ret (r, h')) \<Rightarrow> Some (Ret (r, mp, h'))))"

subsection \<open>What a pool accounts for\<close>

text \<open>
  \<open>pool_inv out p h\<close>: \<open>out\<close> are the connections of pool \<open>p\<close> in use. The counters are the numbers of idle
  and of used connections, both together stay within \<open>MaxConnNum\<close>, the channel holds each idle
  connection once, none of them failed or set to return to the pool by itself, and no used connection
  is marked idle.
\<close>

definition pool_inv :: "nat set \<Rightarrow> nat \<Rightarrow> 'w heap \<Rightarrow> bool" where
  "pool_inv out p h \<longleftrightarrow>
     finite out \<and> p_IdleNum (h_pools h p) = int (length (p_ClientPool (h_pools h p)))
     \<and> p_ActiveNum (h_pools h p) = int (card out)
     \<and> p_IdleNum (h_pools h p) + p_ActiveNum (h_pools h p) \<le> p_MaxConnNum (h_pools h p)
     \<and> distinct (p_ClientPool (h_pools h p)) \<and> set (p_ClientPool (h_pools h p)) \<inter> out = {}
     \<and> (\<forall>i \<in> set (p_ClientPool (h_pools h p)).
            c_isIdle (h_conns h i) \<and> \<not> c_isOnce (h_conns h i) \<and> c_err (h_conns h i) = None \<and> i < h_next h
            \<and> c_pool (h_conns h i) = Some p)
     \<and> (\<forall>i \<in> out. \<not> c_isIdle (h_conns h i) \<and> i < h_next h \<and> c_pool (h_conns h i) = Some p)"

text \<open>Changes of the heap that do not concern the accounting.\<close>

definition same_pool :: "nat \<Rightarrow> 'w heap \<Rightarrow> 'w heap \<Rightarrow> bool" where
  "same_pool p h h' \<longleftrightarrow>
     p_ClientPool (h_pools h' p) = p_ClientPool (h_pools h p) \<and> p_IdleNum (h_pools h' p) = p_IdleNum (h_pools h p)
     \<and> p_ActiveNum (h_pools h' p) = p_ActiveNum (h_pools h p) \<and> p_MaxConnNum (h_pools h' p) = p_MaxConnNum (h_pools h p)
     \<and> p_MaxIdleNum (h_pools h' p) = p_MaxIdleNum (h_pools h p) \<and> p_MaxIdleSeconds (h_pools h' p) = p_MaxIdleSeconds (h_pools h p)
     \<and> p_Address (h_pools h' p) = p_Address (h_pools h p) \<and> p_Password (h_pools h' p) = p_Password (h_pools h p)
     \<and> h_next h' = h_next h
     \<and> (\<forall>i. c_isIdle (h_conns h' i) = c_isIdle (h_conns h i) \<and> c_pool (h_conns h' i) = c_pool (h_conns h i)
            \<and> c_isOnce (h_conns h' i) = c_isOnce (h_conns h i))
     \<and> (\<forall>i \<in> set (p_ClientPool (h_pools h p)). c_err (h_conns h' i) = c_err (h_conns h i))"

lemma same_pool_refl [simp]: "same_pool p h h"
  by (simp add: same_pool_def)

lemma same_pool_trans: "same_pool p h h1 \<Longrightarrow> same_pool p h1 h2 \<Longrightarrow> same_pool p h h2"
  by (simp add: same_pool_def)

lemma same_pool_inv [inv_intros]: "same_pool p h h' \<Longrightarrow> pool_inv out p h \<Longrightarrow> pool_inv out p h'"
  by (simp add: same_pool_def pool_inv_def)

lemma same_pool_net [simp]: "same_pool p h (h\<lparr>h_net := w\<rparr>)" "same_pool p h (Conn_Close dev i h)"
  by (simp_all add: same_pool_def)

text \<open>What \<open>exchange\<close> changes of a connection: its buffers and the writer's error.\<close>

definition io_only :: "(Conn \<Rightarrow> Conn) \<Rightarrow> bool" where
  "io_only f \<longleftrightarrow>
     (\<forall>c. c_isIdle (f c) = c_isIdle c \<and> c_pool (f c) = c_pool c \<and> c_isOnce (f c) = c_isOnce c \<and> c_err (f c) = c_err c
          \<and> c_lastActiveTime (f c) = c_lastActiveTime c \<and> c_conn (f c) = c_conn c)"

lemma exchange_cases:
  assumes "exchange dev i command args h = Ret (r, h')"
  obtains "h' = h" | f w where "h' = upd_conn i f (h\<lparr>h_net := w\<rparr>)" "io_only f"
proof -
  have "io_only (\<lambda>c. c\<lparr>c_wb := [], c_rb := rest\<rparr>)" "io_only (\<lambda>c. c\<lparr>c_werr := e\<rparr>)" for rest e
    by (simp_all add: io_only_def)
  with assms that show ?thesis
    by (fastforce simp: exchange_def split: option.splits prod.splits go.splits)
qed

lemma io_only_same: "io_only f \<Longrightarrow> same_pool p h (upd_conn i f (h\<lparr>h_net := w\<rparr>))"
  by (simp add: same_pool_def io_only_def)

lemma exchange_same: "exchange dev i command args h = Ret (r, h') \<Longrightarrow> same_pool p h h'"
  by (elim exchange_cases) (simp_all add: io_only_same)

lemma exchange_frame:
  "exchange dev i command args h = Ret (r, h') \<Longrightarrow>
   c_err (h_conns h' j) = c_err (h_conns h j) \<and> c_lastActiveTime (h_conns h' j) = c_lastActiveTime (h_conns h j)"
  by (elim exchange_cases) (simp_all add: io_only_def)

lemma upd_opool_counter [simp]:
  "h_conns (upd_opool op f h) = h_conns h" "h_next (upd_opool op f h) = h_next h" "h_net (upd_opool op f h) = h_net h"
  by (simp_all add: upd_opool_def split: option.splits)

lemma call_defer_same:
  "\<not> c_isOnce (h_conns h i) \<Longrightarrow> i \<notin> set (p_ClientPool (h_pools h p)) \<Longrightarrow> same_pool p h (call_defer dev i command r h)"
  by (auto simp: call_defer_def same_pool_def upd_opool_def Let_def split: option.splits sum.splits)

lemma Conn_Call_same:
  assumes "Conn_Call dev i command args h = Ret (r, h')" "\<not> c_isOnce (h_conns h i)"
    and "i \<notin> set (p_ClientPool (h_pools h p))"
  shows "same_pool p h h'"
proof (cases "c_err (h_conns h i)")
  case None
  define h1 where "h1 = upd_opool (c_pool (h_conns h i)) (\<lambda>P. P\<lparr>p_CallNum := p_CallNum P + 1\<rparr>)
    (upd_conn i (\<lambda>c. c\<lparr>c_lastActiveTime := d_unix dev (h_net h)\<rparr>) h)"
  obtain h2 where h2: "exchange dev i command args h1 = Ret (r, h2)" "h' = call_defer dev i command r h2"
    using assms(1) None by (auto simp: Conn_Call_def h1_def Let_def)
  have "same_pool p h h1" by (auto simp: same_pool_def h1_def upd_opool_def split: option.splits)
  moreover have "same_pool p h1 h2" using h2(1) by (rule exchange_same)
  ultimately have s: "same_pool p h h2" by (rule same_pool_trans)
  then have "\<not> c_isOnce (h_conns h2 i)" "i \<notin> set (p_ClientPool (h_pools h2 p))"
    using assms(2,3) by (simp_all add: same_pool_def)
  from same_pool_trans [OF s call_defer_same [OF this]] show ?thesis using h2(2) by simp
next
  case (Some e)
  then show ?thesis using assms(1) by (simp add: Conn_Call_def)
qed

lemma Push_idle [simp]: "c_isIdle (h_conns h i) \<Longrightarrow> Pool_Push dev p (Some i) h = h"
  by (simp add: Pool_Push_def)

lemma Push_inv [inv_intros]:
  assumes "pool_inv out p h" "i \<in> out" "\<not> c_isOnce (h_conns h i)"
  shows "pool_inv (out - {i}) p (Pool_Push dev p (Some i) h)"
proof -
  have "finite out" using assms(1) by (simp add: pool_inv_def)
  then have c: "int (card (out - {i})) = int (card out) - 1"
    using card.remove [of out i] assms(2) by simp
  let ?h1 = "upd_conn i (\<lambda>c. c\<lparr>c_isIdle := True\<rparr>) h"
  have i: "\<not> c_isIdle (h_conns h i)" "i < h_next h" "c_pool (h_conns h i) = Some p" "i \<notin> set (p_ClientPool (h_pools h p))"
    using assms by (auto simp: pool_inv_def)
  have drop: "pool_inv (out - {i}) p (Conn_Close dev i (upd_pool p (\<lambda>P. P\<lparr>p_ActiveNum := p_ActiveNum P - 1\<rparr>) ?h1))"
    using assms c by (auto simp: pool_inv_def)
  have push: "pool_inv (out - {i}) p (upd_pool p (\<lambda>P. P\<lparr>p_ClientPool := p_ClientPool P @ [i],
      p_IdleNum := p_IdleNum P + 1, p_ActiveNum := p_ActiveNum P - 1\<rparr>) ?h1)" if "c_err (h_conns h i) = None"
    using that assms c i by (auto simp: pool_inv_def)
  show ?thesis using drop push i(1) by (simp add: Pool_Push_def Let_def)
qed

text \<open>A call over a connection that returns to its pool afterwards.\<close>

lemma Conn_Call_once:
  assumes "Conn_Call dev i command args h = Ret (r, h')" "c_isOnce (h_conns h i)" "c_err (h_conns h i) = None"
    and "pool_inv out p h" "i \<in> out"
  shows "pool_inv (out - {i}) p h' \<and> \<not> c_isOnce (h_conns h' i)"
proof -
  define h1 where "h1 = upd_opool (c_pool (h_conns h i)) (\<lambda>P. P\<lparr>p_CallNum := p_CallNum P + 1\<rparr>)
    (upd_conn i (\<lambda>c. c\<lparr>c_lastActiveTime := d_unix dev (h_net h)\<rparr>) h)"
  obtain h2 where h2: "exchange dev i command args h1 = Ret (r, h2)" "h' = call_defer dev i command r h2"
    using assms(1,3) by (auto simp: Conn_Call_def h1_def Let_def)
  have "same_pool p h h1" by (auto simp: same_pool_def h1_def upd_opool_def split: option.splits)
  then have s: "same_pool p h h2" using exchange_same [OF h2(1)] same_pool_trans by blast
  then have once: "c_isOnce (h_conns h2 i)" using assms(2) by (simp add: same_pool_def)
  have pool: "c_pool (h_conns h2 i) = Some p"
    using s assms(4,5) by (simp add: same_pool_def pool_inv_def)
  define h3 where "h3 = (case r of Inl e \<Rightarrow>
      if is_common e then h2
      else upd_conn i (\<lambda>c. c\<lparr>c_err := Some e\<rparr>)
             (upd_opool (Some p) (\<lambda>P. if command \<noteq> ''PING'' then P\<lparr>p_CallNetErrNum := p_CallNetErrNum P + 1\<rparr>
                     else P\<lparr>p_PingErrNum := p_PingErrNum P + 1\<rparr>) h2)
    | Inr _ \<Rightarrow> h2)"
  define h4 where "h4 = upd_conn i (\<lambda>c. c\<lparr>c_isOnce := False\<rparr>) h3"
  have "i \<notin> set (p_ClientPool (h_pools h p))" using assms(4,5) by (auto simp: pool_inv_def)
  then have "same_pool p h h3" using s by (auto simp: h3_def same_pool_def upd_opool_def split: sum.splits)
  then have "pool_inv out p h3" using assms(4) by (rule same_pool_inv)
  then have "pool_inv out p h4" using assms(5) by (auto simp: h4_def pool_inv_def)
  moreover have "h' = Pool_Push dev p (Some i) h4"
    using h2(2) once pool by (auto simp: call_defer_def h3_def h4_def upd_opool_def Let_def split: sum.splits)
  moreover have "\<not> c_isOnce (h_conns (Pool_Push dev p (Some i) h4) i)"
    by (simp add: Pool_Push_def h4_def Let_def)
  moreover have "\<not> c_isOnce (h_conns h4 i)" by (simp add: h4_def)
  ultimately show ?thesis using Push_inv [OF _ assms(5)] by simp
qed

subsection \<open>Pop keeps the account\<close>

lemma Dial_inv:
  assumes "Dial dev address password keepAlive (Some p) h = Ret (r, h')" "pool_inv out p h"
  shows "pool_inv out p h' \<and> h_next h \<le> h_next h' \<and> (\<forall>j < h_next h. c_isIdle (h_conns h' j) = c_isIdle (h_conns h j))
     \<and> p_MaxConnNum (h_pools h' p) = p_MaxConnNum (h_pools h p) \<and> p_ActiveNum (h_pools h' p) = p_ActiveNum (h_pools h p)
     \<and> p_ClientPool (h_pools h' p) = p_ClientPool (h_pools h p) \<and> p_MaxIdleNum (h_pools h' p) = p_MaxIdleNum (h_pools h p)
     \<and> p_MaxIdleSeconds (h_pools h' p) = p_MaxIdleSeconds (h_pools h p)
     \<and> (\<forall>i. r = Inr i \<longrightarrow> i = h_next h \<and> i < h_next h' \<and> c_pool (h_conns h' i) = Some p
            \<and> c_isIdle (h_conns h' i) \<and> \<not> c_isOnce (h_conns h' i))"
proof (cases "fst (d_dial dev address (h_net h))")
  case (Inl e)
  then show ?thesis using assms by (auto simp: Dial_def pool_inv_def split: prod.splits)
next
  case (Inr s)
  define w where "w = snd (d_dial dev address (h_net h))"
  define a where "a = (if password \<noteq> [] then address @ '':'' @ password else address)"
  define h1 where "h1 = snd (alloc_conn (new_Conn a (Some s) keepAlive (Some p) (d_unix dev w)) (h\<lparr>h_net := w\<rparr>))"
  have d: "d_dial dev address (h_net h) = (Inr s, w)" using Inr by (simp add: w_def prod_eq_iff)
  have h1: "pool_inv out p h1" "h_next h1 = Suc (h_next h)" "h_pools h1 = h_pools h"
    "c_pool (h_conns h1 (h_next h)) = Some p" "c_isIdle (h_conns h1 (h_next h))" "\<not> c_isOnce (h_conns h1 (h_next h))"
    "\<forall>j < h_next h. h_conns h1 j = h_conns h j" "h_next h \<notin> set (p_ClientPool (h_pools h1 p))"
    using assms(2) by (auto simp: h1_def alloc_conn_def pool_inv_def new_Conn_def)
  have "same_pool p h1 h' \<and> (\<forall>i. r = Inr i \<longrightarrow> i = h_next h)"
  proof (cases "password = []")
    case True
    then show ?thesis using assms(1) d by (auto simp: Dial_def h1_def a_def alloc_conn_def)
  next
    case False
    obtain q e where q: "Conn_Call dev (h_next h) ''AUTH'' [AStr password] h1 = Ret (q, h')"
      "r = (case snd (auth_reply q) of Some e \<Rightarrow> Inl e | None \<Rightarrow> Inr (h_next h))"
      using assms(1) d False
      by (auto simp: Dial_def h1_def a_def alloc_conn_def Conn_AUTH_def Let_def split: prod.splits)
    with Conn_Call_same [OF q(1) h1(6,8)] show ?thesis by (auto split: option.splits)
  qed
  with h1 show ?thesis using same_pool_inv [OF _ h1(1)] by (auto simp: same_pool_def)
qed

text \<open>A dialled connection passes through the channel: counted as used, then pushed.\<close>

definition dialled :: "'w dev \<Rightarrow> nat \<Rightarrow> nat \<Rightarrow> 'w heap \<Rightarrow> 'w heap" where
  "dialled dev p i h =
     Pool_Push dev p (Some i)
       (upd_conn i (\<lambda>c. c\<lparr>c_isIdle := False\<rparr>)
          (upd_pool p (\<lambda>P. P\<lparr>p_ActiveNum := p_ActiveNum P + 1, p_CreateNum := p_CreateNum P + 1\<rparr>) h))"

lemma dialled_inv:
  assumes "pool_inv out p h" "\<not> p_MaxConnNum (h_pools h p) \<le> p_IdleNum (h_pools h p) + p_ActiveNum (h_pools h p)"
    and "Dial dev address password True (Some p) h = Ret (Inr i, h1)"
  shows "pool_inv out p (dialled dev p i h1) \<and> i = h_next h \<and> h_next h \<le> h_next (dialled dev p i h1)
     \<and> (\<forall>j < h_next h. c_isIdle (h_conns (dialled dev p i h1) j) = c_isIdle (h_conns h j))"
proof -
  note D = Dial_inv [OF assms(3,1)]
  let ?h2 = "upd_conn i (\<lambda>c. c\<lparr>c_isIdle := False\<rparr>)
          (upd_pool p (\<lambda>P. P\<lparr>p_ActiveNum := p_ActiveNum P + 1, p_CreateNum := p_CreateNum P + 1\<rparr>) h1)"
  have new: "i \<notin> out" "i \<notin> set (p_ClientPool (h_pools h1 p))"
    using D assms(1) unfolding pool_inv_def by fastforce+
  have "p_IdleNum (h_pools h1 p) = p_IdleNum (h_pools h p)"
    using D assms(1) by (simp add: pool_inv_def)
  then have "pool_inv (insert i out) p ?h2"
    using D new assms(2) by (auto simp: pool_inv_def)
  from Push_inv [OF this, of i dev] have "pool_inv out p (dialled dev p i h1)"
    using new D by (simp add: dialled_def)
  moreover have "h_next (dialled dev p i h1) = h_next h1"
    by (simp add: dialled_def Pool_Push_def Let_def)
  moreover have "c_isIdle (h_conns (dialled dev p i h1) j) = c_isIdle (h_conns h1 j)" if "j \<noteq> i" for j
    using that by (simp add: dialled_def Pool_Push_def Let_def)
  ultimately show ?thesis using D by simp
qed

text \<open>The result of \<open>Pop\<close>: a connection counted as used, or nil or a connection found dead.\<close>

definition dead :: "nat \<Rightarrow> nat option \<Rightarrow> 'w heap \<Rightarrow> bool" where
  "dead p oc h \<longleftrightarrow>
     (\<forall>i. oc = Some i \<longrightarrow> c_isIdle (h_conns h i) \<and> i < h_next h \<and> c_pool (h_conns h i) = Some p
          \<and> i \<notin> set (p_ClientPool (h_pools h p)))"

definition popped :: "nat set \<Rightarrow> nat \<Rightarrow> nat option \<Rightarrow> 'w heap \<Rightarrow> bool" where
  "popped out p r h \<longleftrightarrow>
     (\<exists>i. r = Some i \<and> i \<notin> out \<and> pool_inv (insert i out) p h \<and> c_err (h_conns h i) = None \<and> \<not> c_isOnce (h_conns h i))
     \<or> (pool_inv out p h \<and> dead p r h)"

lemma take_conn_inv:
  assumes "pool_inv out p h" "p_ClientPool (h_pools h p) = i # is"
    and "same_pool p (upd_pool p (\<lambda>P. P\<lparr>p_ClientPool := is\<rparr>) h) h2"
    and "c_err (h_conns h2 i) = None"
  shows "i \<notin> out \<and> pool_inv (insert i out) p (take_conn p i h2) \<and> c_err (h_conns (take_conn p i h2) i) = None
     \<and> \<not> c_isOnce (h_conns (take_conn p i h2) i)"
proof -
  have "i \<notin> out" "finite out" "i \<notin> set is" using assms(1,2) by (auto simp: pool_inv_def)
  moreover from this have "int (card (insert i out)) = int (card out) + 1" by simp
  ultimately show ?thesis
    using assms by (auto simp: pool_inv_def take_conn_def same_pool_def)
qed

lemma drop_conn_inv:
  assumes "pool_inv out p h" "p_ClientPool (h_pools h p) = i # is"
    and "same_pool p (upd_pool p (\<lambda>P. P\<lparr>p_ClientPool := is\<rparr>) h) h2"
  shows "pool_inv out p (upd_pool p (\<lambda>P. P\<lparr>p_IdleNum := p_IdleNum P - 1\<rparr>) (Conn_Close dev i h2))
     \<and> dead p (Some i) (upd_pool p (\<lambda>P. P\<lparr>p_IdleNum := p_IdleNum P - 1\<rparr>) (Conn_Close dev i h2))"
  using assms by (auto simp: pool_inv_def same_pool_def dead_def)

lemma IsAlive_same:
  "Conn_IsAlive dev i h = Ret (a, h') \<Longrightarrow> \<not> c_isOnce (h_conns h i) \<Longrightarrow> i \<notin> set (p_ClientPool (h_pools h p)) \<Longrightarrow> same_pool p h h'"
  by (auto simp: Conn_IsAlive_def dest: Conn_Call_same)

text \<open>
  What \<open>Pop\<close> leaves alone: connections that are neither idle nor new. The result is one of the idle
  connections, a new one, or the dead connection \<open>oc\<close> found before.
\<close>

lemma Pool_Push_touches: "j \<noteq> i \<Longrightarrow> h_conns (Pool_Push dev p (Some i) h) j = h_conns h j"
  by (simp add: Pool_Push_def Let_def)

lemma call_defer_touches: "j \<noteq> i \<Longrightarrow> h_conns (call_defer dev i command r h) j = h_conns h j"
  by (auto simp: call_defer_def Let_def Pool_Push_touches split: sum.splits option.splits)

lemma Conn_Call_touches:
  "Conn_Call dev i command args h = Ret (r, h') \<Longrightarrow> j \<noteq> i \<Longrightarrow> h_conns h' j = h_conns h j"
  by (auto simp: Conn_Call_def Let_def call_defer_touches split: option.splits elim!: exchange_cases)

lemma Dial_touches:
  "Dial dev address password keepAlive pool h = Ret (r, h') \<Longrightarrow> j < h_next h \<Longrightarrow> h_conns h' j = h_conns h j"
  by (auto simp: Dial_def alloc_conn_def Conn_AUTH_def Let_def split: prod.splits sum.splits if_splits
      dest!: Conn_Call_touches [where j = j])

lemma dialled_frame:
  "j \<noteq> i \<Longrightarrow> h_conns (dialled dev p i h) j = h_conns h j"
  "h_next (dialled dev p i h) = h_next h"
  "set (p_ClientPool (h_pools (dialled dev p i h) p)) \<subseteq> insert i (set (p_ClientPool (h_pools h p)))"
  by (auto simp: dialled_def Pool_Push_def Let_def)

definition pop_frame :: "nat \<Rightarrow> nat option \<Rightarrow> 'w heap \<Rightarrow> nat option \<Rightarrow> 'w heap \<Rightarrow> bool" where
  "pop_frame p oc h r h' \<longleftrightarrow>
     h_next h \<le> h_next h' \<and> set (p_ClientPool (h_pools h' p)) \<subseteq> set (p_ClientPool (h_pools h p)) \<union> {h_next h..}
     \<and> (\<forall>k. r = Some k \<longrightarrow> k \<in> set (p_ClientPool (h_pools h p)) \<or> h_next h \<le> k \<or> oc = Some k)
     \<and> (\<forall>j < h_next h. j \<notin> set (p_ClientPool (h_pools h p)) \<longrightarrow> h_conns h' j = h_conns h j)"

lemma pop_frame_step:
  assumes "pop_frame p oc1 h1 r h'" "h_next h \<le> h_next h1"
    and "set (p_ClientPool (h_pools h1 p)) \<subseteq> set (p_ClientPool (h_pools h p)) \<union> {h_next h..}"
    and "\<forall>k. oc1 = Some k \<longrightarrow> k \<in> set (p_ClientPool (h_pools h p)) \<or> h_next h \<le> k \<or> oc = Some k"
    and "\<forall>j < h_next h. j \<notin> set (p_ClientPool (h_pools h p)) \<longrightarrow> h_conns h1 j = h_conns h j"
  shows "pop_frame p oc h r h'"
  unfolding pop_frame_def
proof (intro conjI allI impI)
  show "h_next h \<le> h_next h'" using assms(1,2) by (simp add: pop_frame_def)
  show "set (p_ClientPool (h_pools h' p)) \<subseteq> set (p_ClientPool (h_pools h p)) \<union> {h_next h..}"
    using assms(1-3) unfolding pop_frame_def by fastforce
  show "k \<in> set (p_ClientPool (h_pools h p)) \<or> h_next h \<le> k \<or> oc = Some k" if "r = Some k" for k
    using that assms(1-4) unfolding pop_frame_def by fastforce
  show "h_conns h' j = h_conns h j" if "j < h_next h" "j \<notin> set (p_ClientPool (h_pools h p))" for j
  proof -
    have "j < h_next h1" "j \<notin> set (p_ClientPool (h_pools h1 p))" using that assms(2,3) by auto
    then have "h_conns h' j = h_conns h1 j" using assms(1) by (simp add: pop_frame_def)
    then show ?thesis using that assms(5) by simp
  qed
qed

lemma Conn_Call_no_err:
  "Conn_Call dev i command args h = Ret (Inr v, h') \<Longrightarrow> \<not> c_isOnce (h_conns h i) \<Longrightarrow> c_err (h_conns h i) = None
   \<Longrightarrow> c_err (h_conns h' i) = None"
  by (auto simp: Conn_Call_def call_defer_def Let_def io_only_def split: if_splits elim!: exchange_cases)

lemma Pop_loop_inv_aux:
  "Pop_loop dev p n oc h = Some g \<Longrightarrow> pool_inv out p h \<Longrightarrow> dead p oc h
   \<Longrightarrow> g = Ret (r, h') \<Longrightarrow> popped out p r h' \<and> pop_frame p oc h r h'"
proof (induction dev p n oc h g rule: Pop_loop.raw_induct [rotated, consumes 1])
  case (1 f dev p n oc h g)
  note IH = "1.IH" and body = "1.hyps" and inv = "1.prems"
  show ?case
  proof (cases "p_ClientPool (h_pools h p)")
    case (Cons i js)
    let ?h1 = "upd_pool p (\<lambda>P. P\<lparr>p_ClientPool := js\<rparr>) h"
    have i: "\<not> c_isOnce (h_conns ?h1 i)" "i \<notin> set (p_ClientPool (h_pools ?h1 p))" "c_err (h_conns ?h1 i) = None"
      using inv(1) Cons by (auto simp: pool_inv_def)
    show ?thesis
    proof (cases "p_MaxIdleSeconds (h_pools h p) < d_unix dev (h_net h) - c_lastActiveTime (h_conns h i)")
      case True
      then obtain alive h2 where al: "Conn_IsAlive dev i ?h1 = Ret (alive, h2)"
        using body Cons inv(3) by (auto split: go.splits)
      note same = IsAlive_same [OF al i(1,2)]
      show ?thesis
      proof (cases alive)
        case True
        with body Cons al inv(3) \<open>p_MaxIdleSeconds _ < _\<close> have "r = Some i" "h' = take_conn p i h2" by auto
        moreover have "pop_frame p oc h (Some i) (take_conn p i h2)"
          using same Conn_Call_touches al Cons
          by (fastforce simp: pop_frame_def take_conn_def same_pool_def Conn_IsAlive_def)
        moreover have "c_err (h_conns h2 i) = None"
          using al True Conn_Call_no_err [OF _ i(1,3)] by (auto simp: Conn_IsAlive_def)
        ultimately show ?thesis using take_conn_inv [OF inv(1) Cons same] by (simp add: popped_def)
      next
        case False
        let ?h3 = "upd_pool p (\<lambda>P. P\<lparr>p_IdleNum := p_IdleNum P - 1\<rparr>) (Conn_Close dev i h2)"
        have "f dev p n (Some i) ?h3 = Some g"
          using body Cons al False \<open>p_MaxIdleSeconds _ < _\<close> by simp
        with IH drop_conn_inv [OF inv(1) Cons same, of dev] inv(3)
        have "popped out p r h'" and fr: "pop_frame p (Some i) ?h3 r h'" by simp_all
        moreover have "pop_frame p oc h r h'"
          using same Conn_Call_touches al Cons
          by (intro pop_frame_step [OF fr]) (fastforce simp: same_pool_def Conn_IsAlive_def)+
        ultimately show ?thesis by simp
      qed
    next
      case False
      with body Cons inv(3) have "r = Some i" "h' = take_conn p i ?h1" by auto
      with take_conn_inv [OF inv(1) Cons same_pool_refl i(3)] Cons show ?thesis
        by (auto simp: popped_def pop_frame_def take_conn_def)
    qed
  next
    case Nil
    show ?thesis
    proof (cases "p_MaxConnNum (h_pools h p) \<le> p_IdleNum (h_pools h p) + p_ActiveNum (h_pools h p)")
      case True
      show ?thesis
      proof (cases n)
        case 0
        with body Nil True inv(3) have "r = oc" "h' = upd_pool p (\<lambda>P. P\<lparr>p_WaitTimeoutNum := p_WaitTimeoutNum P + 1\<rparr>) h"
          by auto
        then show ?thesis using inv(1,2) by (simp add: popped_def pool_inv_def pop_frame_def dead_def)
      next
        case (Suc m)
        with body Nil True have "f dev p m oc (h\<lparr>h_net := d_sleep dev (h_net h)\<rparr>) = Some g" by simp
        from IH [OF this] inv show ?thesis
          using same_pool_inv [OF same_pool_net(1) inv(1)] by (simp add: pop_frame_def dead_def)
      qed
    next
      case False
      let ?D = "Dial dev (p_Address (h_pools h p)) (p_Password (h_pools h p)) True (Some p) h"
      obtain q h1 where D: "?D = Ret (q, h1)" using body Nil False inv(3) by (auto split: go.splits)
      show ?thesis
      proof (cases q)
        case (Inl e)
        with body Nil False D inv(3) have "r = oc" "h' = upd_pool p (\<lambda>P. P\<lparr>p_CreateFailedNum := p_CreateFailedNum P + 1\<rparr>) h1"
          by auto
        then show ?thesis using Dial_inv [OF D inv(1)] inv(2) Dial_touches [OF D]
          by (auto simp: popped_def pool_inv_def pop_frame_def dead_def)
      next
        case (Inr i)
        with body Nil False D have "f dev p n oc (dialled dev p i h1) = Some g" by (simp add: dialled_def)
        moreover have "dead p oc (dialled dev p i h1)"
          using Dial_inv [OF D inv(1)] Dial_touches [OF D] Inr inv(2) dialled_frame(3) [of dev p i h1] Nil
          by (auto simp: dead_def dialled_frame)
        ultimately have "popped out p r h'" and fr: "pop_frame p oc (dialled dev p i h1) r h'"
          using IH dialled_inv [OF inv(1) False, of dev _ _ i h1] D Inr inv(3) by blast+
        moreover have "pop_frame p oc h r h'"
          using Dial_inv [OF D inv(1)] Dial_touches [OF D] Inr dialled_frame(3) [of dev p i h1]
          by (intro pop_frame_step [OF fr]) (auto simp: dialled_frame)
        ultimately show ?thesis by simp
      qed
    qed
  qed
qed

lemma Pool_Pop_inv:
  "Pool_Pop dev p h = Some (Ret (r, h')) \<Longrightarrow> pool_inv out p h \<Longrightarrow> popped out p r h' \<and> pop_frame p None h r h'"
  unfolding Pool_Pop_def by (erule Pop_loop_inv_aux) (simp_all add: dead_def)

subsection \<open>A call over a once connection leaks nothing\<close>

text \<open>
  \<open>held out p i h\<close>: a caller holds connection \<open>i\<close> beside the used connections \<open>out\<close>; either it is counted
  as used, or it is a connection found dead, which is marked idle and in no pool.
\<close>

definition held :: "nat set \<Rightarrow> nat \<Rightarrow> nat \<Rightarrow> 'w heap \<Rightarrow> bool" where
  "held out p i h \<longleftrightarrow>
     i \<notin> out \<and> i < h_next h \<and> c_pool (h_conns h i) = Some p \<and> i \<notin> set (p_ClientPool (h_pools h p))
     \<and> (pool_inv (insert i out) p h \<or> (pool_inv out p h \<and> c_isIdle (h_conns h i)))"

text \<open>After the call of a once connection: back in the pool, or thrown away with its error.\<close>

definition given_back :: "nat set \<Rightarrow> nat \<Rightarrow> nat \<Rightarrow> 'w heap \<Rightarrow> bool" where
  "given_back out p i h \<longleftrightarrow>
     pool_inv out p h \<and> i \<notin> out \<and> i < h_next h \<and> c_pool (h_conns h i) = Some p
     \<and> (c_err (h_conns h i) \<noteq> None \<longrightarrow> i \<notin> set (p_ClientPool (h_pools h p)))"

lemma Pool_Push_held:
  assumes "held out p i h" "\<not> c_isOnce (h_conns h i)"
  shows "given_back out p i (Pool_Push dev p (Some i) h)"
proof (cases "c_isIdle (h_conns h i)")
  case True
  then have "pool_inv out p h" using assms(1) by (auto simp: held_def pool_inv_def)
  then show ?thesis using True assms(1) by (simp add: given_back_def held_def)
next
  case False
  then have "pool_inv (insert i out) p h" using assms(1) by (auto simp: held_def)
  from Push_inv [OF this _ assms(2), of dev] have "pool_inv out p (Pool_Push dev p (Some i) h)"
    using assms(1) by (simp add: held_def)
  moreover have "h_next (Pool_Push dev p (Some i) h) = h_next h"
    "c_pool (h_conns (Pool_Push dev p (Some i) h) i) = c_pool (h_conns h i)"
    "c_err (h_conns (Pool_Push dev p (Some i) h) i) = c_err (h_conns h i)"
    "c_err (h_conns h i) \<noteq> None \<Longrightarrow> p_ClientPool (h_pools (Pool_Push dev p (Some i) h) p) = p_ClientPool (h_pools h p)"
    by (simp_all add: Pool_Push_def Let_def)
  ultimately show ?thesis using assms(1) by (auto simp: given_back_def held_def)
qed

lemma held_same: "same_pool p h h' \<Longrightarrow> held out p i h \<Longrightarrow> held out p i h'"
  unfolding held_def using same_pool_inv [of p h h'] by (auto simp: same_pool_def)

lemma held_once_off: "held out p i h \<Longrightarrow> held out p i (upd_conn i (\<lambda>c. c\<lparr>c_isOnce := b\<rparr>) h)"
  by (auto simp: held_def pool_inv_def)

lemma Conn_Call_given_back:
  assumes "Conn_Call dev i command args h = Ret (r, h')" "c_isOnce (h_conns h i)" "c_err (h_conns h i) = None"
    and "held out p i h"
  shows "given_back out p i h'"
proof -
  define h1 where "h1 = upd_opool (c_pool (h_conns h i)) (\<lambda>P. P\<lparr>p_CallNum := p_CallNum P + 1\<rparr>)
    (upd_conn i (\<lambda>c. c\<lparr>c_lastActiveTime := d_unix dev (h_net h)\<rparr>) h)"
  obtain h2 where h2: "exchange dev i command args h1 = Ret (r, h2)" "h' = call_defer dev i command r h2"
    using assms(1,3) by (auto simp: Conn_Call_def h1_def Let_def)
  have "same_pool p h h1" by (auto simp: same_pool_def h1_def upd_opool_def split: option.splits)
  then have s: "same_pool p h h2" using exchange_same [OF h2(1)] same_pool_trans by blast
  have held: "held out p i h2" using s assms(4) by (rule held_same)
  have once: "c_isOnce (h_conns h2 i)" using s assms(2) by (simp add: same_pool_def)
  define h3 where "h3 = (case r of Inl e \<Rightarrow>
      if is_common e then h2
      else upd_conn i (\<lambda>c. c\<lparr>c_err := Some e\<rparr>)
             (upd_opool (Some p) (\<lambda>P. if command \<noteq> ''PING'' then P\<lparr>p_CallNetErrNum := p_CallNetErrNum P + 1\<rparr>
                     else P\<lparr>p_PingErrNum := p_PingErrNum P + 1\<rparr>) h2)
    | Inr _ \<Rightarrow> h2)"
  have "same_pool p h2 h3" using held by (auto simp: h3_def held_def same_pool_def upd_opool_def split: sum.splits)
  then have "held out p i (upd_conn i (\<lambda>c. c\<lparr>c_isOnce := False\<rparr>) h3)" (is "held _ _ _ ?h4")
    using held_same [OF _ held] held_once_off by blast
  moreover have "h' = Pool_Push dev p (Some i) ?h4"
    using h2(2) once held by (auto simp: call_defer_def h3_def upd_opool_def Let_def held_def split: sum.splits)
  ultimately show ?thesis using Pool_Push_held [of out p i ?h4 dev] by simp
qed

text \<open>\<open>Copy\<close> makes the caller's connection \<open>i\<close> stand for the connection \<open>k\<close> just taken from the pool.\<close>

lemma Copy_counted:
  assumes "pool_inv (insert k out) p h" "k \<notin> out" "i \<notin> out" "i < h_next h" "i \<notin> set (p_ClientPool (h_pools h p))"
  shows "held out p i (upd_conn i (\<lambda>c. c\<lparr>c_isOnce := b\<rparr>) (Conn_Copy i k h))"
proof -
  have "finite out" using assms(1) by (simp add: pool_inv_def)
  then have "card (insert i out) = card (insert k out)" using assms(2,3) by simp
  then have "pool_inv (insert i out) p (upd_conn i (\<lambda>c. c\<lparr>c_isOnce := b\<rparr>) (Conn_Copy i k h))"
    using assms by (auto simp: pool_inv_def Conn_Copy_def)
  moreover have "c_pool (h_conns h k) = Some p" using assms(1) by (simp add: pool_inv_def)
  ultimately show ?thesis using assms(3-5) by (simp add: held_def Conn_Copy_def)
qed

lemma Copy_dead:
  assumes "pool_inv out p h" "dead p (Some k) h" "i \<notin> out" "i < h_next h" "i \<notin> set (p_ClientPool (h_pools h p))"
  shows "held out p i (upd_conn i (\<lambda>c. c\<lparr>c_isOnce := b\<rparr>) (Conn_Copy i k h))"
proof -
  have "pool_inv out p (upd_conn i (\<lambda>c. c\<lparr>c_isOnce := b\<rparr>) (Conn_Copy i k h))"
    using assms by (auto simp: pool_inv_def Conn_Copy_def)
  then show ?thesis using assms(2-5) by (simp add: held_def Conn_Copy_def dead_def)
qed

lemma CallN_once_inv:
  assumes "held out p i h" "c_isOnce (h_conns h i)" "c_err (h_conns h i) = None"
    and "CallN_loop dev i True command args n h = Some (Ret (r, h'))" "0 < n"
  shows "pool_inv out p h'"
  using assms
proof (induction n arbitrary: h)
  case (Suc n)
  obtain q h1 where c: "Conn_Call dev i command args h = Ret (q, h1)"
    using Suc.prems(4) by (auto split: go.splits)
  note gb = Conn_Call_given_back [OF c Suc.prems(2,3,1)]
  show ?case
  proof (cases "c_err (h_conns h1 i) = None \<or> n = 0")
    case True
    then have "h' = h1" using Suc.prems(4) c by (auto split: option.splits)
    then show ?thesis using gb by (simp add: given_back_def)
  next
    case False
    then have pool: "c_pool (h_conns h1 i) = Some p" "i \<notin> set (p_ClientPool (h_pools h1 p))" "i < h_next h1" "i \<notin> out"
      and inv: "pool_inv out p h1"
      using gb by (auto simp: given_back_def)
    obtain oc h3 where pop: "Pool_Pop dev p h1 = Some (Ret (oc, h3))"
      using Suc.prems(4) c False pool(1) by (auto split: option.splits go.splits)
    from Pool_Pop_inv [OF pop inv] have P: "popped out p oc h3" and F: "pop_frame p None h1 oc h3" by simp_all
    show ?thesis
    proof (cases oc)
      case None
      then show ?thesis using P Suc.prems(4) c False pool(1) pop by (auto simp: popped_def)
    next
      case (Some k)
      define h4 where "h4 = upd_conn i (\<lambda>c. c\<lparr>c_isOnce := True\<rparr>) (Conn_Copy i k h3)"
      have rec: "CallN_loop dev i True command args n h4 = Some (Ret (r, h'))"
        using Suc.prems(4) c False pool(1) pop Some by (auto simp: h4_def)
      have k: "i < h_next h3" "i \<notin> set (p_ClientPool (h_pools h3 p))"
        using F pool(2,3) by (auto simp: pop_frame_def)
      have "held out p i h4"
        using P Some k pool(4) Copy_counted [of k out p h3 i] Copy_dead [of out p h3 k i]
        unfolding h4_def popped_def by blast
      moreover have "c_isOnce (h_conns h4 i)" "c_err (h_conns h4 i) = None" by (simp_all add: h4_def Conn_Copy_def)
      ultimately show ?thesis using Suc.IH rec False by simp
    qed
  qed
qed simp

text \<open>
  However the call ends (success, a server error, a network error on every attempt, a pool at its
  limit), the connections in use afterwards are those in use before.
\<close>

lemma alloc_conn_inv: "pool_inv out p h \<Longrightarrow> pool_inv out p (snd (alloc_conn c h))"
  by (auto simp: alloc_conn_def pool_inv_def)

lemma Once_held:
  assumes "Once dev addr (mp, h) = Some (Ret (i, mp', h'))" "map_of (mp_pools mp) addr = Some p" "pool_inv out p h"
  shows "mp' = mp \<and>
    ((c_err (h_conns h' i) \<noteq> None \<and> pool_inv out p h')
     \<or> (c_err (h_conns h' i) = None \<and> c_isOnce (h_conns h' i) \<and> held out p i h'))"
proof -
  obtain oc h1 where pop: "Pool_Pop dev p h = Some (Ret (oc, h1))"
    using assms(1,2) by (auto simp: Once_def PopByAddr_def AddPool_def split: option.splits go.splits)
  from Pool_Pop_inv [OF pop assms(3)] have P: "popped out p oc h1" by simp
  show ?thesis
  proof (cases oc)
    case None
    then have "pool_inv out p h1" using P by (simp add: popped_def)
    then have "pool_inv out p (snd (alloc_conn c h1))" for c by (rule alloc_conn_inv)
    moreover have "h' = snd (alloc_conn ((new_Conn [] None False None 0)
        \<lparr>c_isIdle := False, c_err := Some (PlainErr (''get a nil conn address='' @ addr))\<rparr>) h1)" "i = h_next h1" "mp' = mp"
      using assms(1,2) pop None by (auto simp: Once_def PopByAddr_def AddPool_def alloc_conn_def)
    moreover have "c_err (h_conns h' i) \<noteq> None" using calculation(2,3) by (simp add: alloc_conn_def)
    ultimately show ?thesis by simp
  next
    case (Some k)
    then have h': "i = k" "mp' = mp" "h' = upd_conn k (\<lambda>c. c\<lparr>c_isOnce := True\<rparr>) h1"
      using assms(1,2) pop by (auto simp: Once_def PopByAddr_def AddPool_def)
    show ?thesis
    proof (cases "k \<notin> out \<and> pool_inv (insert k out) p h1 \<and> c_err (h_conns h1 k) = None")
      case True
      then have "held out p k h1" by (auto simp: held_def pool_inv_def)
      then show ?thesis using True h' held_once_off [of out p k h1 True] by simp
    next
      case False
      then have d: "pool_inv out p h1" "dead p (Some k) h1" using P Some by (auto simp: popped_def)
      then have "k \<notin> out" by (auto simp: pool_inv_def dead_def)
      then have "held out p k h1" using d by (simp add: held_def dead_def)
      moreover have "pool_inv out p h'" using d h' \<open>k \<notin> out\<close> by (auto simp: pool_inv_def dead_def)
      ultimately show ?thesis using h' held_once_off [of out p k h1 True] by auto
    qed
  qed
qed

lemma once_call_inv:
  assumes "once_call dev addr command args (mp, h) = Some (Ret (r, mp', h'))"
    and "map_of (mp_pools mp) addr = Some p" "pool_inv out p h"
  shows "mp' = mp \<and> pool_inv out p h'"
proof -
  obtain i h1 where o: "Once dev addr (mp, h) = Some (Ret (i, mp', h1))"
    "Conn_CallN dev RetryTimes_redis i command args h1 = Some (Ret (r, h'))"
    using assms(1) by (auto simp: once_call_def split: option.splits go.splits)
  from Once_held [OF o(1) assms(2,3)] show ?thesis
  proof (elim conjE disjE)
    assume "c_err (h_conns h1 i) = None" "c_isOnce (h_conns h1 i)" "held out p i h1" "mp' = mp"
    then show ?thesis
      using CallN_once_inv [of out p i h1 dev command args RetryTimes_redis r h'] o(2)
      by (simp add: Conn_CallN_def RetryTimes_redis_def)
  next
    assume "c_err (h_conns h1 i) \<noteq> None" "pool_inv out p h1" "mp' = mp"
    then show ?thesis using o(2) by (auto simp: Conn_CallN_def)
  qed
qed

subsection \<open>Pop returns\<close>

text \<open>
  The one way \<open>Pop\<close> runs forever is a server whose new connections are stale at once. \<open>prompt\<close>: a
  connection that has just been dialled and authenticated is not older than the idle limit.
\<close>

definition prompt :: "'w dev \<Rightarrow> nat \<Rightarrow> int \<Rightarrow> bool" where
  "prompt dev p limit \<longleftrightarrow>
     (\<forall>address password h i h'. Dial dev address password True (Some p) h = Ret (Inr i, h') \<longrightarrow>
        d_unix dev (h_net h') - c_lastActiveTime (h_conns h' i) \<le> limit)"

lemma Dial_auth:
  assumes "d_dial dev address (h_net h) = (Inr s, w)" "password \<noteq> []"
    and "h1 = snd (alloc_conn (new_Conn (address @ '':'' @ password) (Some s) keepAlive pool (d_unix dev w)) (h\<lparr>h_net := w\<rparr>))"
  shows "Dial dev address password keepAlive pool h =
     go_bind (Conn_Call dev (h_next h) ''AUTH'' [AStr password] h1)
       (\<lambda>(q, h2). Ret (case snd (auth_reply q) of Some e \<Rightarrow> Inl e | None \<Rightarrow> Inr (h_next h), h2))"
  using assms
  by (cases "Conn_Call dev (h_next h) ''AUTH'' [AStr password] h1")
     (simp_all add: Dial_def alloc_conn_def Conn_AUTH_def case_prod_beta split: option.splits)

lemma Dial_no_err:
  assumes "Dial dev address password keepAlive pool h = Ret (Inr i, h')"
  shows "c_err (h_conns h' i) = None"
proof (cases "password = []")
  case True
  then show ?thesis using assms
    by (auto simp: Dial_def alloc_conn_def new_Conn_def split: prod.splits sum.splits)
next
  case False
  obtain s w where d: "d_dial dev address (h_net h) = (Inr s, w)"
    using assms by (auto simp: Dial_def split: prod.splits sum.splits)
  define h1 where "h1 = snd (alloc_conn (new_Conn (address @ '':'' @ password) (Some s) keepAlive pool (d_unix dev w)) (h\<lparr>h_net := w\<rparr>))"
  obtain q where q: "Conn_Call dev (h_next h) ''AUTH'' [AStr password] h1 = Ret (q, h')" "snd (auth_reply q) = None" "i = h_next h"
    using assms Dial_auth [OF d False h1_def] by (auto split: option.splits)
  obtain v where "q = Inr v" using q(2) by (cases q) (auto simp: auth_reply_def)
  moreover have "\<not> c_isOnce (h_conns h1 (h_next h))" "c_err (h_conns h1 (h_next h)) = None"
    by (simp_all add: h1_def alloc_conn_def new_Conn_def)
  ultimately show ?thesis using Conn_Call_no_err [of dev "h_next h" "''AUTH''" "[AStr password]" h1 v h'] q(1,3) by simp
qed

text \<open>The round after a successful dial takes the new connection.\<close>

lemma Pop_loop_dialled:
  assumes "pool_inv out p h" "p_ClientPool (h_pools h p) = []" "0 \<le> p_MaxIdleNum (h_pools h p)"
    and "\<not> p_MaxConnNum (h_pools h p) \<le> p_IdleNum (h_pools h p) + p_ActiveNum (h_pools h p)"
    and D: "Dial dev address password True (Some p) h = Ret (Inr i, h1)"
    and "prompt dev p (p_MaxIdleSeconds (h_pools h p))"
  shows "\<exists>g. Pop_loop dev p n oc (dialled dev p i h1) = Some g"
proof -
  note inv = Dial_inv [OF D assms(1)]
  have "p_IdleNum (h_pools h1 p) = 0" using inv assms(2) by (simp add: pool_inv_def)
  moreover have "0 < p_MaxConnNum (h_pools h1 p)"
    using assms(1,2,4) inv by (simp add: pool_inv_def)
  ultimately have cp: "p_ClientPool (h_pools (dialled dev p i h1) p) = [i]"
    and "h_net (dialled dev p i h1) = h_net h1"
    "c_lastActiveTime (h_conns (dialled dev p i h1) i) = c_lastActiveTime (h_conns h1 i)"
    "p_MaxIdleSeconds (h_pools (dialled dev p i h1) p) = p_MaxIdleSeconds (h_pools h p)"
    using inv assms(2,3) Dial_no_err [OF D] by (simp_all add: dialled_def Pool_Push_def Let_def)
  moreover have "d_unix dev (h_net h1) - c_lastActiveTime (h_conns h1 i) \<le> p_MaxIdleSeconds (h_pools h p)"
    using assms(6) D unfolding prompt_def by blast
  ultimately show ?thesis by (subst Pop_loop.simps) simp
qed

lemma Pop_loop_returns:
  assumes "pool_inv out p h" "0 \<le> p_MaxIdleNum (h_pools h p)" "prompt dev p (p_MaxIdleSeconds (h_pools h p))"
  shows "\<exists>g. Pop_loop dev p n oc h = Some g"
  using assms
proof (induction "n + length (p_ClientPool (h_pools h p))" arbitrary: n oc h rule: less_induct)
  case less
  show ?case
  proof (cases "p_ClientPool (h_pools h p)")
    case (Cons i js)
    let ?h1 = "upd_pool p (\<lambda>P. P\<lparr>p_ClientPool := js\<rparr>) h"
    have i: "\<not> c_isOnce (h_conns ?h1 i)" "i \<notin> set (p_ClientPool (h_pools ?h1 p))"
      using less.prems(1) Cons by (auto simp: pool_inv_def)
    have "\<exists>g. Pop_loop dev p n (Some i) (upd_pool p (\<lambda>P. P\<lparr>p_IdleNum := p_IdleNum P - 1\<rparr>) (Conn_Close dev i h2)) = Some g"
      if "Conn_IsAlive dev i ?h1 = Ret (alive, h2)" for alive h2
    proof -
      note same = IsAlive_same [OF that i]
      have "pool_inv out p (upd_pool p (\<lambda>P. P\<lparr>p_IdleNum := p_IdleNum P - 1\<rparr>) (Conn_Close dev i h2))"
        using drop_conn_inv [OF less.prems(1) Cons same] by simp
      then show ?thesis using less.hyps less.prems(2,3) same Cons by (simp add: same_pool_def)
    qed
    then show ?thesis using Cons by (subst Pop_loop.simps) (auto simp: Let_def split: go.splits)
  next
    case Nil
    show ?thesis
    proof (cases "p_MaxConnNum (h_pools h p) \<le> p_IdleNum (h_pools h p) + p_ActiveNum (h_pools h p)")
      case True
      have "\<exists>g. Pop_loop dev p m oc (h\<lparr>h_net := d_sleep dev (h_net h)\<rparr>) = Some g" if "n = Suc m" for m
        using less.hyps [of m] less.prems that same_pool_inv [OF same_pool_net(1) less.prems(1)] by simp
      then show ?thesis using True Nil by (subst Pop_loop.simps) (auto split: nat.splits)
    next
      case False
      note new = Pop_loop_dialled [OF less.prems(1) Nil less.prems(2) False _ less.prems(3), of _ _ _ _ n oc]
      show ?thesis using False Nil new
        by (subst Pop_loop.simps) (auto simp: dialled_def [symmetric] split: go.splits sum.splits)
    qed
  qed
qed

end
