(* ===== verification/PooledRedis.thy ===== *)
theory PooledRedis
  imports MemRedis RedisPool
begin

text \<open>
  The pooled client against a Redis server. The server answers every flushed request on the socket it
  came from; its commands are a function \<open>exec\<close> on the server's state. A command sent through
  \<open>MultiPool.Call(address)\<close> then has the effect and the answer of \<open>exec\<close>, and leaves the pool ready
  for the next one: this is the interface of a command call that the storage, the error collection
  and the task log are built on.
\<close>

subsection \<open>A server on the network\<close>

record 'w srv =
  sv_state :: 'w
  sv_pending :: "nat \<Rightarrow> string" \<comment> \<open>bytes sent to a socket and not yet received\<close>
  sv_socks :: nat
  sv_time :: int

definition server_dev :: "(string \<Rightarrow> arg list \<Rightarrow> 'w \<Rightarrow> (redis_err + reply) \<times> 'w) \<Rightarrow> 'w srv dev" where
  "server_dev exec =
     \<lparr>d_dial = (\<lambda>a w. (Inr (sv_socks w), w\<lparr>sv_socks := Suc (sv_socks w), sv_pending := (sv_pending w)(sv_socks w := [])\<rparr>)),
      d_write = (\<lambda>s bytes w.
        let (out, st) = serve_bytes exec bytes (sv_state w)
        in (None, w\<lparr>sv_state := st, sv_pending := (sv_pending w)(s := sv_pending w s @ out)\<rparr>)),
      d_read = (\<lambda>s w. (sv_pending w s, w\<lparr>sv_pending := (sv_pending w)(s := [])\<rparr>)),
      d_close = (\<lambda>s w. w),
      d_unix = sv_time,
      d_sleep = (\<lambda>w. w\<lparr>sv_time := sv_time w + 1\<rparr>)\<rparr>"

text \<open>What the client reads when the server answers: the reply, or a server error.\<close>

definition answers ::
  "(string \<Rightarrow> arg list \<Rightarrow> 'w \<Rightarrow> (redis_err + reply) \<times> 'w) \<Rightarrow> string \<Rightarrow> arg list \<Rightarrow> 'w \<Rightarrow> redis_err + reply \<Rightarrow> 'w \<Rightarrow> bool" where
  "answers exec cmd args st x st' \<longleftrightarrow>
     (\<exists>req bytes. writeRequest cmd args = Ret req \<and> serve_bytes exec req st = (bytes, st')
        \<and> readResponse bytes = (Ret x, []) \<and> (\<forall>e. x = Inl e \<longrightarrow> is_common e))"

lemma answers_ok:
  assumes "small_request cmd args"
    and "exec cmd (map (\<lambda>a. AStr (arg_text a)) args) st = (Inr r, st')" "wf_reply r"
  shows "answers exec cmd args st (Inr r) st'"
proof -
  obtain req where req: "writeRequest cmd args = Ret req"
    "readResponse req = (Ret (Inr (RArr (RBytes cmd # map (\<lambda>a. RBytes (arg_text a)) args))), [])"
    using request_read_back [OF assms(1), of "[]"] by (auto simp: comp_def)
  have "serve_bytes exec req st = (resp_encode r, st')"
    using assms(2) req(2) by (simp add: serve_bytes_def comp_def)
  then show ?thesis using req(1) readResponse_encode [OF assms(3), of "[]"] by (auto simp: answers_def)
qed

lemma answers_err:
  assumes "small_request cmd args"
    and "exec cmd (map (\<lambda>a. AStr (arg_text a)) args) st = (Inl (CommonErr t), st')" "LF \<notin> set t"
  shows "answers exec cmd args st (Inl (CommonErr t)) st'"
proof -
  obtain req where req: "writeRequest cmd args = Ret req"
    "readResponse req = (Ret (Inr (RArr (RBytes cmd # map (\<lambda>a. RBytes (arg_text a)) args))), [])"
    using request_read_back [OF assms(1), of "[]"] by (auto simp: comp_def)
  have "serve_bytes exec req st = (CHR ''-'' # t @ CRLF, st')"
    using assms(2) req(2) by (simp add: serve_bytes_def comp_def)
  then show ?thesis using req(1) readResponse_error [OF assms(3), of "[]"] by (auto simp: answers_def is_common_def)
qed

subsection \<open>Calls on a clean connection\<close>

definition clean :: "Conn \<Rightarrow> 'w srv \<Rightarrow> bool" where
  "clean c w \<longleftrightarrow> c_rb c = [] \<and> c_wb c = [] \<and> c_werr c = None \<and> c_err c = None
     \<and> (\<exists>s. c_conn c = Some s \<and> s < sv_socks w \<and> sv_pending w s = [])"

lemma server_exchange:
  assumes "answers exec cmd args (sv_state (h_net h)) x st'" "clean (h_conns h i) (h_net h)"
  shows "\<exists>h'. exchange (server_dev exec) i cmd args h = Ret (x, h')
     \<and> h_net h' = (h_net h)\<lparr>sv_state := st'\<rparr> \<and> h_conns h' = h_conns h \<and> h_pools h' = h_pools h \<and> h_next h' = h_next h"
proof -
  obtain req bytes where a: "writeRequest cmd args = Ret req" "serve_bytes exec req (sv_state (h_net h)) = (bytes, st')"
    "readResponse bytes = (Ret x, [])"
    using assms(1) by (auto simp: answers_def)
  obtain s where s: "c_conn (h_conns h i) = Some s" "sv_pending (h_net h) s = []"
    using assms(2) by (auto simp: clean_def)
  have upd: "(sv_pending (h_net h))(s := []) = sv_pending (h_net h)" using s(2) by (simp add: fun_upd_idem)
  show ?thesis using a s assms(2) upd
    by (simp add: exchange_def server_dev_def clean_def upd_conn_def fun_upd_idem)
qed

text \<open>A pool ready for work: idle connections are clean and not stale, and the pool keeps idle connections.\<close>

definition ready :: "nat \<Rightarrow> 'w srv heap \<Rightarrow> bool" where
  "ready p h \<longleftrightarrow>
     0 \<le> p_MaxIdleNum (h_pools h p) \<and> 0 \<le> p_MaxIdleSeconds (h_pools h p) \<and> p_Password (h_pools h p) = []
     \<and> (\<forall>i \<in> set (p_ClientPool (h_pools h p)). clean (h_conns h i) (h_net h)
          \<and> sv_time (h_net h) - c_lastActiveTime (h_conns h i) \<le> p_MaxIdleSeconds (h_pools h p))"

lemma Pop_first:
  assumes "p_ClientPool (h_pools h p) = i # js"
    and "\<not> p_MaxIdleSeconds (h_pools h p) < d_unix dev (h_net h) - c_lastActiveTime (h_conns h i)"
  shows "Pop_loop dev p n oc h = Some (Ret (Some i, take_conn p i (upd_pool p (\<lambda>P. P\<lparr>p_ClientPool := js\<rparr>) h)))"
  using assms by (subst Pop_loop.simps) simp

lemma ready_dial:
  assumes "pool_inv out p h" "ready p h" "p_ClientPool (h_pools h p) = []" "int (card out) < p_MaxConnNum (h_pools h p)"
  shows "\<exists>h1. Pop_loop (server_dev exec) p n None h = Pop_loop (server_dev exec) p n None h1
     \<and> p_ClientPool (h_pools h1 p) = [h_next h] \<and> ready p h1 \<and> sv_state (h_net h1) = sv_state (h_net h)"
proof -
  let ?w = "snd (d_dial (server_dev exec) (p_Address (h_pools h p)) (h_net h))"
  define h0 where "h0 = snd (alloc_conn (new_Conn (p_Address (h_pools h p)) (Some (sv_socks (h_net h))) True (Some p)
      (sv_time (h_net h))) (h\<lparr>h_net := ?w\<rparr>))"
  have D: "Dial (server_dev exec) (p_Address (h_pools h p)) (p_Password (h_pools h p)) True (Some p) h = Ret (Inr (h_next h), h0)"
    using assms(2) by (simp add: Dial_def ready_def h0_def server_dev_def alloc_conn_def)
  have idle: "p_IdleNum (h_pools h p) = 0" "p_ActiveNum (h_pools h p) = int (card out)"
    using assms(1,3) by (simp_all add: pool_inv_def)
  have "Pop_loop (server_dev exec) p n None h = Pop_loop (server_dev exec) p n None (dialled (server_dev exec) p (h_next h) h0)"
    using D assms(3,4) idle by (subst Pop_loop.simps) (simp add: dialled_def)
  moreover have "p_ClientPool (h_pools (dialled (server_dev exec) p (h_next h) h0) p) = [h_next h]"
    "ready p (dialled (server_dev exec) p (h_next h) h0)"
    "sv_state (h_net (dialled (server_dev exec) p (h_next h) h0)) = sv_state (h_net h)"
    using assms idle
    by (simp_all add: dialled_def Pool_Push_def h0_def alloc_conn_def new_Conn_def server_dev_def ready_def clean_def)
  ultimately show ?thesis by blast
qed

lemma ready_pop:
  assumes "pool_inv out p h" "ready p h" "int (card out) < p_MaxConnNum (h_pools h p)"
  shows "\<exists>i h'. Pool_Pop (server_dev exec) p h = Some (Ret (Some i, h')) \<and> \<not> c_isIdle (h_conns h' i)
     \<and> clean (h_conns h' i) (h_net h') \<and> ready p h' \<and> sv_state (h_net h') = sv_state (h_net h)"
proof -
  obtain i js h1 where h1: "Pool_Pop (server_dev exec) p h = Pop_loop (server_dev exec) p DefaultMaxConnsWaitTimes None h1"
    "p_ClientPool (h_pools h1 p) = i # js" "ready p h1" "sv_state (h_net h1) = sv_state (h_net h)"
    "i \<notin> set js"
  proof (cases "p_ClientPool (h_pools h p)")
    case Nil
    from ready_dial [OF assms(1,2) Nil assms(3)] that show ?thesis by (fastforce simp: Pool_Pop_def)
  next
    case (Cons i js)
    moreover have "distinct (i # js)" using assms(1) Cons by (simp add: pool_inv_def)
    ultimately show ?thesis using that [of h i js] assms(2) by (simp add: Pool_Pop_def)
  qed
  have fresh: "\<not> p_MaxIdleSeconds (h_pools h1 p) < d_unix (server_dev exec) (h_net h1) - c_lastActiveTime (h_conns h1 i)"
    using h1(2,3) by (simp add: ready_def server_dev_def)
  let ?h' = "take_conn p i (upd_pool p (\<lambda>P. P\<lparr>p_ClientPool := js\<rparr>) h1)"
  have "Pool_Pop (server_dev exec) p h = Some (Ret (Some i, ?h'))" using Pop_first [OF h1(2) fresh] h1(1) by simp
  moreover have "\<not> c_isIdle (h_conns ?h' i)" "clean (h_conns ?h' i) (h_net ?h')" "ready p ?h'"
    "sv_state (h_net ?h') = sv_state (h_net h)"
    using h1 by (auto simp: take_conn_def ready_def clean_def)
  ultimately show ?thesis by blast
qed

lemma server_call_once:
  assumes "answers exec cmd args (sv_state (h_net h)) x st'" "clean (h_conns h i) (h_net h)"
    and "c_isOnce (h_conns h i)" "c_pool (h_conns h i) = Some p" "ready p h"
  shows "\<exists>h'. Conn_Call (server_dev exec) i cmd args h = Ret (x, h') \<and> c_err (h_conns h' i) = None
     \<and> sv_state (h_net h') = st' \<and> ready p h'"
proof -
  define h1 where "h1 = upd_pool p (\<lambda>P. P\<lparr>p_CallNum := p_CallNum P + 1\<rparr>)
    (upd_conn i (\<lambda>c. c\<lparr>c_lastActiveTime := sv_time (h_net h)\<rparr>) h)"
  have "clean (h_conns h1 i) (h_net h1)" "sv_state (h_net h1) = sv_state (h_net h)"
    using assms(2) by (simp_all add: h1_def clean_def)
  then obtain h2 where h2: "exchange (server_dev exec) i cmd args h1 = Ret (x, h2)" "h_net h2 = (h_net h1)\<lparr>sv_state := st'\<rparr>"
    "h_conns h2 = h_conns h1" "h_pools h2 = h_pools h1"
    using server_exchange [of exec cmd args h1 x st' i] assms(1) by auto
  have common: "\<forall>e. x = Inl e \<longrightarrow> is_common e" using assms(1) by (auto simp: answers_def)
  define h3 where "h3 = upd_conn i (\<lambda>c. c\<lparr>c_isOnce := False\<rparr>) h2"
  have "Conn_Call (server_dev exec) i cmd args h = Ret (x, Pool_Push (server_dev exec) p (Some i) h3)"
    using assms(2-4) h2(1,3) common
    by (auto simp: Conn_Call_def clean_def h1_def h3_def upd_opool_def server_dev_def call_defer_def Let_def split: sum.splits)
  moreover have "clean (h_conns h3 i) (h_net h3)" "ready p h3" "sv_state (h_net h3) = st'"
    "c_lastActiveTime (h_conns h3 i) = sv_time (h_net h3)"
    using assms(2,5) h2 by (auto simp: h3_def h1_def clean_def ready_def)
  ultimately show ?thesis
    by (auto simp: Pool_Push_def Let_def Conn_Close_def server_dev_def ready_def clean_def)
qed

text \<open>The pooled client implements the command call.\<close>

lemma once_call_server:
  assumes "map_of (mp_pools mp) addr = Some p" "pool_inv out p h" "ready p h" "int (card out) < p_MaxConnNum (h_pools h p)"
    and "answers exec cmd args (sv_state (h_net h)) x st'"
  shows "\<exists>h'. once_call (server_dev exec) addr cmd args (mp, h) = Some (Ret (x, mp, h'))
     \<and> sv_state (h_net h') = st' \<and> pool_inv out p h' \<and> ready p h'"
proof -
  obtain i h1 where pop: "Pool_Pop (server_dev exec) p h = Some (Ret (Some i, h1))" "\<not> c_isIdle (h_conns h1 i)"
    "clean (h_conns h1 i) (h_net h1)" "ready p h1" "sv_state (h_net h1) = sv_state (h_net h)"
    using ready_pop [OF assms(2-4)] by blast
  from Pool_Pop_inv [OF pop(1) assms(2)] have "popped out p (Some i) h1" by simp
  then have pool: "c_pool (h_conns h1 i) = Some p" using pop(2) by (auto simp: popped_def dead_def pool_inv_def)
  define h2 where "h2 = upd_conn i (\<lambda>c. c\<lparr>c_isOnce := True\<rparr>) h1"
  have "clean (h_conns h2 i) (h_net h2)" "c_isOnce (h_conns h2 i)" "c_pool (h_conns h2 i) = Some p" "ready p h2"
    using pop(3,4) pool by (auto simp: h2_def clean_def ready_def)
  from server_call_once [OF _ this, of exec cmd args x st'] assms(5) pop(5)
  obtain h3 where h3: "Conn_Call (server_dev exec) i cmd args h2 = Ret (x, h3)" "c_err (h_conns h3 i) = None"
    "sv_state (h_net h3) = st'" "ready p h3"
    by (auto simp: h2_def)
  have "once_call (server_dev exec) addr cmd args (mp, h) = Some (Ret (x, mp, h3))"
    using assms(1) pop(1,3) h3(1,2)
    by (simp add: once_call_def Once_def PopByAddr_def AddPool_def h2_def [symmetric] Conn_CallN_def RetryTimes_redis_def
        numeral_2_eq_2 \<open>clean (h_conns h2 i) (h_net h2)\<close> [unfolded clean_def])
  with once_call_inv [OF this assms(1,2)] h3 show ?thesis by blast
qed

subsection \<open>A concrete pool\<close>

text \<open>A fresh pool of at most two connections to \<open>a:1\<close>, in front of the in-memory server.\<close>

definition demo_pool :: Pool where
  "demo_pool =
     \<lparr>p_Address = ''a:1'', p_Password = [], p_IdleNum = 0, p_ActiveNum = 0, p_MaxConnNum = 2, p_MaxIdleNum = 1,
      p_CreateNum = 0, p_CreateFailedNum = 0, p_WaitTimeoutNum = 0, p_PingErrNum = 0, p_CallNetErrNum = 0,
      p_MaxIdleSeconds = 28, p_ClientPool = [], p_CallNum = 0, p_ScriptMap = []\<rparr>"

definition demo_heap :: "mem srv heap" where
  "demo_heap =
     \<lparr>h_conns = (\<lambda>_. new_Conn [] None False None 0), h_next = 0, h_pools = (\<lambda>_. demo_pool), h_npools = 1,
      h_net = \<lparr>sv_state = (\<lambda>a k. []), sv_pending = (\<lambda>_. []), sv_socks = 0, sv_time = 1000\<rparr>\<rparr>"

definition demo_multi :: MultiPool where
  "demo_multi =
     \<lparr>mp_pools = [(''a:1'', 0)], mp_servers = [[], ''a:1''], mp_maxConnNum = 2, mp_maxIdleNum = 1,
      mp_maxIdleSeconds = 28\<rparr>"

lemma demo_pool_ready [simp]:
  "pool_inv {} 0 demo_heap" "ready 0 demo_heap" "map_of (mp_pools demo_multi) ''a:1'' = Some 0"
  "p_MaxConnNum (h_pools demo_heap 0) = 2" "p_MaxIdleNum (h_pools demo_heap 0) = 1" "p_MaxIdleSeconds (h_pools demo_heap 0) = 28"
  "sv_state (h_net demo_heap) = (\<lambda>a k. [])"
  by (simp_all add: pool_inv_def ready_def demo_heap_def demo_pool_def demo_multi_def)

text \<open>On this network time passes only while the client sleeps, so a new connection is never stale.\<close>

lemma server_exchange_time:
  "exchange (server_dev exec) i cmd args h = Ret (r, h') \<Longrightarrow> sv_time (h_net h') = sv_time (h_net h)"
  by (auto simp: exchange_def server_dev_def split: option.splits prod.splits go.splits)

lemma server_call_time:
  assumes "Conn_Call (server_dev exec) i cmd args h = Ret (r, h')" "\<not> c_isOnce (h_conns h i)" "c_err (h_conns h i) = None"
  shows "c_lastActiveTime (h_conns h' i) = sv_time (h_net h) \<and> sv_time (h_net h') = sv_time (h_net h)"
proof -
  define h1 where "h1 = upd_opool (c_pool (h_conns h i)) (\<lambda>P. P\<lparr>p_CallNum := p_CallNum P + 1\<rparr>)
    (upd_conn i (\<lambda>c. c\<lparr>c_lastActiveTime := sv_time (h_net h)\<rparr>) h)"
  obtain h2 where h2: "exchange (server_dev exec) i cmd args h1 = Ret (r, h2)" "h' = call_defer (server_dev exec) i cmd r h2"
    using assms(1,3) by (auto simp: Conn_Call_def h1_def server_dev_def Let_def)
  have "\<not> c_isOnce (h_conns h2 i)"
    using exchange_same [OF h2(1), of 0] assms(2) by (simp add: same_pool_def h1_def)
  then have "c_lastActiveTime (h_conns h' i) = c_lastActiveTime (h_conns h2 i)" "h_net h' = h_net h2"
    unfolding h2(2) by (auto simp: call_defer_def Let_def split: sum.splits)
  then show ?thesis
    using exchange_frame [OF h2(1), of i] server_exchange_time [OF h2(1)] by (simp add: h1_def)
qed

lemma server_prompt:
  assumes "0 \<le> limit"
  shows "prompt (server_dev exec) p limit"
  unfolding prompt_def
proof (intro allI impI)
  fix address password h i h'
  assume D: "Dial (server_dev exec) address password True (Some p) h = Ret (Inr i, h')"
  obtain s w where d: "d_dial (server_dev exec) address (h_net h) = (Inr s, w)" by (simp add: server_dev_def)
  have "c_lastActiveTime (h_conns h' i) = sv_time (h_net h')"
  proof (cases "password = []")
    case True
    then show ?thesis using D by (auto simp: Dial_def server_dev_def alloc_conn_def new_Conn_def)
  next
    case False
    define h1 where "h1 = snd (alloc_conn (new_Conn (address @ '':'' @ password) (Some s) True (Some p) (d_unix (server_dev exec) w)) (h\<lparr>h_net := w\<rparr>))"
    obtain q where q: "Conn_Call (server_dev exec) (h_next h) ''AUTH'' [AStr password] h1 = Ret (q, h')" "i = h_next h"
      using D Dial_auth [OF d False h1_def] by (auto split: option.splits)
    have "\<not> c_isOnce (h_conns h1 (h_next h))" "c_err (h_conns h1 (h_next h)) = None"
      by (simp_all add: h1_def alloc_conn_def new_Conn_def)
    from server_call_time [OF q(1) this] show ?thesis using q(2) by simp
  qed
  then show "d_unix (server_dev exec) (h_net h') - c_lastActiveTime (h_conns h' i) \<le> limit"
    using assms by (simp add: server_dev_def)
qed

subsection \<open>Making the client of a storage\<close>

text \<open>The storage panics exactly when the client it creates does.\<close>

lemma pool_panics_iff: "NewMultiPool [addr] maxConnNum maxIdleNum maxIdleSeconds h = Panic \<longleftrightarrow> pool_panics addr maxConnNum"
  by (auto simp: NewMultiPool_def AddPool_def pool_of_address_def NewPool_def pool_panics_def Let_def alloc_pool_def
      split: list.splits)

end
