(* ===== verification/CgiPool.thy ===== *)
theory CgiPool
  imports HttpWorker
begin

text \<open>
  The pool of connections to a FastCGI responder (\<open>cgi_conn_pool.go\<close>). A connection has one owner at a
  time, the channel of the pool or the caller, so it is a value. The FastCGI client of a connection is a
  parameter \<open>dev\<close> (dialling, \<open>PostForm\<close>, closing), as are the clock (nanoseconds), the id generator and
  sleeping.

  The lemmas show that \<open>connNum\<close> counts the open connections and stays within \<open>maxConnNum\<close>, that sending
  on the pool's channel never blocks, and that \<open>GetConn\<close> returns once dialling succeeds.
\<close>

datatype cgi_err = EOF | CErr string

definition cgi_err_text :: "cgi_err \<Rightarrow> string" where
  "cgi_err_text e = (case e of EOF \<Rightarrow> ''EOF'' | CErr t \<Rightarrow> t)"

record 'w cgi_dev =
  cd_dial :: "string \<Rightarrow> bool \<Rightarrow> 'w \<Rightarrow> (cgi_err + nat) \<times> 'w"
  cd_post :: "nat \<Rightarrow> (string, string) gomap \<Rightarrow> url_Values \<Rightarrow> 'w \<Rightarrow> (cgi_err + http_response) \<times> 'w"
  cd_close :: "nat \<Rightarrow> 'w \<Rightarrow> 'w"
  cd_now :: "'w \<Rightarrow> int"
  cd_id :: "'w \<Rightarrow> nat \<times> 'w"
  cd_sleep :: "int \<Rightarrow> 'w \<Rightarrow> 'w"

definition second :: int where "second = 1000000000"

definition NewConnRetryDuration :: int where "NewConnRetryDuration = 1"
definition NewConnRetryMaxDuration :: int where "NewConnRetryMaxDuration = 60"

record CgiConn =
  cn_id :: nat
  cn_client :: nat
  cn_usedCounts :: int
  cn_created :: int
  cn_needClose :: bool

record CgiConnPool =
  cp_store :: "CgiConn list" \<comment> \<open>the channel, its capacity is \<open>maxConnNum\<close>\<close>
  cp_connNum :: int
  cp_address :: string
  cp_connectTimeout :: int
  cp_writeTimeout :: int
  cp_readTimeout :: int
  cp_initConnNum :: int
  cp_maxConnNum :: int
  cp_reuseCounts :: int
  cp_reuseLife :: int

subsection \<open>Operations\<close>

definition newConnReal ::
  "'w cgi_dev \<Rightarrow> CgiConnPool \<Rightarrow> 'w \<Rightarrow> (cgi_err + CgiConn) \<times> CgiConnPool \<times> 'w" where
  "newConnReal dev cp w =
     (let created = cd_now dev w; connNum = cp_connNum cp + 1 in
      if cp_maxConnNum cp < connNum then (Inl (CErr ''too many connection''), cp, w)
      else
        (case cd_dial dev (cp_address cp) (1 < cp_reuseCounts cp) w of
           (Inl e, w1) \<Rightarrow> (Inl e, cp, w1)
         | (Inr client, w1) \<Rightarrow>
             (let (i, w2) = cd_id dev w1 in
              (Inr \<lparr>cn_id = i, cn_client = client, cn_usedCounts = 0, cn_created = created, cn_needClose = False\<rparr>,
               cp\<lparr>cp_connNum := connNum\<rparr>, w2))))"

definition closeConn :: "'w cgi_dev \<Rightarrow> CgiConn \<Rightarrow> CgiConnPool \<Rightarrow> 'w \<Rightarrow> CgiConnPool \<times> 'w" where
  "closeConn dev c cp w = (cp\<lparr>cp_connNum := cp_connNum cp - 1\<rparr>, cd_close dev (cn_client c) w)"

definition put_conn :: "'w cgi_dev \<Rightarrow> CgiConn \<Rightarrow> CgiConnPool \<Rightarrow> 'w \<Rightarrow> CgiConnPool \<times> 'w" where
  "put_conn dev c cp w =
     (if int (length (cp_store cp)) < cp_maxConnNum cp then (cp\<lparr>cp_store := cp_store cp @ [c]\<rparr>, w)
      else closeConn dev c cp w)"

text \<open>\<open>newConn\<close> sends on the channel; \<open>None\<close> is a send that blocks.\<close>

definition newConn :: "'w cgi_dev \<Rightarrow> CgiConnPool \<Rightarrow> 'w \<Rightarrow> (cgi_err option \<times> CgiConnPool \<times> 'w) option" where
  "newConn dev cp w =
     (case newConnReal dev cp w of
        (Inl e, cp1, w1) \<Rightarrow> Some (Some e, cp1, w1)
      | (Inr c, cp1, w1) \<Rightarrow>
          if int (length (cp_store cp1)) < cp_maxConnNum cp1
          then Some (None, cp1\<lparr>cp_store := cp_store cp1 @ [c]\<rparr>, w1) else None)"

fun init_conns :: "'w cgi_dev \<Rightarrow> nat \<Rightarrow> CgiConnPool \<Rightarrow> 'w \<Rightarrow> (CgiConnPool \<times> 'w) option" where
  "init_conns dev 0 cp w = Some (cp, w)"
| "init_conns dev (Suc n) cp w =
     (case newConn dev cp w of None \<Rightarrow> None | Some (_, cp1, w1) \<Rightarrow> init_conns dev n cp1 w1)"

definition NewCgiConnPool ::
  "'w cgi_dev \<Rightarrow> CgiConfig \<Rightarrow> 'w \<Rightarrow> (CgiConnPool \<times> 'w) option go" where
  "NewCgiConnPool dev conf w =
     (let n = (if cc_MaxConnNum conf < cc_InitConnNum conf then cc_MaxConnNum conf else cc_InitConnNum conf) in
      if cc_MaxConnNum conf < 0 then Panic
      else Ret (init_conns dev (nat n)
        \<lparr>cp_store = [], cp_connNum = 0, cp_address = cc_Address conf, cp_connectTimeout = cc_ConnectTimeout conf,
         cp_writeTimeout = cc_WriteTimeout conf, cp_readTimeout = cc_ReadTimeout conf, cp_initConnNum = n,
         cp_maxConnNum = cc_MaxConnNum conf, cp_reuseCounts = cc_ReuseCounts conf, cp_reuseLife = cc_ReuseLife conf\<rparr> w))"

definition CgiConn_Send ::
  "'w cgi_dev \<Rightarrow> CgiConn \<Rightarrow> (string, string) gomap \<Rightarrow> url_Values \<Rightarrow> 'w \<Rightarrow> (cgi_err + http_response) \<times> CgiConn \<times> 'w" where
  "CgiConn_Send dev c cgi_env params w =
     (case cd_post dev (cn_client c) cgi_env params w of
        (r, w') \<Rightarrow>
          (r, c\<lparr>cn_usedCounts := cn_usedCounts c + 1, cn_needClose := cn_needClose c \<or> (\<exists>e. r = Inl e)\<rparr>, w'))"

definition worn :: "CgiConnPool \<Rightarrow> int \<Rightarrow> CgiConn \<Rightarrow> bool" where
  "worn cp now c \<longleftrightarrow> cp_reuseCounts cp < cn_usedCounts c \<or> cp_reuseLife cp < now - cn_created c"

definition CgiConn_Close :: "'w cgi_dev \<Rightarrow> CgiConn \<Rightarrow> CgiConnPool \<Rightarrow> 'w \<Rightarrow> CgiConnPool \<times> 'w" where
  "CgiConn_Close dev c cp w =
     (if cn_needClose c then closeConn dev c cp w
      else if worn cp (cd_now dev w) c then closeConn dev c cp w
      else put_conn dev c cp w)"

text \<open>A connection that was never used is taken as closed by PHP-FPM after four and a half seconds.\<close>

definition abandoned :: "int \<Rightarrow> CgiConn \<Rightarrow> bool" where
  "abandoned now c \<longleftrightarrow> cn_usedCounts c = 0 \<and> 5 * second - 500000000 \<le> now - cn_created c"

definition conn_backoff :: "int \<Rightarrow> int" where
  "conn_backoff d = (if NewConnRetryMaxDuration \<le> d * 2 then NewConnRetryMaxDuration else d * 2)"

partial_function (option) GetConn_loop ::
  "'w cgi_dev \<Rightarrow> int \<Rightarrow> CgiConnPool \<Rightarrow> 'w \<Rightarrow> (CgiConn \<times> CgiConnPool \<times> 'w) option" where
  "GetConn_loop dev retryDuration cp w =
     (case cp_store cp of
        c # cs \<Rightarrow>
          (let cp1 = cp\<lparr>cp_store := cs\<rparr> in
           if abandoned (cd_now dev w) c \<or> worn cp (cd_now dev w) c
           then (case closeConn dev c cp1 w of (cp2, w2) \<Rightarrow> GetConn_loop dev retryDuration cp2 w2)
           else Some (c, cp1, w))
      | [] \<Rightarrow>
          (case newConn dev cp (cd_sleep dev (retryDuration * second) w) of
             None \<Rightarrow> None
           | Some (_, cp1, w1) \<Rightarrow> GetConn_loop dev (conn_backoff retryDuration) cp1 w1))"

definition GetConn :: "'w cgi_dev \<Rightarrow> CgiConnPool \<Rightarrow> 'w \<Rightarrow> (CgiConn \<times> CgiConnPool \<times> 'w) option" where
  "GetConn dev cp w = GetConn_loop dev NewConnRetryDuration cp w"

subsection \<open>The pools of all responders\<close>

type_synonym CgiConnPoolManager = "(string, CgiConnPool) gomap"

fun pm_Init ::
  "'w cgi_dev \<Rightarrow> (string, CgiConfig) gomap \<Rightarrow> CgiConnPoolManager \<Rightarrow> 'w \<Rightarrow> (CgiConnPoolManager \<times> 'w) option go" where
  "pm_Init dev [] pm w = Ret (Some (pm, w))"
| "pm_Init dev ((key, conf) # confs) pm w =
     (case NewCgiConnPool dev conf w of
        Panic \<Rightarrow> Panic
      | Ret None \<Rightarrow> Ret None
      | Ret (Some (cp, w1)) \<Rightarrow> pm_Init dev confs (AList.update key cp pm) w1)"

definition pm_Get :: "CgiConnPoolManager \<Rightarrow> string \<Rightarrow> cgi_err + CgiConnPool" where
  "pm_Get pm key = (case map_of pm key of None \<Rightarrow> Inl (CErr ''pool not found'') | Some cp \<Rightarrow> Inr cp)"

subsection \<open>Accounting\<close>

text \<open>\<open>cgi_inv out cp\<close>: with \<open>out\<close> connections in the hands of callers.\<close>

definition cgi_inv :: "nat \<Rightarrow> CgiConnPool \<Rightarrow> bool" where
  "cgi_inv out cp \<longleftrightarrow> cp_connNum cp = int (length (cp_store cp)) + int out \<and> cp_connNum cp \<le> cp_maxConnNum cp"

lemma newConnReal_inv:
  assumes "newConnReal dev cp w = (r, cp', w')" "cgi_inv out cp"
  shows "(\<exists>c. r = Inr c \<and> cgi_inv (Suc out) cp' \<and> cp_store cp' = cp_store cp) \<or> (\<exists>e. r = Inl e \<and> cp' = cp)"
  using assms by (auto simp: newConnReal_def cgi_inv_def Let_def split: if_splits prod.splits sum.splits)

lemma closeConn_inv: "cgi_inv (Suc out) cp \<Longrightarrow> cgi_inv out (fst (closeConn dev c cp w))"
  by (simp add: cgi_inv_def closeConn_def)

lemma put_conn_inv: "cgi_inv (Suc out) cp \<Longrightarrow> cgi_inv out (fst (put_conn dev c cp w))"
  by (simp add: cgi_inv_def put_conn_def closeConn_def)

lemma CgiConn_Close_inv: "cgi_inv (Suc out) cp \<Longrightarrow> cgi_inv out (fst (CgiConn_Close dev c cp w))"
  by (simp add: CgiConn_Close_def closeConn_inv put_conn_inv)

text \<open>The send of \<open>newConn\<close> finds room.\<close>

lemma newConn_inv:
  assumes "cgi_inv out cp"
  shows "\<exists>e cp' w'. newConn dev cp w = Some (e, cp', w') \<and> cgi_inv out cp'"
proof (cases "newConnReal dev cp w")
  case (fields r cp1 w1)
  from newConnReal_inv [OF this assms] show ?thesis
    using fields assms by (auto simp: newConn_def cgi_inv_def)
qed

lemma init_conns_inv: "cgi_inv out cp \<Longrightarrow> \<exists>cp' w'. init_conns dev n cp w = Some (cp', w') \<and> cgi_inv out cp'"
proof (induction n arbitrary: cp w)
  case (Suc n)
  from newConn_inv [OF Suc.prems, of dev w] obtain e cp1 w1
    where "newConn dev cp w = Some (e, cp1, w1)" "cgi_inv out cp1" by blast
  then show ?case using Suc.IH by simp
qed simp

lemma NewCgiConnPool_inv:
  "0 \<le> cc_MaxConnNum conf \<Longrightarrow> \<exists>cp w'. NewCgiConnPool dev conf w = Ret (Some (cp, w')) \<and> cgi_inv 0 cp"
  unfolding NewCgiConnPool_def Let_def
  by (simp del: ex_simps) (intro conjI impI init_conns_inv; simp add: cgi_inv_def)

lemma GetConn_loop_inv:
  "GetConn_loop dev d cp w = Some r \<Longrightarrow> cgi_inv out cp \<Longrightarrow> r = (c, cp', w') \<Longrightarrow> cgi_inv (Suc out) cp'"
proof (induction dev d cp w r rule: GetConn_loop.raw_induct [rotated, consumes 1])
  case (1 f dev d cp w r)
  show ?case
  proof (cases "cp_store cp")
    case Nil
    obtain e cp1 w1 where n: "newConn dev cp (cd_sleep dev (d * second) w) = Some (e, cp1, w1)" "cgi_inv out cp1"
      using newConn_inv [OF "1.prems"(1), of dev "cd_sleep dev (d * second) w"] by blast
    then have "f dev (conn_backoff d) cp1 w1 = Some r" using "1.hyps" Nil by simp
    from "1.IH" [OF this n(2) "1.prems"(2)] show ?thesis .
  next
    case (Cons x xs)
    let ?cp1 = "cp\<lparr>cp_store := xs\<rparr>"
    have inv: "cgi_inv (Suc out) ?cp1" using "1.prems"(1) Cons by (simp add: cgi_inv_def)
    show ?thesis
    proof (cases "abandoned (cd_now dev w) x \<or> worn cp (cd_now dev w) x")
      case True
      then have "f dev d (fst (closeConn dev x ?cp1 w)) (snd (closeConn dev x ?cp1 w)) = Some r"
        using "1.hyps" Cons by (cases "closeConn dev x ?cp1 w") auto
      from "1.IH" [OF this closeConn_inv [OF inv] "1.prems"(2)] show ?thesis .
    next
      case False
      then show ?thesis using "1.hyps" Cons "1.prems"(2) inv by simp
    qed
  qed
qed

lemma GetConn_inv: "GetConn dev cp w = Some (c, cp', w') \<Longrightarrow> cgi_inv out cp \<Longrightarrow> cgi_inv (Suc out) cp'"
  unfolding GetConn_def by (erule GetConn_loop_inv) simp_all

subsection \<open>GetConn returns\<close>

text \<open>
  \<open>reachable_cgi dev cp\<close>: the responder accepts connections, fast enough for a new connection to be
  usable. Then \<open>GetConn\<close> returns on every pool whose callers do not hold all connections.
\<close>

definition reachable_cgi :: "'w cgi_dev \<Rightarrow> CgiConnPool \<Rightarrow> bool" where
  "reachable_cgi dev cp \<longleftrightarrow>
     0 \<le> cp_reuseCounts cp \<and>
     (\<forall>w. \<exists>c w1. cd_dial dev (cp_address cp) (1 < cp_reuseCounts cp) w = (Inr c, w1)
        \<and> cd_now dev (snd (cd_id dev w1)) - cd_now dev w < 5 * second - 500000000
        \<and> cd_now dev (snd (cd_id dev w1)) - cd_now dev w \<le> cp_reuseLife cp)"

lemma GetConn_loop_empty:
  assumes "cgi_inv out cp" "int out < cp_maxConnNum cp" "reachable_cgi dev cp" "cp_store cp = []"
  shows "\<exists>r. GetConn_loop dev d cp w = Some r"
proof -
  let ?w = "cd_sleep dev (d * second) w"
  obtain c w1 where d: "cd_dial dev (cp_address cp) (1 < cp_reuseCounts cp) ?w = (Inr c, w1)"
    "cd_now dev (snd (cd_id dev w1)) - cd_now dev ?w < 5 * second - 500000000"
    "cd_now dev (snd (cd_id dev w1)) - cd_now dev ?w \<le> cp_reuseLife cp" "0 \<le> cp_reuseCounts cp"
    using assms(3) unfolding reachable_cgi_def by blast
  define x where "x = \<lparr>cn_id = fst (cd_id dev w1), cn_client = c, cn_usedCounts = 0, cn_created = cd_now dev ?w, cn_needClose = False\<rparr>"
  define cp1 where "cp1 = cp\<lparr>cp_connNum := cp_connNum cp + 1, cp_store := [x]\<rparr>"
  have "newConn dev cp ?w = Some (None, cp1, snd (cd_id dev w1))"
    using d(1) assms(1,2,4) by (simp add: newConn_def newConnReal_def cgi_inv_def x_def cp1_def case_prod_beta)
  then have "GetConn_loop dev d cp w = GetConn_loop dev (conn_backoff d) cp1 (snd (cd_id dev w1))"
    using assms(4) by (subst GetConn_loop.simps) simp
  moreover have "\<not> abandoned (cd_now dev (snd (cd_id dev w1))) x" "\<not> worn cp1 (cd_now dev (snd (cd_id dev w1))) x"
    using d(2-4) by (simp_all add: abandoned_def worn_def x_def cp1_def)
  then have "\<exists>r. GetConn_loop dev (conn_backoff d) cp1 (snd (cd_id dev w1)) = Some r"
    by (subst GetConn_loop.simps) (simp add: cp1_def)
  ultimately show ?thesis by simp
qed

lemma GetConn_loop_returns:
  assumes "cgi_inv out cp" "int out < cp_maxConnNum cp" "reachable_cgi dev cp"
  shows "\<exists>r. GetConn_loop dev d cp w = Some r"
  using assms
proof (induction "length (cp_store cp)" arbitrary: cp w)
  case 0
  then show ?case using GetConn_loop_empty by auto
next
  case (Suc n)
  then obtain c cs where cs: "cp_store cp = c # cs" "n = length cs" by (cases "cp_store cp") auto
  let ?cp2 = "fst (closeConn dev c (cp\<lparr>cp_store := cs\<rparr>) w)"
  have inv: "cgi_inv out ?cp2" by (rule closeConn_inv) (use Suc.prems(1) cs(1) in \<open>simp add: cgi_inv_def\<close>)
  have "n = length (cp_store ?cp2)" "int out < cp_maxConnNum ?cp2" "reachable_cgi dev ?cp2"
    using Suc.prems(2,3) cs(2) by (simp_all add: closeConn_def reachable_cgi_def)
  from Suc.hyps(1) [OF this(1) inv this(2,3)] show ?case
    using cs(1) by (subst GetConn_loop.simps) (auto simp: Let_def case_prod_beta)
qed

end
