(* ===== verification/FastCgi.thy ===== *)
theory FastCgi
  imports CgiPool
begin

text \<open>
  The FastCGI client (\<open>codec/fastcgi/client.go\<close>): records, the encoding of name-value pairs, streams cut
  into records, and the bytes of a request. Integers of fixed width are natural numbers with the
  wrap-around written out; the network accepts what is written, so a write is the bytes it sends.

  The lemmas show that records and streams are read back as they were written, that the responder
  decodes exactly the parameters of the request, and that a connection that is kept open cannot be
  used for a second request: the body of the end record stays unread.
\<close>

subsection \<open>Constants and headers\<close>

definition FCGI_BEGIN_REQUEST :: nat where "FCGI_BEGIN_REQUEST = 1"
definition FCGI_END_REQUEST :: nat where "FCGI_END_REQUEST = 3"
definition FCGI_PARAMS :: nat where "FCGI_PARAMS = 4"
definition FCGI_STDIN :: nat where "FCGI_STDIN = 5"
definition FCGI_STDOUT :: nat where "FCGI_STDOUT = 6"
definition FCGI_RESPONDER :: nat where "FCGI_RESPONDER = 1"
definition FCGI_KEEP_CONN :: nat where "FCGI_KEEP_CONN = 1"
definition maxWrite :: nat where "maxWrite = 65500"

definition byte :: "nat \<Rightarrow> char" where "byte n = char_of (n mod 256)"

definition be16 :: "nat \<Rightarrow> string" where
  "be16 n = [byte (n div 256), byte n]"

definition be32 :: "nat \<Rightarrow> string" where
  "be32 n = [byte (n div 2 ^ 24), byte (n div 2 ^ 16), byte (n div 2 ^ 8), byte n]"

abbreviation byte_at :: "string \<Rightarrow> nat \<Rightarrow> nat" where "byte_at s i \<equiv> of_char (s ! i)"

definition of_be16 :: "string \<Rightarrow> nat" where
  "of_be16 s = byte_at s 0 * 256 + byte_at s 1"

definition of_be32 :: "string \<Rightarrow> nat" where
  "of_be32 s = byte_at s 0 * 2 ^ 24 + byte_at s 1 * 2 ^ 16 + byte_at s 2 * 2 ^ 8 + byte_at s 3"

record header =
  h_Version :: nat
  h_Type :: nat
  h_Id :: nat
  h_ContentLength :: nat
  h_PaddingLength :: nat
  h_Reserved :: nat

definition header_init :: "nat \<Rightarrow> nat \<Rightarrow> nat \<Rightarrow> header" where
  "header_init recType reqId contentLength =
     \<lparr>h_Version = 1, h_Type = recType, h_Id = reqId, h_ContentLength = contentLength mod 2 ^ 16,
      h_PaddingLength = (8 - contentLength mod 8) mod 8, h_Reserved = 0\<rparr>"

definition header_bytes :: "header \<Rightarrow> string" where
  "header_bytes h = [byte (h_Version h), byte (h_Type h)] @ be16 (h_Id h) @ be16 (h_ContentLength h)
     @ [byte (h_PaddingLength h), byte (h_Reserved h)]"

definition parse_header :: "string \<Rightarrow> header" where
  "parse_header s =
     \<lparr>h_Version = byte_at s 0, h_Type = byte_at s 1, h_Id = of_be16 (drop 2 s), h_ContentLength = of_be16 (drop 4 s),
      h_PaddingLength = byte_at s 6, h_Reserved = byte_at s 7\<rparr>"

subsection \<open>Records\<close>

definition writeRecord :: "nat \<Rightarrow> nat \<Rightarrow> string \<Rightarrow> string" where
  "writeRecord recType reqId content =
     (let h = header_init recType reqId (length content)
      in header_bytes h @ content @ replicate (h_PaddingLength h) (byte 0))"

text \<open>
  \<open>record.read\<close> on the bytes that are still to come. The end record is reported as \<open>EOF\<close> before its
  content is read.
\<close>

definition record_read :: "string \<Rightarrow> (cgi_err + string) \<times> string" where
  "record_read s =
     (if length s < 8 then (Inl (if s = [] then EOF else CErr ''unexpected EOF''), [])
      else
        (let h = parse_header s; r = drop 8 s; n = h_ContentLength h + h_PaddingLength h in
         if h_Version h \<noteq> 1 then (Inl (CErr ''fcgi: invalid header version''), r)
         else if h_Type h = FCGI_END_REQUEST then (Inl EOF, r)
         else if length r < n then (Inl (if r = [] then EOF else CErr ''unexpected EOF''), [])
         else (Inr (take (h_ContentLength h) r), drop n r)))"

definition writeBeginRequest :: "nat \<Rightarrow> nat \<Rightarrow> nat \<Rightarrow> string" where
  "writeBeginRequest reqId role flags =
     writeRecord FCGI_BEGIN_REQUEST reqId ([byte (role div 256), byte role, byte flags] @ replicate 5 (byte 0))"

definition writeEndRequest :: "nat \<Rightarrow> nat \<Rightarrow> nat \<Rightarrow> string" where
  "writeEndRequest reqId appStatus protocolStatus =
     writeRecord FCGI_END_REQUEST reqId (be32 (appStatus mod 2 ^ 32) @ [byte protocolStatus] @ replicate 3 (byte 0))"

subsection \<open>Sizes and strings\<close>

definition encodeSize :: "nat \<Rightarrow> string" where
  "encodeSize sz = (if 127 < sz then be32 (set_bit 31 sz) else [byte sz])"

definition readSize :: "string \<Rightarrow> nat \<times> nat" where
  "readSize s =
     (if s = [] then (0, 0)
      else if bit (byte_at s 0) 7 then (if length s < 4 then (0, 0) else (unset_bit 31 (of_be32 s), 4))
      else (byte_at s 0, 1))"

definition readString :: "string \<Rightarrow> nat \<Rightarrow> string" where
  "readString s sz = (if length s < sz then [] else take sz s)"

subsection \<open>Streams\<close>

text \<open>\<open>streamWriter\<close>: a stream in records of at most \<open>maxWrite\<close> bytes, closed by an empty record.\<close>

function stream_Write :: "nat \<Rightarrow> nat \<Rightarrow> string \<Rightarrow> string" where
  "stream_Write recType reqId p =
     (if p = [] then []
      else writeRecord recType reqId (take maxWrite p) @ stream_Write recType reqId (drop maxWrite p))"
  by auto
termination
  by (relation "measure (\<lambda>(_, _, p). length p)") (auto simp: maxWrite_def)

declare stream_Write.simps [simp del]

definition stream_Close :: "nat \<Rightarrow> nat \<Rightarrow> string" where
  "stream_Close recType reqId = writeRecord recType reqId []"

text \<open>
  \<open>bufio.Writer\<close> of size \<open>maxWrite\<close> in front of it: the buffer and the bytes sent so far. A slice that
  does not fit is sent directly when the buffer is empty, a string always goes through the buffer.
\<close>

type_synonym bufWriter = "string \<times> string"

definition w_Flush :: "nat \<Rightarrow> nat \<Rightarrow> bufWriter \<Rightarrow> bufWriter" where
  "w_Flush recType reqId w = (case w of (buf, out) \<Rightarrow> ([], out @ stream_Write recType reqId buf))"

function w_Write :: "nat \<Rightarrow> nat \<Rightarrow> string \<Rightarrow> bufWriter \<Rightarrow> bufWriter" where
  "w_Write recType reqId p (buf, out) =
     (if length p \<le> maxWrite - length buf then (buf @ p, out)
      else if buf = [] then ([], out @ stream_Write recType reqId p)
      else w_Write recType reqId (drop (maxWrite - length buf) p)
             (w_Flush recType reqId (buf @ take (maxWrite - length buf) p, out)))"
  by auto
termination
  by (relation "measure (\<lambda>(_, _, p, buf, _). length p + length buf)") (auto simp: w_Flush_def length_greater_0_conv [symmetric] simp del: length_greater_0_conv)

function w_WriteString :: "nat \<Rightarrow> nat \<Rightarrow> string \<Rightarrow> bufWriter \<Rightarrow> bufWriter" where
  "w_WriteString recType reqId s (buf, out) =
     (if length s \<le> maxWrite - length buf then (buf @ s, out)
      else w_WriteString recType reqId (drop (maxWrite - length buf) s)
             (w_Flush recType reqId (buf @ take (maxWrite - length buf) s, out)))"
  by auto
termination
  by (relation "measure (\<lambda>(_, _, s, buf, _). length s + length buf)") (auto simp: w_Flush_def maxWrite_def)

declare w_Write.simps [simp del] w_WriteString.simps [simp del]

definition w_Close :: "nat \<Rightarrow> nat \<Rightarrow> bufWriter \<Rightarrow> string" where
  "w_Close recType reqId w = snd (w_Flush recType reqId w) @ stream_Close recType reqId"

text \<open>\<open>writePairs\<close>: a value is cut so that the pair fits; a key that leaves no room for it panics.\<close>

definition write_pair :: "nat \<Rightarrow> nat \<Rightarrow> string \<Rightarrow> string \<Rightarrow> nat \<times> bufWriter \<Rightarrow> (nat \<times> bufWriter) go" where
  "write_pair recType reqId k v0 nw =
     (if maxWrite < 8 + length k + length v0 \<and> maxWrite < 8 + length k then Panic
      else
        (let v = (if maxWrite < 8 + length k + length v0 then take (maxWrite - 8 - length k) v0 else v0);
             b = encodeSize (length k) @ encodeSize (length v);
             m = length b + length k + length v;
             (nn, w) = (if maxWrite < fst nw + m then (0, w_Flush recType reqId (snd nw)) else nw)
         in Ret (nn + m, w_WriteString recType reqId v (w_WriteString recType reqId k (w_Write recType reqId b w)))))"

fun pairs_loop :: "nat \<Rightarrow> nat \<Rightarrow> (string \<times> string) list \<Rightarrow> nat \<times> bufWriter \<Rightarrow> bufWriter go" where
  "pairs_loop recType reqId [] nw = Ret (snd nw)"
| "pairs_loop recType reqId (kv # ps) nw =
     go_bind (write_pair recType reqId (fst kv) (snd kv) nw) (pairs_loop recType reqId ps)"

definition writePairs :: "nat \<Rightarrow> nat \<Rightarrow> (string, string) gomap \<Rightarrow> string go" where
  "writePairs recType reqId pairs =
     go_bind (pairs_loop recType reqId pairs (0, [], [])) (\<lambda>w. Ret (w_Close recType reqId w))"

subsection \<open>Requests\<close>

record FCGIClient =
  f_keepAlive :: bool
  f_reqId :: nat

text \<open>\<open>Do\<close>: the bytes of a request. The body is copied in one write.\<close>

definition fcgi_Do :: "FCGIClient \<Rightarrow> (string, string) gomap \<Rightarrow> string option \<Rightarrow> string go" where
  "fcgi_Do c p req =
     go_bind (writePairs FCGI_PARAMS (f_reqId c) p) (\<lambda>params.
     Ret (writeBeginRequest (f_reqId c) FCGI_RESPONDER (if f_keepAlive c then FCGI_KEEP_CONN else 0) @ params
          @ w_Close FCGI_STDIN (f_reqId c)
              (case req of None \<Rightarrow> ([], []) | Some body \<Rightarrow> w_Write FCGI_STDIN (f_reqId c) body ([], []))))"

definition get_env :: "(string, string) gomap \<Rightarrow> (string, string) gomap" where
  "get_env p = AList.update ''CONTENT_LENGTH'' ''0'' (AList.update ''REQUEST_METHOD'' ''GET'' p)"

definition post_env :: "(string, string) gomap \<Rightarrow> string \<Rightarrow> nat \<Rightarrow> (string, string) gomap" where
  "post_env p bodyType l =
     (let p1 = (if (case map_of p ''REQUEST_METHOD'' of None \<Rightarrow> True | Some m \<Rightarrow> m = [] \<or> m = ''GET'')
                then AList.update ''REQUEST_METHOD'' ''POST'' p else p);
          p2 = AList.update ''CONTENT_LENGTH'' (show_nat l) p1
      in AList.update ''CONTENT_TYPE'' (if bodyType = [] then ''application/x-www-form-urlencoded'' else bodyType) p2)"

definition post_form :: "FCGIClient \<Rightarrow> (string, string) gomap \<Rightarrow> url_Values \<Rightarrow> string go" where
  "post_form c p vals =
     (let body = Values_Encode vals
      in fcgi_Do c (post_env p ''application/x-www-form-urlencoded'' (length body)) (Some body))"

text \<open>
  \<open>streamReader\<close>: what reading to the end gives: the contents of the records, the error that ends it
  (\<open>EOF\<close> after the end record), the bytes left on the connection.
\<close>

lemma record_read_shorter: "record_read s = (Inr b, r) \<Longrightarrow> length r < length s"
  by (auto simp: record_read_def Let_def split: if_splits)

function read_stream :: "string \<Rightarrow> string \<times> cgi_err \<times> string" where
  "read_stream s =
     (case record_read s of
        (Inl e, r) \<Rightarrow> ([], e, r)
      | (Inr b, r) \<Rightarrow> (let (c, e, r') = read_stream r in (b @ c, e, r')))"
  by auto
termination
  by (relation "measure length") (auto dest!: record_read_shorter [OF sym])

declare read_stream.simps [simp del]

subsection \<open>Records are read back\<close>

lemma of_char_byte [simp]: "of_char (byte n) = n mod 256"
  by (simp add: byte_def)

lemma of_be16_be16 [simp]: "n < 2 ^ 16 \<Longrightarrow> of_be16 (be16 n @ s) = n"
  by (simp add: of_be16_def be16_def)

lemma of_be32_be32 [simp]:
  assumes "n < 2 ^ 32"
  shows "of_be32 (be32 n @ s) = n"
proof -
  define a where "a = n div 256"
  define b where "b = a div 256"
  have d: "n div 65536 = b" "n div 16777216 = b div 256"
    by (simp_all add: a_def b_def div_mult2_eq [symmetric])
  have "n = a * 256 + n mod 256" "a = b * 256 + a mod 256" "b = b div 256 * 256 + b mod 256"
    by (simp_all add: a_def b_def)
  then have "n = b div 256 * 16777216 + b mod 256 * 65536 + a mod 256 * 256 + n mod 256" by linarith
  moreover have "b div 256 < 256" using assms unfolding d(2) [symmetric] by simp
  ultimately show ?thesis by (simp add: of_be32_def be32_def d a_def [symmetric])
qed

definition wf_header :: "header \<Rightarrow> bool" where
  "wf_header h \<longleftrightarrow> h_Version h < 256 \<and> h_Type h < 256 \<and> h_Id h < 2 ^ 16 \<and> h_ContentLength h < 2 ^ 16
     \<and> h_PaddingLength h < 256 \<and> h_Reserved h < 256"

lemma length_header [simp]: "length (header_bytes h) = 8"
  by (simp add: header_bytes_def be16_def)

lemma parse_header_bytes:
  assumes "wf_header h"
  shows "parse_header (header_bytes h @ s) = h"
proof -
  have "drop 2 (header_bytes h @ s) = be16 (h_Id h) @ be16 (h_ContentLength h) @ [byte (h_PaddingLength h), byte (h_Reserved h)] @ s"
    "drop 4 (header_bytes h @ s) = be16 (h_ContentLength h) @ [byte (h_PaddingLength h), byte (h_Reserved h)] @ s"
    by (simp_all add: header_bytes_def be16_def drop_Cons')
  moreover have "byte_at (header_bytes h @ s) 0 = h_Version h" "byte_at (header_bytes h @ s) 1 = h_Type h"
    "byte_at (header_bytes h @ s) 6 = h_PaddingLength h" "byte_at (header_bytes h @ s) 7 = h_Reserved h"
    using assms by (simp_all add: header_bytes_def be16_def wf_header_def nth_Cons')
  ultimately show ?thesis using assms by (simp add: parse_header_def wf_header_def)
qed

definition wf_record :: "nat \<Rightarrow> nat \<Rightarrow> string \<Rightarrow> bool" where
  "wf_record recType reqId content \<longleftrightarrow> recType < 256 \<and> reqId < 2 ^ 16 \<and> length content < 2 ^ 16"

lemma record_read_write:
  assumes "wf_record recType reqId content" "recType \<noteq> FCGI_END_REQUEST"
  shows "record_read (writeRecord recType reqId content @ s) = (Inr content, s)"
proof -
  let ?h = "header_init recType reqId (length content)"
  have "wf_header ?h" using assms(1) by (simp add: wf_header_def header_init_def wf_record_def)
  then have "parse_header (writeRecord recType reqId content @ s) = ?h"
    by (simp add: writeRecord_def Let_def parse_header_bytes)
  then show ?thesis using assms
    by (simp add: record_read_def writeRecord_def Let_def header_init_def wf_record_def)
qed

text \<open>The end record is taken for the end of the stream, its eight bytes of content stay unread.\<close>

lemma record_read_end:
  assumes "reqId < 2 ^ 16"
  shows "record_read (writeEndRequest reqId appStatus protocolStatus @ s)
     = (Inl EOF, be32 (appStatus mod 2 ^ 32) @ [byte protocolStatus] @ replicate 3 (byte 0) @ s)"
proof -
  let ?h = "header_init FCGI_END_REQUEST reqId 8"
  have "wf_header ?h" using assms by (simp add: wf_header_def header_init_def FCGI_END_REQUEST_def)
  then have "parse_header (header_bytes ?h @ t) = ?h" for t by (rule parse_header_bytes)
  then show ?thesis
    by (simp add: record_read_def writeEndRequest_def writeRecord_def Let_def be32_def) (simp add: header_init_def)
qed

subsection \<open>Streams are read back\<close>

text \<open>What a stream writer has sent: non-empty records of at most \<open>maxWrite\<close> bytes.\<close>

definition chunks_ok :: "string list \<Rightarrow> bool" where
  "chunks_ok cs \<longleftrightarrow> (\<forall>c \<in> set cs. c \<noteq> [] \<and> length c \<le> maxWrite)"

definition records :: "nat \<Rightarrow> nat \<Rightarrow> string list \<Rightarrow> string" where
  "records recType reqId cs = concat (map (writeRecord recType reqId) cs)"

lemma records_simps [simp]:
  "records t i [] = []" "records t i (c # cs) = writeRecord t i c @ records t i cs"
  "records t i (cs @ ds) = records t i cs @ records t i ds"
  by (simp_all add: records_def)

lemma chunks_ok_simps [simp]:
  "chunks_ok []" "chunks_ok (c # cs) \<longleftrightarrow> c \<noteq> [] \<and> length c \<le> maxWrite \<and> chunks_ok cs"
  "chunks_ok (cs @ ds) \<longleftrightarrow> chunks_ok cs \<and> chunks_ok ds"
  by (auto simp: chunks_ok_def)

lemma stream_Write_chunks: "\<exists>cs. stream_Write t i p = records t i cs \<and> concat cs = p \<and> chunks_ok cs"
proof (induction t i p rule: stream_Write.induct)
  case (1 t i p)
  show ?case
  proof (cases "p = []")
    case True
    then show ?thesis by (intro exI [of _ "[]"]) (simp add: stream_Write.simps)
  next
    case False
    then obtain cs where "stream_Write t i (drop maxWrite p) = records t i cs" "concat cs = drop maxWrite p" "chunks_ok cs"
      using 1 by blast
    then show ?thesis using False
      by (intro exI [of _ "take maxWrite p # cs"]) (simp add: stream_Write.simps [of t i p] maxWrite_def)
  qed
qed

text \<open>The state of a buffered writer that has been given \<open>data\<close>.\<close>

definition written :: "nat \<Rightarrow> nat \<Rightarrow> string \<Rightarrow> bufWriter \<Rightarrow> bool" where
  "written t i data w \<longleftrightarrow> (\<exists>cs. snd w = records t i cs \<and> concat cs @ fst w = data \<and> chunks_ok cs)"

lemma written_init: "written t i [] ([], [])"
  unfolding written_def by (intro exI [of _ "[]"]) simp

lemma written_sent:
  assumes "written t i data (buf, out)"
  shows "written t i (data @ p) ([], out @ stream_Write t i (buf @ p))"
proof -
  obtain cs where "out = records t i cs" "concat cs @ buf = data" "chunks_ok cs"
    using assms by (auto simp: written_def)
  moreover obtain ds where "stream_Write t i (buf @ p) = records t i ds" "concat ds = buf @ p" "chunks_ok ds"
    using stream_Write_chunks by blast
  ultimately show ?thesis unfolding written_def by (intro exI [of _ "cs @ ds"]) auto
qed

lemma written_Flush: "written t i data w \<Longrightarrow> written t i data (w_Flush t i w)"
  using written_sent [of t i data "fst w" "snd w" "[]"] by (simp add: w_Flush_def case_prod_beta)

lemma written_buffer: "written t i data (buf, out) \<Longrightarrow> written t i (data @ p) (buf @ p, out)"
  by (auto simp: written_def)

lemma written_Write: "written t i data w \<Longrightarrow> written t i (data @ p) (w_Write t i p w)"
proof (induction t i p w arbitrary: data rule: w_Write.induct)
  case (1 t i p buf out)
  let ?n = "maxWrite - length buf"
  have "written t i (data @ take ?n p) (w_Flush t i (buf @ take ?n p, out))"
    using written_Flush [OF written_buffer [OF "1.prems"]] .
  note IH = "1.IH" [OF _ _ this]
  show ?case
  proof (cases "length p \<le> ?n")
    case True
    then show ?thesis using "1.prems" by (simp add: w_Write.simps written_buffer)
  next
    case False
    then show ?thesis using IH "1.prems" written_sent [of t i data "[]" out p]
      by (cases "buf = []") (simp_all add: w_Write.simps [of t i p])
  qed
qed

lemma written_WriteString: "written t i data w \<Longrightarrow> written t i (data @ s) (w_WriteString t i s w)"
proof (induction t i s w arbitrary: data rule: w_WriteString.induct)
  case (1 t i s buf out)
  let ?n = "maxWrite - length buf"
  have "written t i (data @ take ?n s) (w_Flush t i (buf @ take ?n s, out))"
    using written_Flush [OF written_buffer [OF "1.prems"]] .
  note IH = "1.IH" [OF _ this]
  show ?case
  proof (cases "length s \<le> ?n")
    case True
    then show ?thesis using "1.prems" by (simp add: w_WriteString.simps written_buffer)
  next
    case False
    then show ?thesis using IH by (simp add: w_WriteString.simps [of t i s])
  qed
qed

lemma written_Close:
  assumes "written t i data w"
  shows "\<exists>cs. w_Close t i w = records t i cs @ writeRecord t i [] \<and> concat cs = data \<and> chunks_ok cs"
proof -
  obtain cs where "snd (w_Flush t i w) = records t i cs" "concat cs @ fst (w_Flush t i w) = data" "chunks_ok cs"
    using written_Flush [OF assms] by (auto simp: written_def)
  then show ?thesis by (auto simp: w_Close_def stream_Close_def w_Flush_def case_prod_beta)
qed

text \<open>The responder's end of a stream: the records up to the empty one.\<close>

function read_until_empty :: "string \<Rightarrow> (string \<times> string) option" where
  "read_until_empty s =
     (case record_read s of
        (Inl e, r) \<Rightarrow> None
      | (Inr b, r) \<Rightarrow>
          if b = [] then Some ([], r)
          else (case read_until_empty r of None \<Rightarrow> None | Some (c, r') \<Rightarrow> Some (b @ c, r')))"
  by auto
termination
  by (relation "measure length") (auto dest!: record_read_shorter [OF sym])

declare read_until_empty.simps [simp del]

lemma wf_chunk: "length c \<le> maxWrite \<Longrightarrow> t < 256 \<Longrightarrow> i < 2 ^ 16 \<Longrightarrow> wf_record t i c"
  by (simp add: wf_record_def maxWrite_def)

lemma read_until_empty_records:
  assumes "t < 256" "t \<noteq> FCGI_END_REQUEST" "i < 2 ^ 16" "chunks_ok cs"
  shows "read_until_empty (records t i cs @ writeRecord t i [] @ s) = Some (concat cs, s)"
  using assms(4)
proof (induction cs)
  case Nil
  have "wf_record t i []" using assms by (simp add: wf_record_def)
  from record_read_write [OF this assms(2)] show ?case by (subst read_until_empty.simps) simp
next
  case (Cons c cs)
  then have "wf_record t i c" using assms by (simp add: wf_chunk)
  from record_read_write [OF this assms(2)] show ?case using Cons by (subst read_until_empty.simps) simp
qed

lemma read_until_empty_Close:
  assumes "t < 256" "t \<noteq> FCGI_END_REQUEST" "i < 2 ^ 16" "written t i data w"
  shows "read_until_empty (w_Close t i w @ s) = Some (data, s)"
  using written_Close [OF assms(4)] read_until_empty_records [OF assms(1-3)] by fastforce

text \<open>The client's end: the contents of the responder's records, up to the end record.\<close>

lemma read_stream_records:
  assumes "t < 256" "t \<noteq> FCGI_END_REQUEST" "i < 2 ^ 16" "chunks_ok cs"
  shows "read_stream (records t i cs @ s) = (case read_stream s of (c, e, r) \<Rightarrow> (concat cs @ c, e, r))"
  using assms(4)
proof (induction cs)
  case (Cons c cs)
  then have "wf_record t i c" using assms by (simp add: wf_chunk)
  from record_read_write [OF this assms(2)] Cons show ?case
    by (subst read_stream.simps) (simp split: prod.splits)
qed (simp split: prod.splits)

lemma read_stream_response:
  assumes "i < 2 ^ 16" "chunks_ok cs"
  shows "read_stream (records FCGI_STDOUT i cs @ writeEndRequest i a p @ s)
     = (concat cs, EOF, be32 (a mod 2 ^ 32) @ [byte p] @ replicate 3 (byte 0) @ s)"
proof -
  have "read_stream (writeEndRequest i a p @ s) = ([], EOF, be32 (a mod 2 ^ 32) @ [byte p] @ replicate 3 (byte 0) @ s)"
    using record_read_end [OF assms(1)] by (subst read_stream.simps) simp
  then show ?thesis
    using read_stream_records [of FCGI_STDOUT i cs "writeEndRequest i a p @ s"] assms by (simp add: FCGI_STDOUT_def FCGI_END_REQUEST_def)
qed

text \<open>The next request on such a connection reads the rest of the end record as a header.\<close>

lemma second_response_fails:
  assumes "a < 2 ^ 24"
  shows "record_read (be32 (a mod 2 ^ 32) @ [byte p] @ replicate 3 (byte 0) @ s) = (Inl (CErr ''fcgi: invalid header version''), s)"
  using assms by (simp add: record_read_def be32_def parse_header_def Let_def)

subsection \<open>Parameters are read back\<close>

lemma length_encodeSize: "length (encodeSize n) \<le> 4"
  by (simp add: encodeSize_def be32_def)

lemma readSize_encodeSize:
  assumes "n < 2 ^ 31"
  shows "readSize (encodeSize n @ s) = (n, length (encodeSize n))"
proof (cases "127 < n")
  case True
  have "\<not> bit n 31" using assms by (simp add: bit_iff_odd div_less)
  then have set: "set_bit 31 n = n + 2 ^ 31" by (simp add: set_bit_eq)
  let ?m = "n + 2 ^ 31 :: nat"
  have "?m < 2 ^ 32" using assms by simp
  then have m: "of_be32 (be32 ?m @ s) = ?m" by (rule of_be32_be32)
  have "unset_bit 31 (set_bit 31 n) = n"
    using \<open>\<not> bit n 31\<close> by (intro bit_eqI) (auto simp: bit_unset_bit_iff bit_set_bit_iff)
  then have "unset_bit 31 ?m = n" by (simp add: set)
  moreover have "bit (byte_at (be32 ?m @ s) 0) 7"
  proof -
    have "?m div 2 ^ 24 mod 256 div 2 ^ 7 = 1" using assms by simp
    then show ?thesis by (simp add: be32_def bit_iff_odd)
  qed
  ultimately show ?thesis using True m by (simp add: readSize_def encodeSize_def set) (simp add: be32_def)
next
  case False
  then have "\<not> bit n 7" by (simp add: bit_iff_odd)
  then show ?thesis using False by (simp add: readSize_def encodeSize_def)
qed

definition enc_pair :: "string \<times> string \<Rightarrow> string" where
  "enc_pair kv = encodeSize (length (fst kv)) @ encodeSize (length (snd kv)) @ fst kv @ snd kv"

text \<open>The responder's decoder of name-value pairs, by \<open>readSize\<close> and \<open>readString\<close>.\<close>

function read_pairs :: "string \<Rightarrow> (string \<times> string) list" where
  "read_pairs s =
     (if s = [] then []
      else
        (let (kn, n1) = readSize s; (vn, n2) = readSize (drop n1 s);
             r = drop (n1 + n2) s
         in if n1 = 0 \<or> n2 = 0 then []
            else (readString r kn, readString (drop kn r) vn) # read_pairs (drop (kn + vn) r)))"
  by auto
termination
  by (relation "measure length") auto

declare read_pairs.simps [simp del]

definition pair_fits :: "string \<times> string \<Rightarrow> bool" where
  "pair_fits kv \<longleftrightarrow> 8 + length (fst kv) + length (snd kv) \<le> maxWrite"

lemma read_pairs_enc:
  assumes "pair_fits kv"
  shows "read_pairs (enc_pair kv @ s) = kv # read_pairs s"
proof -
  let ?k = "fst kv" and ?v = "snd kv"
  have b: "length ?k < 2 ^ 31" "length ?v < 2 ^ 31" using assms by (simp_all add: pair_fits_def maxWrite_def)
  have ne: "encodeSize m \<noteq> []" for m by (simp add: encodeSize_def be32_def)
  have r1: "readSize (enc_pair kv @ s) = (length ?k, length (encodeSize (length ?k)))"
    using readSize_encodeSize [OF b(1)] by (simp add: enc_pair_def)
  have "drop (length (encodeSize (length ?k))) (enc_pair kv @ s) = encodeSize (length ?v) @ ?k @ ?v @ s"
    by (simp add: enc_pair_def)
  then have r2: "readSize (drop (length (encodeSize (length ?k))) (enc_pair kv @ s)) = (length ?v, length (encodeSize (length ?v)))"
    using readSize_encodeSize [OF b(2)] by simp
  have d: "drop (length (encodeSize (length ?k)) + length (encodeSize (length ?v))) (enc_pair kv @ s) = ?k @ ?v @ s"
    by (simp add: enc_pair_def)
  have "enc_pair kv @ s \<noteq> []" using ne by (simp add: enc_pair_def)
  then show ?thesis
    using r1 r2 d ne by (simp only: read_pairs.simps [of "enc_pair kv @ s"]) (simp add: readString_def)
qed

lemma read_pairs_all: "list_all pair_fits ps \<Longrightarrow> read_pairs (concat (map enc_pair ps)) = ps"
  by (induction ps) (simp_all add: read_pairs_enc read_pairs.simps [of "[]"])

lemma write_pair_written:
  assumes "pair_fits (k, v)" "written t i data (snd nw)"
  shows "\<exists>nw'. write_pair t i k v nw = Ret nw' \<and> written t i (data @ enc_pair (k, v)) (snd nw')"
proof -
  let ?b = "encodeSize (length k) @ encodeSize (length v)"
  obtain nn w where w: "(if maxWrite < fst nw + (length ?b + length k + length v) then (0, w_Flush t i (snd nw)) else nw) = (nn, w)"
    by (rule prod.exhaust)
  then have "written t i data w" using assms(2) by (auto simp: written_Flush split: if_splits)
  from written_WriteString [OF written_WriteString [OF written_Write [OF this, of ?b], of k], of v]
  show ?thesis using w assms(1) by (auto simp: write_pair_def pair_fits_def enc_pair_def Let_def)
qed

lemma pairs_loop_written:
  "list_all pair_fits ps \<Longrightarrow> written t i data (snd nw) \<Longrightarrow>
   \<exists>w. pairs_loop t i ps nw = Ret w \<and> written t i (data @ concat (map enc_pair ps)) w"
proof (induction ps arbitrary: data nw)
  case (Cons kv ps)
  obtain nw' where "write_pair t i (fst kv) (snd kv) nw = Ret nw'" "written t i (data @ enc_pair kv) (snd nw')"
    using write_pair_written [of "fst kv" "snd kv" t i data nw] Cons.prems by auto
  then show ?case using Cons.IH [of "data @ enc_pair kv" nw'] Cons.prems(1) by simp
qed simp

text \<open>A responder that reads the bytes of a request: the begin record, the parameters, the body.\<close>

definition responder :: "string \<Rightarrow> (string \<times> (string \<times> string) list \<times> string \<times> string) option" where
  "responder s =
     (case record_read s of
        (Inl e, _) \<Rightarrow> None
      | (Inr b, r) \<Rightarrow>
          (case read_until_empty r of
             None \<Rightarrow> None
           | Some (ps, r1) \<Rightarrow>
               (case read_until_empty r1 of
                  None \<Rightarrow> None
                | Some (body, r2) \<Rightarrow> Some (b, read_pairs ps, body, r2))))"

lemma responder_Do:
  assumes "list_all pair_fits p" "f_reqId c < 2 ^ 16"
  shows "\<exists>bytes. fcgi_Do c p (Some body) = Ret bytes
     \<and> responder (bytes @ s) = Some ([byte 0, byte 1, byte (if f_keepAlive c then 1 else 0)] @ replicate 5 (byte 0), p, body, s)"
proof -
  let ?i = "f_reqId c"
  obtain w where w: "pairs_loop FCGI_PARAMS ?i p (0, [], []) = Ret w" "written FCGI_PARAMS ?i (concat (map enc_pair p)) w"
    using pairs_loop_written [OF assms(1), of FCGI_PARAMS ?i "[]" "(0, [], [])"] by (auto simp: written_init)
  have "written FCGI_STDIN ?i body (w_Write FCGI_STDIN ?i body ([], []))"
    using written_Write [OF written_init, of FCGI_STDIN ?i body] by simp
  then have body: "read_until_empty (w_Close FCGI_STDIN ?i (w_Write FCGI_STDIN ?i body ([], [])) @ s) = Some (body, s)"
    using assms(2) by (intro read_until_empty_Close) (simp_all add: FCGI_STDIN_def FCGI_END_REQUEST_def)
  have params: "read_until_empty (w_Close FCGI_PARAMS ?i w @ t) = Some (concat (map enc_pair p), t)" for t
    using w(2) assms(2) by (intro read_until_empty_Close) (simp_all add: FCGI_PARAMS_def FCGI_END_REQUEST_def)
  let ?b = "[byte 0, byte 1, byte (if f_keepAlive c then 1 else 0)] @ replicate 5 (byte 0)"
  have "wf_record FCGI_BEGIN_REQUEST ?i ?b" using assms(2) by (simp add: wf_record_def FCGI_BEGIN_REQUEST_def)
  from record_read_write [OF this]
  have "record_read (writeBeginRequest ?i FCGI_RESPONDER (if f_keepAlive c then FCGI_KEEP_CONN else 0) @ t) = (Inr ?b, t)" for t
    by (cases "f_keepAlive c")
       (simp_all add: writeBeginRequest_def FCGI_BEGIN_REQUEST_def FCGI_END_REQUEST_def FCGI_RESPONDER_def FCGI_KEEP_CONN_def)
  then show ?thesis
    using w(1) body params read_pairs_all [OF assms(1)]
    by (simp add: fcgi_Do_def writePairs_def responder_def)
qed

end
