(* ===== verification/Cgi.thy ===== *)
theory Cgi
  imports CgiPool
begin

text \<open>
  The sender of a topic served over CGI (\<open>cgi.go\<close>): the request over a pooled connection, the
  attempts on a broken connection, and reading the status page of PHP-FPM.

  The lemmas show that a request gives its connection back to the pool however it ends, that it fails
  only with an error that is not worth another attempt or after six attempts, and what the parser of
  the status page keeps of a line.
\<close>

record CgiManager =
  cm_cgiConfigKey :: string
  cm_scriptEntry :: string

definition NewCgiManager :: "string \<Rightarrow> string \<Rightarrow> CgiManager" where
  "NewCgiManager key entry = \<lparr>cm_cgiConfigKey = key, cm_scriptEntry = entry\<rparr>"

definition GetEnv :: "CgiManager \<Rightarrow> (string, string) gomap" where
  "GetEnv cm = [(''SCRIPT_FILENAME'', cm_scriptEntry cm)]"

definition GetParams :: "string \<Rightarrow> url_Values" where
  "GetParams typ = [(''IS_PEPPER_BUS_REQUEST'', [''true'']), (''type'', [typ])]"

type_synonym 'w cgi_state = "CgiConnPoolManager \<times> 'w"

subsection \<open>One request\<close>

text \<open>Storing the pool, which the code changes in place, back under its key.\<close>

definition with_pool :: "string \<Rightarrow> CgiConnPool \<times> 'w \<Rightarrow> CgiConnPoolManager \<Rightarrow> 'w cgi_state" where
  "with_pool key cw pm = (AList.update key (fst cw) pm, snd cw)"

definition cm_getConn ::
  "'w cgi_dev \<Rightarrow> CgiManager \<Rightarrow> 'w cgi_state \<Rightarrow> ((cgi_err + CgiConn) \<times> 'w cgi_state) option" where
  "cm_getConn dev cm s =
     (case pm_Get (fst s) (cm_cgiConfigKey cm) of
        Inl e \<Rightarrow> Some (Inl e, s)
      | Inr cp \<Rightarrow>
          (case GetConn dev cp (snd s) of
             None \<Rightarrow> None
           | Some (c, cw) \<Rightarrow> Some (Inr c, with_pool (cm_cgiConfigKey cm) cw (fst s))))"

definition cm_newConnReal ::
  "'w cgi_dev \<Rightarrow> CgiManager \<Rightarrow> 'w cgi_state \<Rightarrow> (cgi_err + CgiConn) \<times> 'w cgi_state" where
  "cm_newConnReal dev cm s =
     (case pm_Get (fst s) (cm_cgiConfigKey cm) of
        Inl e \<Rightarrow> (Inl e, s)
      | Inr cp \<Rightarrow> (case newConnReal dev cp (snd s) of (r, cw) \<Rightarrow> (r, with_pool (cm_cgiConfigKey cm) cw (fst s))))"

text \<open>The deferred \<open>cgi.Close()\<close>.\<close>

definition give_back :: "'w cgi_dev \<Rightarrow> CgiManager \<Rightarrow> CgiConn \<Rightarrow> 'w cgi_state \<Rightarrow> 'w cgi_state" where
  "give_back dev cm c s =
     (case map_of (fst s) (cm_cgiConfigKey cm) of
        None \<Rightarrow> s
      | Some cp \<Rightarrow> with_pool (cm_cgiConfigKey cm) (CgiConn_Close dev c cp (snd s)) (fst s))"

text \<open>\<open>request\<close> after the connection has been obtained. The body is read before the connection goes back.\<close>

definition cgi_exchange ::
  "'w cgi_dev \<Rightarrow> CgiManager \<Rightarrow> (string, string) gomap \<Rightarrow> url_Values \<Rightarrow> CgiConn \<Rightarrow> 'w cgi_state \<Rightarrow>
   (cgi_err + WorkerResponse) \<times> 'w cgi_state" where
  "cgi_exchange dev cm cgi_env params c s =
     (case CgiConn_Send dev c cgi_env params (snd s) of
        (r, c', w) \<Rightarrow>
          (case r of
             Inl e \<Rightarrow> Inl e
           | Inr resp \<Rightarrow>
               (case ht_Body resp of
                  Inl t \<Rightarrow> Inl (CErr t)
                | Inr body \<Rightarrow>
                    Inr \<lparr>Code = (if Header_Get resp ''Code'' = [] then InnerError else Header_Get resp ''Code''),
                          ErrorCode = Header_Get resp ''Error-Code'',
                          ConsumeTopics = Header_Get resp ''Consume-Topics'', Msg = body\<rparr>),
           give_back dev cm c' (fst s, w)))"

definition cgi_request ::
  "'w cgi_dev \<Rightarrow> CgiManager \<Rightarrow> (string, string) gomap \<Rightarrow> url_Values \<Rightarrow> bool \<Rightarrow> 'w cgi_state \<Rightarrow>
   ((cgi_err + WorkerResponse) \<times> 'w cgi_state) option" where
  "cgi_request dev cm cgi_env params isNew s =
     (case (if isNew then Some (cm_newConnReal dev cm s) else cm_getConn dev cm s) of
        None \<Rightarrow> None
      | Some (Inl e, s1) \<Rightarrow> Some (Inl e, s1)
      | Some (Inr c, s1) \<Rightarrow> Some (cgi_exchange dev cm cgi_env params c s1))"

subsection \<open>Attempts\<close>

definition retryable :: "cgi_err \<Rightarrow> bool" where
  "retryable e \<longleftrightarrow> e = EOF \<or> strings_Contains (cgi_err_text e) ''reset by peer'' \<or> strings_Contains (cgi_err_text e) ''broken pipe''"

text \<open>The loop with \<open>n = 5 - retryTimes\<close>; after a failure every attempt opens a connection of its own.\<close>

fun Request_loop ::
  "'w cgi_dev \<Rightarrow> CgiManager \<Rightarrow> (string, string) gomap \<Rightarrow> url_Values \<Rightarrow> bool \<Rightarrow> nat \<Rightarrow> 'w cgi_state \<Rightarrow>
   ((cgi_err + WorkerResponse) \<times> 'w cgi_state) option" where
  "Request_loop dev cm cgi_env params isNew 0 s = cgi_request dev cm cgi_env params isNew s"
| "Request_loop dev cm cgi_env params isNew (Suc n) s =
     (case cgi_request dev cm cgi_env params isNew s of
        None \<Rightarrow> None
      | Some (Inr resp, s1) \<Rightarrow> Some (Inr resp, s1)
      | Some (Inl e, s1) \<Rightarrow>
          if retryable e
          then Request_loop dev cm cgi_env params True n (fst s1, cd_sleep dev 200000000 (snd s1))
          else Some (Inl e, s1))"

definition cgi_Request ::
  "'w cgi_dev \<Rightarrow> CgiManager \<Rightarrow> (string, string) gomap \<Rightarrow> url_Values \<Rightarrow> bool \<Rightarrow> 'w cgi_state \<Rightarrow>
   ((cgi_err + WorkerResponse) \<times> 'w cgi_state) option" where
  "cgi_Request dev cm cgi_env params isNew s =
     Request_loop dev cm cgi_env (Values_Add params ''IS_PEPPER_BUS_REQUEST'' ''true'') isNew 5 s"

definition cm_SendPing ::
  "'w cgi_dev \<Rightarrow> CgiManager \<Rightarrow> 'w cgi_state \<Rightarrow> ((cgi_err + WorkerResponse) \<times> 'w cgi_state) option" where
  "cm_SendPing dev cm s = cgi_Request dev cm (GetEnv cm) (GetParams RequestTypePing) False s"

definition cm_SendJobs ::
  "'w cgi_dev \<Rightarrow> CgiManager \<Rightarrow> Jobs \<Rightarrow> 'w cgi_state \<Rightarrow> ((cgi_err + WorkerResponse) \<times> 'w cgi_state) option" where
  "cm_SendJobs dev cm jobs s =
     (let params = Values_Add (Values_Add (Values_Add (Values_Add (GetParams RequestTypeData)
            ''outTraceId'' (outTraceId jobs)) ''queue'' (queueName jobs)) ''topic'' (topicName jobs)) ''jobs'' (jobs_json jobs)
      in cgi_Request dev cm (GetEnv cm) params False s)"

subsection \<open>The connection comes back\<close>

definition cgi_held :: "CgiManager \<Rightarrow> nat \<Rightarrow> CgiConnPoolManager \<Rightarrow> bool" where
  "cgi_held cm out pm \<longleftrightarrow> (\<exists>cp. map_of pm (cm_cgiConfigKey cm) = Some cp \<and> cgi_inv out cp)"

lemma give_back_held: "cgi_held cm (Suc out) (fst s) \<Longrightarrow> cgi_held cm out (fst (give_back dev cm c s))"
  by (auto simp: cgi_held_def give_back_def with_pool_def CgiConn_Close_inv)

lemma cgi_exchange_held:
  "cgi_held cm (Suc out) (fst s) \<Longrightarrow> cgi_held cm out (fst (snd (cgi_exchange dev cm cgi_env params c s)))"
  by (simp add: cgi_exchange_def give_back_held case_prod_beta)

lemma cgi_request_held:
  assumes "cgi_request dev cm cgi_env params isNew s = Some (r, s')" "cgi_held cm out (fst s)"
  shows "cgi_held cm out (fst s')"
proof -
  obtain cp where cp: "map_of (fst s) (cm_cgiConfigKey cm) = Some cp" "cgi_inv out cp"
    using assms(2) by (auto simp: cgi_held_def)
  obtain q s1 where q: "(if isNew then Some (cm_newConnReal dev cm s) else cm_getConn dev cm s) = Some (q, s1)"
    using assms(1) by (auto simp: cgi_request_def split: option.splits)
  have s1: "cgi_held cm (case q of Inl e \<Rightarrow> out | Inr c \<Rightarrow> Suc out) (fst s1)"
  proof (cases isNew)
    case True
    obtain q' cp' w' where n: "newConnReal dev cp (snd s) = (q', cp', w')" by (cases "newConnReal dev cp (snd s)")
    have "q = q'" "s1 = (AList.update (cm_cgiConfigKey cm) cp' (fst s), w')"
      using True q cp(1) n by (auto simp: cm_newConnReal_def pm_Get_def with_pool_def)
    then show ?thesis using newConnReal_inv [OF n cp(2)] cp by (auto simp: cgi_held_def)
  next
    case False
    then obtain c cw where g: "GetConn dev cp (snd s) = Some (c, cw)" "q = Inr c" "s1 = with_pool (cm_cgiConfigKey cm) cw (fst s)"
      using q cp(1) by (auto simp: cm_getConn_def pm_Get_def split: option.splits)
    then show ?thesis using GetConn_inv [of dev cp "snd s" c "fst cw" "snd cw" out] cp(2)
      by (simp add: cgi_held_def with_pool_def)
  qed
  show ?thesis
  proof (cases q)
    case (Inl e)
    then show ?thesis using assms(1) q s1 by (simp add: cgi_request_def split: if_splits)
  next
    case (Inr c)
    then have "(r, s') = cgi_exchange dev cm cgi_env params c s1"
      using assms(1) q by (simp add: cgi_request_def split: if_splits)
    then show ?thesis using cgi_exchange_held [of cm out s1 dev cgi_env params c] s1 Inr by (metis snd_conv sum.case(2))
  qed
qed

lemma Request_loop_held:
  "Request_loop dev cm cgi_env params isNew n s = Some (r, s') \<Longrightarrow> cgi_held cm out (fst s) \<Longrightarrow> cgi_held cm out (fst s')"
proof (induction n arbitrary: isNew s)
  case (Suc n)
  then obtain q s1 where q: "cgi_request dev cm cgi_env params isNew s = Some (q, s1)"
    by (auto split: option.splits)
  from cgi_request_held [OF q Suc.prems(2)] have "cgi_held cm out (fst s1)" .
  then show ?case using Suc.IH [of True] Suc.prems(1) q by (auto split: sum.splits if_splits)
qed (simp add: cgi_request_held)

text \<open>A request that fails has met an error that is not worth another attempt, or has failed six times.\<close>

fun attempts ::
  "'w cgi_dev \<Rightarrow> CgiManager \<Rightarrow> (string, string) gomap \<Rightarrow> url_Values \<Rightarrow> bool \<Rightarrow> 'w cgi_state \<Rightarrow> cgi_err list \<Rightarrow> 'w cgi_state \<Rightarrow> bool" where
  "attempts dev cm cgi_env params isNew s [] s' = (s' = s)"
| "attempts dev cm cgi_env params isNew s (e # es) s' =
     (\<exists>s1. cgi_request dev cm cgi_env params isNew s = Some (Inl e, s1)
       \<and> (if es = [] then s' = s1
          else attempts dev cm cgi_env params True (fst s1, cd_sleep dev 200000000 (snd s1)) es s'))"

lemma Request_loop_fails:
  "Request_loop dev cm cgi_env params isNew n s = Some (Inl e, s') \<Longrightarrow>
   \<exists>es. attempts dev cm cgi_env params isNew s (es @ [e]) s' \<and> list_all retryable es \<and> length es \<le> n
      \<and> (length es = n \<or> \<not> retryable e)"
proof (induction n arbitrary: isNew s)
  case 0
  then show ?case by (intro exI [of _ "[]"]) simp
next
  case (Suc n)
  then obtain q s1 where q: "cgi_request dev cm cgi_env params isNew s = Some (Inl q, s1)"
    by (auto split: option.splits sum.splits)
  show ?case
  proof (cases "retryable q")
    case True
    then obtain es where es: "attempts dev cm cgi_env params True (fst s1, cd_sleep dev 200000000 (snd s1)) (es @ [e]) s'"
      "list_all retryable es" "length es \<le> n" "length es = n \<or> \<not> retryable e"
      using Suc.IH [of True] Suc.prems q by auto
    then show ?thesis using True q by (intro exI [of _ "q # es"]) auto
  next
    case False
    then show ?thesis using Suc.prems q by (intro exI [of _ "[]"]) auto
  qed
qed

subsection \<open>The status page\<close>

record CGIStatus =
  st_Pool :: string
  st_ProcessManager :: string
  st_StartTime :: string
  st_StartSince :: string
  st_AcceptedConn :: string
  st_ListenQueue :: string
  st_MaxListenQueue :: string
  st_ListenQueueLen :: string
  st_IdleProcesses :: string
  st_ActiveProcesses :: string
  st_TotalProcesses :: string
  st_MaxActiveProcesses :: string
  st_MaxChildrenReached :: string
  st_SlowRequests :: string

definition new_CGIStatus :: CGIStatus where
  "new_CGIStatus = \<lparr>st_Pool = [], st_ProcessManager = [], st_StartTime = [], st_StartSince = [], st_AcceptedConn = [],
     st_ListenQueue = [], st_MaxListenQueue = [], st_ListenQueueLen = [], st_IdleProcesses = [], st_ActiveProcesses = [],
     st_TotalProcesses = [], st_MaxActiveProcesses = [], st_MaxChildrenReached = [], st_SlowRequests = []\<rparr>"

text \<open>\<open>strings.TrimSpace\<close> on ASCII text, which the status page is.\<close>

definition ascii_space :: "char \<Rightarrow> bool" where
  "ascii_space c \<longleftrightarrow> (of_char c :: nat) \<in> {9, 10, 11, 12, 13, 32}"

definition TrimSpace :: "string \<Rightarrow> string" where
  "TrimSpace s = rev (dropWhile ascii_space (rev (dropWhile ascii_space s)))"

definition status_set :: "string \<Rightarrow> string \<Rightarrow> CGIStatus \<Rightarrow> CGIStatus" where
  "status_set key val ret =
     (if key = ''pool'' then ret\<lparr>st_Pool := val\<rparr>
      else if key = ''process manager'' then ret\<lparr>st_ProcessManager := val\<rparr>
      else if key = ''start time'' then ret\<lparr>st_StartTime := val\<rparr>
      else if key = ''start since'' then ret\<lparr>st_StartSince := val\<rparr>
      else if key = ''accepted conn'' then ret\<lparr>st_AcceptedConn := val\<rparr>
      else if key = ''listen queue'' then ret\<lparr>st_ListenQueue := val\<rparr>
      else if key = ''max listen queue'' then ret\<lparr>st_MaxListenQueue := val\<rparr>
      else if key = ''listen queue len'' then ret\<lparr>st_ListenQueueLen := val\<rparr>
      else if key = ''idle processes'' then ret\<lparr>st_IdleProcesses := val\<rparr>
      else if key = ''active processes'' then ret\<lparr>st_ActiveProcesses := val\<rparr>
      else if key = ''total processes'' then ret\<lparr>st_TotalProcesses := val\<rparr>
      else if key = ''max active processes'' then ret\<lparr>st_MaxActiveProcesses := val\<rparr>
      else if key = ''max children reached'' then ret\<lparr>st_MaxChildrenReached := val\<rparr>
      else if key = ''slow requests'' then ret\<lparr>st_SlowRequests := val\<rparr>
      else ret)"

text \<open>A line without a colon makes \<open>tmp[1]\<close> panic.\<close>

fun status_lines :: "string list \<Rightarrow> CGIStatus \<Rightarrow> CGIStatus go" where
  "status_lines [] ret = Ret ret"
| "status_lines (line # ls) ret =
     (if line = [] then status_lines ls ret
      else (case strings_Split line '':'' of
              k # v # _ \<Rightarrow> status_lines ls (status_set (TrimSpace k) (TrimSpace v) ret)
            | _ \<Rightarrow> Panic))"

definition SendStatus ::
  "'w cgi_dev \<Rightarrow> CgiManager \<Rightarrow> 'w cgi_state \<Rightarrow> ((cgi_err + CGIStatus) \<times> 'w cgi_state) go option" where
  "SendStatus dev cm s =
     (case cm_getConn dev cm s of
        None \<Rightarrow> None
      | Some (Inl e, s1) \<Rightarrow> Some (Ret (Inl e, s1))
      | Some (Inr c, s1) \<Rightarrow>
          (case CgiConn_Send dev c [(''SCRIPT_FILENAME'', ''/status''), (''SCRIPT_NAME'', ''/status'')] [] (snd s1) of
             (r, c', w) \<Rightarrow>
               (let s2 = give_back dev cm c' (fst s1, w) in
                case r of
                  Inl e \<Rightarrow> Some (Ret (Inl e, s2))
                | Inr resp \<Rightarrow>
                    (case ht_Body resp of
                       Inl t \<Rightarrow> Some (Ret (Inl (CErr t), s2))
                     | Inr body \<Rightarrow>
                         Some (go_bind (status_lines (strings_Split body [CHR 0x0A]) new_CGIStatus)
                           (\<lambda>st. Ret (Inr st, s2)))))))"

text \<open>A value is cut at its first colon: of a start time only the part before the hour is kept.\<close>

lemma start_time_cut:
  assumes "CHR '':'' \<notin> set day"
  shows "status_lines [''start time:'' @ day @ '':'' @ time] ret = Ret (ret\<lparr>st_StartTime := TrimSpace day\<rparr>)"
proof -
  have "strings_Split (''start time'' @ CHR '':'' # day @ CHR '':'' # time) '':'' = ''start time'' # day # strings_Split time '':''"
    using assms by (subst strings_Split_sep) (simp_all add: strings_Split_sep)
  then show ?thesis by (simp add: status_set_def TrimSpace_def ascii_space_def)
qed

lemma status_line_panics: "CHR '':'' \<notin> set line \<Longrightarrow> line \<noteq> [] \<Longrightarrow> status_lines (line # ls) ret = Panic"
  by (simp add: strings_Split_no_sep)

end
