(* ===== verification/FcgiResponse.thy ===== *)
theory FcgiResponse
  imports FastCgi Cgi
begin

text \<open>
  The response of a FastCGI responder (\<open>Request\<close>, \<open>Get\<close>, \<open>Post\<close> and \<open>PostForm\<close> of \<open>codec/fastcgi/client.go\<close>) with the
  parts of the library it is read with: \<open>bufio.Reader\<close> over the stream of records,
  \<open>textproto.Reader.ReadMIMEHeader\<close>, \<open>ioutil.ReadAll\<close> and the reader of chunked bodies. The state of
  the reader is its buffer and the bytes still to come on the connection; as in the library, an error that
  meets a peek, a search for a continuation line or an unfinished line is dropped and the next read
  starts on the connection again. Lines are shorter than the buffer, and there are fewer than a
  hundred empty records in a row.

  The lemmas show that a response with a header and a body, cut into records in any way, is read back
  exactly, and that with a responder that follows the protocol the CGI sender runs an application on
  the parameters and the form it was given and gets the codes and the output of that application.
\<close>

subsection \<open>The buffered reader\<close>

definition sp :: "char \<Rightarrow> bool" where
  "sp c \<longleftrightarrow> c = CHR '' '' \<or> c = CHR 0x09"

definition trim_ws :: "string \<Rightarrow> string" where
  "trim_ws s = rev (dropWhile sp (rev (dropWhile sp s)))"

function rd_fill :: "string \<Rightarrow> cgi_err option \<times> string \<times> string" where
  "rd_fill conn =
     (case record_read conn of
        (Inl e, r) \<Rightarrow> (Some e, [], r)
      | (Inr b, r) \<Rightarrow> if b = [] then rd_fill r else (None, b, r))"
  by auto
termination
  by (relation "measure length") (auto dest!: record_read_shorter [OF sym])

declare rd_fill.simps [simp del]

lemma record_read_rest: "record_read s = (x, r) \<Longrightarrow> length r \<le> length s"
  by (auto simp: record_read_def Let_def split: if_splits)

lemma rd_fill_some: "rd_fill conn = (Some e, b, r) \<Longrightarrow> length r \<le> length conn"
proof (induction conn rule: rd_fill.induct)
  case (1 conn)
  then show ?case
    by (subst (asm) (2) rd_fill.simps) (fastforce dest: record_read_rest record_read_shorter split: prod.splits sum.splits if_splits)
qed

text \<open>A record of content \<open>b\<close> takes its header and at least \<open>b\<close> of the connection.\<close>

lemma record_read_takes: "record_read s = (Inr b, r) \<Longrightarrow> length r + length b < length s"
  by (auto simp: record_read_def Let_def split: if_splits)

lemma rd_fill_none: "rd_fill conn = (None, b, r) \<Longrightarrow> b \<noteq> [] \<and> length r + length b < length conn"
proof (induction conn rule: rd_fill.induct)
  case (1 conn)
  then show ?case
    by (subst (asm) (2) rd_fill.simps) (fastforce dest: record_read_takes split: prod.splits sum.splits if_splits)
qed

definition rd_peek :: "string \<times> string \<Rightarrow> string \<times> string" where
  "rd_peek s = (if fst s \<noteq> [] then s else snd (rd_fill (snd s)))"

definition chop_CR :: "string \<Rightarrow> string" where
  "chop_CR l = (if l \<noteq> [] \<and> last l = CR then butlast l else l)"

function rd_line :: "string \<Rightarrow> string \<Rightarrow> (cgi_err + string) \<times> string \<times> string" where
  "rd_line buf conn =
     (if LF \<in> set buf then (Inr (chop_CR (takeWhile (\<lambda>c. c \<noteq> LF) buf)), tl (dropWhile (\<lambda>c. c \<noteq> LF) buf), conn)
      else
        (case rd_fill conn of
           (Some e, _, r) \<Rightarrow> (if buf = [] then Inl e else Inr buf, [], r)
         | (None, b, r) \<Rightarrow> rd_line (buf @ b) r))"
  by auto
termination
  by (relation "measure (\<lambda>(_, conn). length conn)") (auto dest!: rd_fill_none [OF sym])

text \<open>Skips spaces; whether there were any.\<close>

function rd_skip :: "bool \<Rightarrow> string \<Rightarrow> string \<Rightarrow> bool \<times> string \<times> string" where
  "rd_skip found buf conn =
     (case dropWhile sp buf of
        c # s \<Rightarrow> (found \<or> sp (hd buf), c # s, conn)
      | [] \<Rightarrow>
          (case rd_fill conn of
             (Some e, _, r) \<Rightarrow> (found \<or> buf \<noteq> [], [], r)
           | (None, b, r) \<Rightarrow> rd_skip (found \<or> buf \<noteq> []) b r))"
  by auto
termination
  by (relation "measure (\<lambda>(_, _, conn). length conn)") (auto dest!: rd_fill_none [OF sym])

declare rd_line.simps [simp del] rd_skip.simps [simp del]

lemma rd_line_len:
  "rd_line buf conn = (x, b, r) \<Longrightarrow> length b + length r \<le> length buf + length conn
     \<and> (\<forall>l. x = Inr l \<longrightarrow> length b + length r < length buf + length conn)"
proof (induction buf conn rule: rd_line.induct)
  case (1 buf conn)
  show ?case
  proof (cases "LF \<in> set buf")
    case True
    then have "dropWhile (\<lambda>c. c \<noteq> LF) buf \<noteq> []" by auto
    then have "length (tl (dropWhile (\<lambda>c. c \<noteq> LF) buf)) < length buf"
      using length_dropWhile_le [of "\<lambda>c. c \<noteq> LF" buf] by (cases "dropWhile (\<lambda>c. c \<noteq> LF) buf") auto
    then show ?thesis using "1.prems" True by (subst (asm) rd_line.simps) auto
  next
    case False
    obtain e b' r' where fill: "rd_fill conn = (e, b', r')" by (cases "rd_fill conn")
    show ?thesis
    proof (cases e)
      case (Some err)
      then show ?thesis using "1.prems" False fill rd_fill_some [of conn err b' r']
        by (subst (asm) rd_line.simps) (cases buf; auto)
    next
      case None
      have "rd_line (buf @ b') r' = (x, b, r)" using "1.prems" False fill None by (subst (asm) rd_line.simps) simp
      then show ?thesis using "1.IH" [OF False fill [symmetric] None refl] rd_fill_none [of conn b' r'] fill None by auto
    qed
  qed
qed

lemmas rd_line_shorter = rd_line_len [THEN conjunct2, THEN spec, THEN mp, OF _ refl]
lemmas rd_line_rest = rd_line_len [THEN conjunct1]

lemma rd_skip_shorter: "rd_skip found buf conn = (f, b, r) \<Longrightarrow> length b + length r \<le> length buf + length conn"
proof (induction found buf conn rule: rd_skip.induct)
  case (1 found buf conn)
  obtain e b' r' where fill: "rd_fill conn = (e, b', r')" by (cases "rd_fill conn")
  show ?case
  proof (cases "dropWhile sp buf")
    case (Cons c s)
    then show ?thesis using "1.prems" length_dropWhile_le [of sp buf] by (subst (asm) rd_skip.simps) auto
  next
    case Nil
    show ?thesis
    proof (cases e)
      case (Some err)
      then show ?thesis using "1.prems" Nil fill rd_fill_some [of conn err b' r'] by (subst (asm) rd_skip.simps) auto
    next
      case None
      have "rd_skip (found \<or> buf \<noteq> []) b' r' = (f, b, r)" using "1.prems" Nil fill None by (subst (asm) rd_skip.simps) simp
      then show ?thesis using "1.IH" [OF Nil fill [symmetric] None refl] rd_fill_none [of conn b' r'] fill None by auto
    qed
  qed
qed

subsection \<open>The header\<close>

text \<open>\<open>readContinuedLineSlice\<close>: lines that begin with a space continue the line before.\<close>

function rd_more :: "string \<Rightarrow> string \<Rightarrow> string \<Rightarrow> string \<times> string \<times> string" where
  "rd_more acc buf conn =
     (case rd_skip False buf conn of
        (f, b, r) \<Rightarrow>
          if \<not> f then (acc, b, r)
          else (case rd_line b r of
                  (Inl e, s2) \<Rightarrow> (acc, s2)
                | (Inr line, b2, r2) \<Rightarrow> rd_more (acc @ '' '' @ trim_ws line) b2 r2))"
  by auto
termination
  by (relation "measure (\<lambda>(_, buf, conn). length buf + length conn)")
     (auto dest!: rd_skip_shorter [OF sym] rd_line_shorter [OF sym])

definition rd_continued :: "string \<Rightarrow> string \<Rightarrow> (cgi_err + string) \<times> string \<times> string" where
  "rd_continued buf conn =
     (case rd_line buf conn of
        (Inl e, s) \<Rightarrow> (Inl e, s)
      | (Inr line, b, r) \<Rightarrow>
          if line = [] then (Inr [], b, r) else (case rd_more (trim_ws line) b r of (kv, s) \<Rightarrow> (Inr kv, s)))"

declare rd_more.simps [simp del]

definition token_char :: "char \<Rightarrow> bool" where
  "token_char c \<longleftrightarrow>
     (let n = (of_char c :: nat) in (48 \<le> n \<and> n \<le> 57) \<or> (65 \<le> n \<and> n \<le> 90) \<or> (97 \<le> n \<and> n \<le> 122))
     \<or> c \<in> set ''!#$%&*+-.^_|~'' \<or> c = CHR 0x27 \<or> c = CHR 0x60"

fun canonical_from :: "bool \<Rightarrow> string \<Rightarrow> string" where
  "canonical_from up [] = []"
| "canonical_from up (c # s) =
     (let n = (of_char c :: nat);
          d = (if up \<and> 97 \<le> n \<and> n \<le> 122 then char_of (n - 32) else if \<not> up \<and> 65 \<le> n \<and> n \<le> 90 then char_of (n + 32) else c)
      in d # canonical_from (c = CHR ''-'') s)"

definition canonicalMIMEHeaderKey :: "string \<Rightarrow> string" where
  "canonicalMIMEHeaderKey k = (if list_all token_char k then canonical_from True k else k)"

lemma rd_more_shorter: "rd_more acc buf conn = (kv, b, r) \<Longrightarrow> length b + length r \<le> length buf + length conn"
proof (induction acc buf conn rule: rd_more.induct)
  case (1 acc buf conn)
  obtain f b1 r1 where skip: "rd_skip False buf conn = (f, b1, r1)" by (cases "rd_skip False buf conn")
  obtain x b2 r2 where line: "rd_line b1 r1 = (x, b2, r2)" by (cases "rd_line b1 r1")
  note len = rd_skip_shorter [OF skip] rd_line_rest [OF line]
  show ?case
  proof (cases x)
    case (Inl e)
    then show ?thesis using "1.prems" skip line len by (subst (asm) rd_more.simps) (auto split: if_splits)
  next
    case (Inr l)
    show ?thesis
    proof (cases f)
      case True
      have "rd_more (acc @ '' '' @ trim_ws l) b2 r2 = (kv, b, r)" using "1.prems" skip line Inr True by (subst (asm) rd_more.simps) simp
      then show ?thesis using "1.IH" [OF skip [symmetric] refl _ line [symmetric] Inr refl] True len by simp
    next
      case False
      then show ?thesis using "1.prems" skip len by (subst (asm) rd_more.simps) simp
    qed
  qed
qed

lemma rd_continued_shorter: "rd_continued buf conn = (Inr kv, b, r) \<Longrightarrow> length b + length r < length buf + length conn"
  using rd_line_shorter rd_more_shorter
  by (fastforce simp: rd_continued_def split: prod.splits sum.splits if_splits)

definition header_key :: "string \<Rightarrow> string" where
  "header_key kv = canonicalMIMEHeaderKey (rev (dropWhile (\<lambda>c. c = CHR '' '') (rev (takeWhile (\<lambda>c. c \<noteq> CHR '':'') kv))))"

definition header_value :: "string \<Rightarrow> string" where
  "header_value kv = dropWhile sp (drop 1 (dropWhile (\<lambda>c. c \<noteq> CHR '':'') kv))"

function mime_loop :: "url_Values \<Rightarrow> string \<Rightarrow> string \<Rightarrow> cgi_err option \<times> url_Values \<times> string \<times> string" where
  "mime_loop m buf conn =
     (case rd_continued buf conn of
        (Inl e, s) \<Rightarrow> (Some e, m, s)
      | (Inr kv, b, r) \<Rightarrow>
          if kv = [] then (None, m, b, r)
          else if CHR '':'' \<notin> set kv then (Some (CErr (''malformed MIME header line: '' @ kv)), m, b, r)
          else if header_key kv = [] then mime_loop m b r
          else mime_loop (Values_Add m (header_key kv) (header_value kv)) b r)"
  by auto
termination
  by (relation "measure (\<lambda>(_, buf, conn). length buf + length conn)") (auto dest!: rd_continued_shorter [OF sym])

declare mime_loop.simps [simp del]

definition ReadMIMEHeader :: "string \<times> string \<Rightarrow> cgi_err option \<times> url_Values \<times> string \<times> string" where
  "ReadMIMEHeader s =
     (case rd_peek (rd_peek s) of
        (buf, conn) \<Rightarrow>
          if buf \<noteq> [] \<and> sp (hd buf)
          then (case rd_line buf conn of
                  (Inl e, s') \<Rightarrow> (Some e, [], s')
                | (Inr line, s') \<Rightarrow> (Some (CErr (''malformed MIME header initial line: '' @ line)), [], s'))
          else mime_loop [] buf conn)"

subsection \<open>The body\<close>

definition ReadAll :: "string \<Rightarrow> string \<Rightarrow> (string + string) \<times> string" where
  "ReadAll buf conn =
     (case read_stream conn of (c, e, r) \<Rightarrow> (if e = EOF then Inr (buf @ c) else Inl (cgi_err_text e), r))"

definition no_EOF :: "cgi_err \<Rightarrow> string" where
  "no_EOF e = (if e = EOF then ''unexpected EOF'' else cgi_err_text e)"

function chunk_line :: "string \<Rightarrow> string \<Rightarrow> (string + string) \<times> string \<times> string" where
  "chunk_line buf conn =
     (if LF \<in> set buf
      then (Inr (takeWhile (\<lambda>c. c \<noteq> CHR '';'')
             (rev (dropWhile (\<lambda>c. sp c \<or> c = CR) (rev (takeWhile (\<lambda>c. c \<noteq> LF) buf))))), tl (dropWhile (\<lambda>c. c \<noteq> LF) buf), conn)
      else
        (case rd_fill conn of
           (Some e, _, r) \<Rightarrow> (Inl (no_EOF e), [], r)
         | (None, b, r) \<Rightarrow> chunk_line (buf @ b) r))"
  by auto
termination
  by (relation "measure (\<lambda>(_, conn). length conn)") (auto dest!: rd_fill_none [OF sym])

fun chunk_len :: "nat \<Rightarrow> nat \<Rightarrow> string \<Rightarrow> string + nat" where
  "chunk_len i n [] = Inr n"
| "chunk_len i n (c # s) =
     (case hex_val c of
        None \<Rightarrow> Inl ''invalid byte in chunk length''
      | Some b \<Rightarrow> if i = 16 then Inl ''http chunk length too large'' else chunk_len (i + 1) (n * 16 + b) s)"

function rd_take :: "nat \<Rightarrow> string \<Rightarrow> string \<Rightarrow> (string + string) \<times> string \<times> string" where
  "rd_take n buf conn =
     (if n \<le> length buf then (Inr (take n buf), drop n buf, conn)
      else
        (case rd_fill conn of
           (Some e, _, r) \<Rightarrow> (Inl (no_EOF e), [], r)
         | (None, b, r) \<Rightarrow> rd_take n (buf @ b) r))"
  by auto
termination
  by (relation "measure (\<lambda>(_, _, conn). length conn)") (auto dest!: rd_fill_none [OF sym])

declare chunk_line.simps [simp del] rd_take.simps [simp del]

lemma chunk_line_shorter: "chunk_line buf conn = (Inr l, b, r) \<Longrightarrow> length b + length r < length buf + length conn"
proof (induction buf conn rule: chunk_line.induct)
  case (1 buf conn)
  obtain e b' r' where fill: "rd_fill conn = (e, b', r')" by (cases "rd_fill conn")
  show ?case
  proof (cases "LF \<in> set buf")
    case True
    then have "dropWhile (\<lambda>c. c \<noteq> LF) buf \<noteq> []" by auto
    then have "length (tl (dropWhile (\<lambda>c. c \<noteq> LF) buf)) < length buf"
      using length_dropWhile_le [of "\<lambda>c. c \<noteq> LF" buf] by (cases "dropWhile (\<lambda>c. c \<noteq> LF) buf") auto
    then show ?thesis using "1.prems" True by (subst (asm) chunk_line.simps) auto
  next
    case False
    then have e: "e = None" and "chunk_line (buf @ b') r' = (Inr l, b, r)"
      using "1.prems" fill by (subst (asm) chunk_line.simps; cases e; simp)+
    then show ?thesis using "1.IH" [OF False fill [symmetric] e refl] rd_fill_none [of conn b' r'] fill by auto
  qed
qed

lemma rd_take_rest: "rd_take n buf conn = (Inr d, b, r) \<Longrightarrow> length b + length r \<le> length buf + length conn"
proof (induction n buf conn rule: rd_take.induct)
  case (1 n buf conn)
  obtain e b' r' where fill: "rd_fill conn = (e, b', r')" by (cases "rd_fill conn")
  show ?case
  proof (cases "n \<le> length buf")
    case True
    then show ?thesis using "1.prems" by (subst (asm) rd_take.simps) auto
  next
    case False
    then have e: "e = None" and "rd_take n (buf @ b') r' = (Inr d, b, r)"
      using "1.prems" fill by (subst (asm) rd_take.simps; cases e; simp)+
    then show ?thesis using "1.IH" [OF False fill [symmetric] e refl] rd_fill_none [of conn b' r'] fill by auto
  qed
qed

text \<open>\<open>httputil.NewChunkedReader\<close>, read to its end: chunks up to one of length zero.\<close>

function dechunk :: "string \<Rightarrow> string \<Rightarrow> string \<Rightarrow> (string + string) \<times> string" where
  "dechunk acc buf conn =
     (case chunk_line buf conn of
        (Inl e, _, r) \<Rightarrow> (Inl e, r)
      | (Inr line, b1, r1) \<Rightarrow>
          (case chunk_len 0 0 line of
             Inl e \<Rightarrow> (Inl e, r1)
           | Inr n \<Rightarrow>
               if n = 0 then (Inr acc, r1)
               else
                 (case rd_take n b1 r1 of
                    (Inl e, _, r2) \<Rightarrow> (Inl e, r2)
                  | (Inr d, b2, r2) \<Rightarrow>
                      (case rd_take 2 b2 r2 of
                         (Inl e, _, r3) \<Rightarrow> (Inl e, r3)
                       | (Inr t, b3, r3) \<Rightarrow>
                           if t \<noteq> [CR, LF] then (Inl ''malformed chunked encoding'', r3) else dechunk (acc @ d) b3 r3))))"
  by auto
termination
  by (relation "measure (\<lambda>(_, buf, conn). length buf + length conn)")
     (auto dest!: chunk_line_shorter [OF sym] rd_take_rest [OF sym])

declare dechunk.simps [simp del]

definition chunked :: "string list \<Rightarrow> bool" where
  "chunked te \<longleftrightarrow> te \<noteq> [] \<and> hd te = ''chunked''"

subsection \<open>Requests\<close>

text \<open>What \<open>Request\<close> makes of the bytes on the connection: the response, its body read to the end, and the bytes left.\<close>

definition read_response :: "string \<Rightarrow> (cgi_err + http_response) \<times> string" where
  "read_response conn0 =
     (case ReadMIMEHeader ([], conn0) of
        (Some e, m, b, r) \<Rightarrow> (Inl e, r)
      | (None, m, b, r) \<Rightarrow>
          (case (if chunked (case map_of m ''Transfer-Encoding'' of None \<Rightarrow> [] | Some te \<Rightarrow> te) then dechunk [] b r else ReadAll b r) of
             (body, r') \<Rightarrow> (Inr \<lparr>ht_Header = map (\<lambda>(k, vs). (k, hd vs)) m, ht_Body = body\<rparr>, r')))"

text \<open>The socket: the bytes written to it and what can then be read from it.\<close>

definition fcgi_Request ::
  "(string \<Rightarrow> 'w \<Rightarrow> string \<times> 'w) \<Rightarrow> FCGIClient \<Rightarrow> (string, string) gomap \<Rightarrow> string option \<Rightarrow> 'w \<Rightarrow>
   ((cgi_err + http_response) \<times> string \<times> 'w) go" where
  "fcgi_Request net c p req w =
     go_bind (fcgi_Do c p req) (\<lambda>bytes.
     case net bytes w of (arrived, w') \<Rightarrow> (case read_response arrived of (resp, r) \<Rightarrow> Ret (resp, r, w')))"

definition fcgi_Get where
  "fcgi_Get net c p w = fcgi_Request net c (get_env p) None w"

definition fcgi_Post where
  "fcgi_Post net c p bodyType body w = fcgi_Request net c (post_env p bodyType (length body)) (Some body) w"

definition fcgi_PostForm where
  "fcgi_PostForm net c p vals w = fcgi_Post net c p ''application/x-www-form-urlencoded'' (Values_Encode vals) w"

subsection \<open>A response is read back\<close>

text \<open>The reader holds \<open>text\<close>, partly in its buffer and partly in records, before the end \<open>fin\<close> of the connection.\<close>

definition carries :: "nat \<Rightarrow> string \<Rightarrow> string \<Rightarrow> string \<times> string \<Rightarrow> bool" where
  "carries i fin text s \<longleftrightarrow> (\<exists>cs. snd s = records FCGI_STDOUT i cs @ fin \<and> chunks_ok cs \<and> text = fst s @ concat cs)"

lemma rd_fill_record:
  assumes "i < 2 ^ 16" "c \<noteq> []" "length c \<le> maxWrite"
  shows "rd_fill (writeRecord FCGI_STDOUT i c @ r) = (None, c, r)"
proof -
  have "wf_record FCGI_STDOUT i c" using assms by (simp add: wf_chunk FCGI_STDOUT_def)
  from record_read_write [OF this, of r] show ?thesis
    using assms(2) by (subst rd_fill.simps) (simp add: FCGI_STDOUT_def FCGI_END_REQUEST_def)
qed

text \<open>When the buffer does not hold all that is needed, the next record is read into it.\<close>

lemma carries_next:
  assumes "carries i fin text (buf, conn)" "i < 2 ^ 16" "text \<noteq> buf"
  shows "\<exists>c r. rd_fill conn = (None, c, r) \<and> c \<noteq> [] \<and> carries i fin text (buf @ c, r) \<and> length r < length conn"
proof -
  obtain cs where cs: "conn = records FCGI_STDOUT i cs @ fin" "chunks_ok cs" "text = buf @ concat cs"
    using assms(1) by (auto simp: carries_def)
  with assms(3) obtain c ds where d: "cs = c # ds" by (cases cs) auto
  let ?r = "records FCGI_STDOUT i ds @ fin"
  have "rd_fill conn = (None, c, ?r)" using rd_fill_record [OF assms(2), of c ?r] cs d by simp
  moreover have "carries i fin text (buf @ c, ?r)" using cs d by (auto simp: carries_def)
  ultimately show ?thesis using cs d rd_fill_none [of conn c ?r] by auto
qed

lemma rd_line_carries:
  assumes "i < 2 ^ 16" "LF \<notin> set p"
  shows "carries i fin (p @ CR # LF # q) (buf, conn) \<Longrightarrow> \<exists>s. rd_line buf conn = (Inr p, s) \<and> carries i fin q s"
proof (induction "length conn" arbitrary: buf conn rule: less_induct)
  case less
  obtain cs where cs: "conn = records FCGI_STDOUT i cs @ fin" "chunks_ok cs" "p @ CR # LF # q = buf @ concat cs"
    using less.prems by (auto simp: carries_def)
  show ?case
  proof (cases "LF \<in> set buf")
    case True
    have t: "takeWhile (\<lambda>c. c \<noteq> LF) (p @ CR # LF # q) = p @ [CR]" "dropWhile (\<lambda>c. c \<noteq> LF) (p @ CR # LF # q) = LF # q"
      using assms(2) by (auto simp: takeWhile_append dropWhile_append)
    have "takeWhile (\<lambda>c. c \<noteq> LF) buf = p @ [CR]" "dropWhile (\<lambda>c. c \<noteq> LF) buf @ concat cs = LF # q"
      using t True takeWhile_append1 [of LF buf "\<lambda>c. c \<noteq> LF" "concat cs"] dropWhile_append1 [of LF buf "\<lambda>c. c \<noteq> LF" "concat cs"]
      by (simp_all add: cs(3))
    moreover obtain a l where "dropWhile (\<lambda>c. c \<noteq> LF) buf = a # l" using True by (cases "dropWhile (\<lambda>c. c \<noteq> LF) buf") auto
    ultimately have "rd_line buf conn = (Inr p, l, conn) \<and> l @ concat cs = q"
      using True by (subst rd_line.simps) (simp add: chop_CR_def)
    then show ?thesis using cs by (auto simp: carries_def)
  next
    case False
    then have "p @ CR # LF # q \<noteq> buf" by auto
    from carries_next [OF less.prems assms(1) this] obtain c r where
      "rd_fill conn = (None, c, r)" "carries i fin (p @ CR # LF # q) (buf @ c, r)" "length r < length conn" by blast
    then show ?thesis using less.hyps [of r "buf @ c"] False by (subst rd_line.simps) simp
  qed
qed

text \<open>No continuation: the next line starts with another character.\<close>

lemma rd_skip_carries:
  assumes "i < 2 ^ 16" "\<not> sp c" "carries i fin (c # q) (buf, conn)"
  shows "\<exists>s. rd_skip False buf conn = (False, s) \<and> carries i fin (c # q) s"
proof (cases buf)
  case (Cons d ds)
  then have "d = c" using assms(3) by (auto simp: carries_def)
  then show ?thesis using assms Cons by (subst rd_skip.simps) simp
next
  case Nil
  then have "c # q \<noteq> buf" by simp
  from carries_next [OF assms(3,1) this] obtain b r where
    b: "rd_fill conn = (None, b, r)" "b \<noteq> []" "carries i fin (c # q) (b, r)" using Nil by auto
  then obtain bs where "b = c # bs" by (cases b) (auto simp: carries_def)
  then have "rd_skip False b r = (False, b, r)" using assms(2) by (subst rd_skip.simps) simp
  then show ?thesis using b Nil by (subst rd_skip.simps) simp
qed

lemma rd_continued_carries:
  assumes "i < 2 ^ 16" "LF \<notin> set p" "p \<noteq> []" "trim_ws p = p" "\<not> sp c" "carries i fin (p @ CR # LF # c # q) (buf, conn)"
  shows "\<exists>s. rd_continued buf conn = (Inr p, s) \<and> carries i fin (c # q) s"
proof -
  obtain b r where l: "rd_line buf conn = (Inr p, b, r)" "carries i fin (c # q) (b, r)"
    using rd_line_carries [OF assms(1,2,6)] by (metis surj_pair)
  obtain s where s: "rd_skip False b r = (False, s)" "carries i fin (c # q) s" using rd_skip_carries [OF assms(1,5) l(2)] by blast
  then have "rd_more p b r = (p, s)" by (subst rd_more.simps) (simp split: prod.split)
  then show ?thesis using l s(2) assms(3,4) by (simp add: rd_continued_def)
qed

text \<open>Header fields as a responder sends them.\<close>

definition field_ok :: "string \<times> string \<Rightarrow> bool" where
  "field_ok kv \<longleftrightarrow> (case kv of (k, v) \<Rightarrow>
     k \<noteq> [] \<and> list_all token_char k \<and> canonicalMIMEHeaderKey k = k \<and> k \<noteq> ''Transfer-Encoding''
     \<and> v \<noteq> [] \<and> LF \<notin> set v \<and> \<not> sp (hd v) \<and> \<not> sp (last v))"

definition field_line :: "string \<times> string \<Rightarrow> string" where
  "field_line kv = fst kv @ '': '' @ snd kv"

definition header_text :: "(string \<times> string) list \<Rightarrow> string" where
  "header_text hs = concat (map (\<lambda>kv. field_line kv @ [CR, LF]) hs) @ [CR, LF]"

lemma token_char_not: "token_char c \<Longrightarrow> c \<noteq> CHR '':'' \<and> c \<noteq> LF \<and> \<not> sp c"
  by (auto simp: token_char_def sp_def Let_def)

lemma field_line_read:
  assumes "field_ok kv"
  shows "LF \<notin> set (field_line kv)" "field_line kv \<noteq> []" "trim_ws (field_line kv) = field_line kv" "CHR '':'' \<in> set (field_line kv)"
    and "header_key (field_line kv) = fst kv" "header_value (field_line kv) = snd kv"
proof -
  obtain k v where kv: "kv = (k, v)" by (cases kv)
  have ok: "k \<noteq> []" "\<forall>c \<in> set k. token_char c" "canonicalMIMEHeaderKey k = k" "v \<noteq> []" "LF \<notin> set v" "\<not> sp (hd v)" "\<not> sp (last v)"
    using assms by (auto simp: field_ok_def kv list_all_iff)
  have k: "CHR '':'' \<notin> set k" "LF \<notin> set k" "\<forall>c \<in> set k. \<not> sp c" using ok(2) token_char_not by blast+
  show "LF \<notin> set (field_line kv)" "field_line kv \<noteq> []" "CHR '':'' \<in> set (field_line kv)"
    using k ok by (auto simp: field_line_def kv)
  obtain a k' where a: "k = a # k'" "\<not> sp a" using ok(1) k(3) by (cases k) auto
  obtain z v' where z: "v = v' @ [z]" "\<not> sp z" using ok(4,7) by (cases v rule: rev_cases) auto
  show "trim_ws (field_line kv) = field_line kv" using a(2) z(2) by (simp add: trim_ws_def field_line_def kv a(1) z(1))
  have t: "takeWhile (\<lambda>c. c \<noteq> CHR '':'') (field_line kv) = k" "dropWhile (\<lambda>c. c \<noteq> CHR '':'') (field_line kv) = '': '' @ v"
    using k(1) by (auto simp: field_line_def kv takeWhile_append dropWhile_append)
  have "dropWhile (\<lambda>c. c = CHR '' '') (rev k) = rev k"
    using k(3) ok(1) by (cases k rule: rev_cases) (auto simp: sp_def)
  then show "header_key (field_line kv) = fst kv" using ok(3) by (simp add: header_key_def kv t [unfolded kv])
  obtain y v'' where y: "v = y # v''" "\<not> sp y" using ok(4,6) by (cases v) auto
  have "sp (CHR '' '')" by (simp add: sp_def)
  then show "header_value (field_line kv) = snd kv" using y by (simp add: header_value_def t(2)) (simp add: kv)
qed

lemma header_text_start:
  assumes "list_all field_ok hs"
  shows "\<exists>c t. header_text hs = c # t \<and> \<not> sp c"
proof (cases hs)
  case Nil
  then show ?thesis by (simp add: header_text_def sp_def)
next
  case (Cons kv hs')
  then obtain a k where "fst kv = a # k" "\<not> sp a"
    using assms token_char_not by (cases kv; cases "fst kv") (auto simp: field_ok_def)
  then show ?thesis using Cons by (simp add: header_text_def field_line_def)
qed

lemma mime_loop_carries:
  assumes "i < 2 ^ 16"
  shows "list_all field_ok hs \<Longrightarrow> carries i fin (header_text hs @ body) (buf, conn) \<Longrightarrow>
    \<exists>s. mime_loop m buf conn = (None, fold (\<lambda>(k, x) m. Values_Add m k x) hs m, s) \<and> carries i fin body s"
proof (induction hs arbitrary: m buf conn)
  case Nil
  then have "carries i fin ([] @ CR # LF # body) (buf, conn)" by (simp add: header_text_def)
  from rd_line_carries [OF assms _ this] obtain s where "rd_line buf conn = (Inr [], s)" "carries i fin body s" by auto
  then show ?case by (subst mime_loop.simps) (auto simp: rd_continued_def split: prod.splits)
next
  case (Cons kv hs)
  let ?p = "field_line kv"
  have ok: "field_ok kv" using Cons.prems(1) by simp
  obtain c q where c: "header_text hs @ body = c # q" "\<not> sp c"
    using header_text_start [of hs] Cons.prems(1) by auto
  have "carries i fin (?p @ CR # LF # c # q) (buf, conn)"
    using Cons.prems(2) c(1) by (simp add: header_text_def)
  from rd_continued_carries [OF assms field_line_read(1-3) [OF ok] c(2) this]
  obtain b r where s: "rd_continued buf conn = (Inr ?p, b, r)" "carries i fin (header_text hs @ body) (b, r)"
    using c(1) by (metis surj_pair)
  have "fst kv \<noteq> []" using ok by (auto simp: field_ok_def)
  then have "mime_loop m buf conn = mime_loop (Values_Add m (fst kv) (snd kv)) b r"
    using s(1) field_line_read [OF ok] by (subst mime_loop.simps) simp
  then show ?case using Cons.IH [OF _ s(2)] Cons.prems(1) by (simp add: case_prod_beta)
qed

lemma map_of_filter_hd:
  "map_of hs k = (if filter (\<lambda>p. fst p = k) hs = [] then None else Some (hd (map snd (filter (\<lambda>p. fst p = k) hs))))"
  by (induction hs) auto

lemma rd_peek_carries: "i < 2 ^ 16 \<Longrightarrow> text \<noteq> [] \<Longrightarrow> carries i fin text s \<Longrightarrow> carries i fin text (rd_peek s) \<and> fst (rd_peek s) \<noteq> []"
  using carries_next [of i fin "text" "fst s" "snd s"] by (cases s; cases "fst s = []") (auto simp: rd_peek_def)

lemma read_response_back:
  assumes "i < 2 ^ 16" "list_all field_ok hs" "chunks_ok cs" "concat cs = header_text hs @ body"
  shows "\<exists>resp rest. read_response (records FCGI_STDOUT i cs @ writeEndRequest i status p @ s) = (Inr resp, rest)
     \<and> map_of (ht_Header resp) = map_of hs \<and> ht_Body resp = Inr body"
proof -
  let ?fin = "writeEndRequest i status p @ s" and ?m = "fold (\<lambda>(k, x) m. Values_Add m k x) hs []"
  have "carries i ?fin (header_text hs @ body) ([], records FCGI_STDOUT i cs @ ?fin)"
    using assms(3,4) by (auto simp: carries_def)
  moreover have ne: "header_text hs @ body \<noteq> []" by (simp add: header_text_def)
  ultimately obtain buf conn where pk: "rd_peek (rd_peek ([], records FCGI_STDOUT i cs @ ?fin)) = (buf, conn)"
    "carries i ?fin (header_text hs @ body) (buf, conn)" "buf \<noteq> []"
    using rd_peek_carries [OF assms(1) ne] by (metis fst_conv surj_pair)
  obtain c t where c: "header_text hs = c # t" "\<not> sp c"
    using header_text_start [OF assms(2)] by blast
  then have hd: "hd buf = c" using pk(2,3) by (cases buf) (auto simp: carries_def)
  obtain b r where loop: "mime_loop [] buf conn = (None, ?m, b, r)" "carries i ?fin body (b, r)"
    using mime_loop_carries [OF assms(1,2) pk(2), of "[]"] by (metis surj_pair)
  then have hdr: "ReadMIMEHeader ([], records FCGI_STDOUT i cs @ ?fin) = (None, ?m, b, r)"
    using pk(1) c(2) hd by (simp add: ReadMIMEHeader_def)
  have keys: "map_of ?m k = (if filter (\<lambda>p. fst p = k) hs = [] then None else Some (map snd (filter (\<lambda>p. fst p = k) hs)))" for k
    by (simp add: fold_Values_Add)
  have "map_of ?m ''Transfer-Encoding'' = None"
    using assms(2) by (auto simp: keys filter_empty_conv field_ok_def list_all_iff)
  moreover obtain ds where "r = records FCGI_STDOUT i ds @ ?fin" "chunks_ok ds" "body = b @ concat ds"
    using loop(2) by (auto simp: carries_def)
  then have "\<exists>rest. ReadAll b r = (Inr body, rest)"
    using read_stream_response [OF assms(1)] by (simp add: ReadAll_def)
  moreover have "map_of (map (\<lambda>(k, vs). (k, hd vs)) ?m) = map_of hs"
    by (rule ext) (simp add: map_of_map keys map_of_filter_hd [of hs])
  ultimately show ?thesis using hdr by (auto simp: read_response_def chunked_def)
qed

subsection \<open>A call reaches the application behind the responder\<close>

text \<open>
  A responder that follows the protocol: it decodes the request, runs an application on the parameters and
  the body, and sends the header and the output in records cut by \<open>slices\<close>.
\<close>

definition serve_fcgi ::
  "(string \<Rightarrow> string list) \<Rightarrow> ((string \<times> string) list \<Rightarrow> string \<Rightarrow> 'w \<Rightarrow> ((string \<times> string) list \<times> string) \<times> 'w) \<Rightarrow>
   string \<Rightarrow> 'w \<Rightarrow> string \<times> 'w" where
  "serve_fcgi slices app bytes w =
     (case responder bytes of
        None \<Rightarrow> ([], w)
      | Some (_, p, body, _) \<Rightarrow>
          (case app p body w of
             ((hs, out), w') \<Rightarrow> (records FCGI_STDOUT 1 (slices (header_text hs @ out)) @ writeEndRequest 1 0 0, w')))"

lemma fcgi_PostForm_app:
  assumes "f_reqId c < 2 ^ 16" "body = Values_Encode vals"
    and "p = post_env env ''application/x-www-form-urlencoded'' (length body)" "list_all pair_fits p"
    and "app p body w = ((hs, out), w')" "list_all field_ok hs"
    and "chunks_ok (slices (header_text hs @ out))" "concat (slices (header_text hs @ out)) = header_text hs @ out"
  shows "\<exists>resp rest. fcgi_PostForm (serve_fcgi slices app) c env vals w = Ret (Inr resp, rest, w')
     \<and> map_of (ht_Header resp) = map_of hs \<and> ht_Body resp = Inr out"
proof -
  obtain bytes h where b: "fcgi_Do c p (Some body) = Ret bytes" "responder (bytes @ []) = Some (h, p, body, [])"
    using responder_Do [OF assms(4,1), of body "[]"] by blast
  then have net: "serve_fcgi slices app bytes w = (records FCGI_STDOUT 1 (slices (header_text hs @ out)) @ writeEndRequest 1 0 0 @ [], w')"
    using assms(5) by (simp add: serve_fcgi_def)
  obtain resp rest where "read_response (records FCGI_STDOUT 1 (slices (header_text hs @ out)) @ writeEndRequest 1 0 0 @ []) = (Inr resp, rest)"
    "map_of (ht_Header resp) = map_of hs" "ht_Body resp = Inr out"
    using read_response_back [OF _ assms(6,7,8), of 1 0 0 "[]"] by auto
  then show ?thesis using b(1) net
    by (auto simp: fcgi_PostForm_def fcgi_Post_def fcgi_Request_def assms(2) [symmetric] assms(3) [symmetric])
qed

text \<open>The CGI sender with this client: a panic while writing the parameters is an error of the request.\<close>

definition over_fcgi :: "(nat \<Rightarrow> string \<Rightarrow> 'w \<Rightarrow> string \<times> 'w) \<Rightarrow> FCGIClient \<Rightarrow> 'w cgi_dev \<Rightarrow> 'w cgi_dev" where
  "over_fcgi net client dev = dev\<lparr>cd_post := \<lambda>n cgi_env vals w.
     case fcgi_PostForm (net n) client cgi_env vals w of
       Panic \<Rightarrow> (Inl (CErr ''panic''), w)
     | Ret (resp, rest, w') \<Rightarrow> (resp, w')\<rparr>"

definition field :: "(string \<times> string) list \<Rightarrow> string \<Rightarrow> string" where
  "field hs k = (case map_of hs k of None \<Rightarrow> [] | Some v \<Rightarrow> v)"

lemma cgi_exchange_app:
  assumes "f_reqId client < 2 ^ 16" "body = Values_Encode params"
    and "p = post_env cgi_env ''application/x-www-form-urlencoded'' (length body)" "list_all pair_fits p"
    and "app p body w = ((hs, out), w')" "list_all field_ok hs"
    and "chunks_ok (slices (header_text hs @ out))" "concat (slices (header_text hs @ out)) = header_text hs @ out"
  shows "fst (cgi_exchange (over_fcgi (\<lambda>n. serve_fcgi slices app) client dev) cm cgi_env params c (pools, w))
     = Inr \<lparr>Code = (if field hs ''Code'' = [] then InnerError else field hs ''Code''), ErrorCode = field hs ''Error-Code'',
            ConsumeTopics = field hs ''Consume-Topics'', Msg = out\<rparr>"
proof -
  obtain resp rest where "fcgi_PostForm (serve_fcgi slices app) client cgi_env params w = Ret (Inr resp, rest, w')"
    "map_of (ht_Header resp) = map_of hs" "ht_Body resp = Inr out"
    using fcgi_PostForm_app [of client body params p cgi_env app w hs out w' slices] assms by auto
  then show ?thesis by (simp add: cgi_exchange_def CgiConn_Send_def over_fcgi_def Header_Get_def field_def)
qed

end
