(* ===== verification/DemoCgi.thy ===== *)
theory DemoCgi
  imports FcgiResponse
begin

text \<open>
  A small responder: a pool of two connections and a device that accepts every connection and answers
  every request with the given result. The concrete input of the examples about CGI requests.
\<close>

definition demo_cgi_pool :: CgiConnPool where
  "demo_cgi_pool = \<lparr>cp_store = [], cp_connNum = 0, cp_address = ''h:9000'', cp_connectTimeout = 1, cp_writeTimeout = 1,
     cp_readTimeout = 1, cp_initConnNum = 0, cp_maxConnNum = 2, cp_reuseCounts = 10, cp_reuseLife = 60 * second\<rparr>"

definition demo_cgi :: CgiManager where
  "demo_cgi = NewCgiManager ''k'' ''/a.php''"

definition demo_cgi_dev :: "(cgi_err + http_response) \<Rightarrow> nat cgi_dev" where
  "demo_cgi_dev r = \<lparr>cd_dial = (\<lambda>a k w. (Inr w, Suc w)), cd_post = (\<lambda>c e p w. (r, w)), cd_close = (\<lambda>c w. w),
     cd_now = (\<lambda>w. 0), cd_id = (\<lambda>w. (w, Suc w)), cd_sleep = (\<lambda>d w. w)\<rparr>"

definition demo_conn :: CgiConn where
  "demo_conn = \<lparr>cn_id = 0, cn_client = 0, cn_usedCounts = 0, cn_created = 0, cn_needClose = False\<rparr>"

text \<open>An application that answers every request like a ping.\<close>

definition demo_app :: "(string \<times> string) list \<Rightarrow> string \<Rightarrow> nat \<Rightarrow> ((string \<times> string) list \<times> string) \<times> nat" where
  "demo_app p body w = (([(''Code'', ''200''), (''Consume-Topics'', ''q/t'')], ''q/t,''), w)"

lemmas demo_cgi_defs = demo_cgi_def demo_cgi_pool_def demo_cgi_dev_def NewCgiManager_def

end
