(* ===== verification/ConfigJson.thy ===== *)
theory ConfigJson
  imports Config
begin

text \<open>
  Decoding the configuration texts (\<open>setting.go\<close>): \<open>json.Unmarshal\<close> into the maps of queues, tags and
  transports and into the single records. The struct tags name the keys; a key matches a field without
  regard to case, an unknown key is skipped, a value of the wrong type makes the whole text an error.
  A field that occurs twice is decoded twice into the same place, an entry of a map starts from its
  zero value.

  A \<open>null\<close> in the place of a queue, a topic or a transport becomes a nil pointer that the code dereferences later; such
  a text is an error here.

  The lemmas show that what is decoded are maps with distinct keys.
\<close>

subsection \<open>Structs and maps\<close>

fun set_fields :: "('r \<Rightarrow> string \<times> json \<Rightarrow> 'r \<times> bool) \<Rightarrow> 'r \<Rightarrow> (string \<times> json) list \<Rightarrow> 'r option" where
  "set_fields f r [] = Some r"
| "set_fields f r (kv # kvs) = (case f r kv of (r', ok) \<Rightarrow> if ok then set_fields f r' kvs else None)"

definition decode_struct :: "('r \<Rightarrow> string \<times> json \<Rightarrow> 'r \<times> bool) \<Rightarrow> 'r \<Rightarrow> json \<Rightarrow> 'r option" where
  "decode_struct f r v = (case v of JObj kvs \<Rightarrow> set_fields f r kvs | _ \<Rightarrow> None)"

fun decode_entries :: "(json \<Rightarrow> 'v option) \<Rightarrow> (string \<times> json) list \<Rightarrow> (string, 'v) gomap \<Rightarrow> (string, 'v) gomap option" where
  "decode_entries d [] m = Some m"
| "decode_entries d ((k, v) # kvs) m =
     (case d v of None \<Rightarrow> None | Some x \<Rightarrow> decode_entries d kvs (AList.update k x m))"

text \<open>Into a map that holds \<open>m\<close>: \<open>null\<close> makes it nil.\<close>

definition decode_map :: "(json \<Rightarrow> 'v option) \<Rightarrow> (string, 'v) gomap \<Rightarrow> json \<Rightarrow> (string, 'v) gomap option" where
  "decode_map d m v = (case v of JObj kvs \<Rightarrow> decode_entries d kvs m | JNull \<Rightarrow> Some [] | _ \<Rightarrow> None)"

definition store_uint :: "json \<Rightarrow> nat \<Rightarrow> nat \<times> bool" where
  "store_uint v old =
     (case v of
        JNum raw \<Rightarrow> (case ParseUint raw of (n, None) \<Rightarrow> (n, True) | _ \<Rightarrow> (old, False))
      | JNull \<Rightarrow> (old, True)
      | _ \<Rightarrow> (old, False))"

text \<open>A pointer to a struct: \<open>null\<close> makes it nil, otherwise the struct it points to, or a new one, is filled.\<close>

definition store_ptr :: "('r \<Rightarrow> string \<times> json \<Rightarrow> 'r \<times> bool) \<Rightarrow> 'r \<Rightarrow> json \<Rightarrow> 'r option \<Rightarrow> 'r option \<times> bool" where
  "store_ptr f zero v old =
     (case v of
        JNull \<Rightarrow> (None, True)
      | _ \<Rightarrow> (case decode_struct f (case old of None \<Rightarrow> zero | Some r \<Rightarrow> r) v of
                None \<Rightarrow> (old, False)
              | Some r \<Rightarrow> (Some r, True)))"

subsection \<open>The records\<close>

definition new_StorageConfig :: StorageConfig where
  "new_StorageConfig = \<lparr>sc_Type = [], sc_Address = [], sc_Auth = [], sc_MaxConnNum = 0, sc_MaxIdleNum = 0, sc_MaxIdleSeconds = 0\<rparr>"

definition StorageConfig_set :: "StorageConfig \<Rightarrow> string \<times> json \<Rightarrow> StorageConfig \<times> bool" where
  "StorageConfig_set c kv =
     (let k = fold_key (fst kv); v = snd kv in
      if k = ''type'' then (let (x, ok) = store_str v (sc_Type c) in (c\<lparr>sc_Type := x\<rparr>, ok))
      else if k = ''address'' then (let (x, ok) = store_str v (sc_Address c) in (c\<lparr>sc_Address := x\<rparr>, ok))
      else if k = ''auth'' then (let (x, ok) = store_str v (sc_Auth c) in (c\<lparr>sc_Auth := x\<rparr>, ok))
      else if k = ''max_conn_num'' then (let (x, ok) = store_int v (sc_MaxConnNum c) in (c\<lparr>sc_MaxConnNum := x\<rparr>, ok))
      else if k = ''max_idle_num'' then (let (x, ok) = store_int v (sc_MaxIdleNum c) in (c\<lparr>sc_MaxIdleNum := x\<rparr>, ok))
      else if k = ''max_idle_seconds'' then (let (x, ok) = store_int v (sc_MaxIdleSeconds c) in (c\<lparr>sc_MaxIdleSeconds := x\<rparr>, ok))
      else (c, True))"

definition new_CgiConfig :: CgiConfig where
  "new_CgiConfig = \<lparr>cc_Address = [], cc_ConnectTimeout = 0, cc_ReadTimeout = 0, cc_WriteTimeout = 0, cc_InitConnNum = 0,
     cc_MaxConnNum = 0, cc_ReuseCounts = 0, cc_ReuseLife = 0\<rparr>"

definition CgiConfig_set :: "CgiConfig \<Rightarrow> string \<times> json \<Rightarrow> CgiConfig \<times> bool" where
  "CgiConfig_set c kv =
     (let k = fold_key (fst kv); v = snd kv in
      if k = ''address'' then (let (x, ok) = store_str v (cc_Address c) in (c\<lparr>cc_Address := x\<rparr>, ok))
      else if k = ''connect_timeout'' then (let (x, ok) = store_int v (cc_ConnectTimeout c) in (c\<lparr>cc_ConnectTimeout := x\<rparr>, ok))
      else if k = ''read_timeout'' then (let (x, ok) = store_int v (cc_ReadTimeout c) in (c\<lparr>cc_ReadTimeout := x\<rparr>, ok))
      else if k = ''write_timeout'' then (let (x, ok) = store_int v (cc_WriteTimeout c) in (c\<lparr>cc_WriteTimeout := x\<rparr>, ok))
      else if k = ''init_conn_num'' then (let (x, ok) = store_int v (cc_InitConnNum c) in (c\<lparr>cc_InitConnNum := x\<rparr>, ok))
      else if k = ''max_conn_num'' then (let (x, ok) = store_int v (cc_MaxConnNum c) in (c\<lparr>cc_MaxConnNum := x\<rparr>, ok))
      else if k = ''reuse_counts'' then (let (x, ok) = store_int v (cc_ReuseCounts c) in (c\<lparr>cc_ReuseCounts := x\<rparr>, ok))
      else if k = ''reuse_life'' then (let (x, ok) = store_int v (cc_ReuseLife c) in (c\<lparr>cc_ReuseLife := x\<rparr>, ok))
      else (c, True))"

definition HttpConfig_set :: "HttpConfig \<Rightarrow> string \<times> json \<Rightarrow> HttpConfig \<times> bool" where
  "HttpConfig_set c kv =
     (let k = fold_key (fst kv); v = snd kv in
      if k = ''request_timeout'' then (let (x, ok) = store_int v (RequestTimeout c) in (c\<lparr>RequestTimeout := x\<rparr>, ok))
      else if k = ''idle_conn_timeout'' then (let (x, ok) = store_int v (IdleConnTimeout c) in (c\<lparr>IdleConnTimeout := x\<rparr>, ok))
      else (c, True))"

text \<open>The fields of the embedded \<open>WorkerConfig\<close> belong to the topic; the first of them allocates it.\<close>

definition worker_of :: "TopicConfig \<Rightarrow> WorkerConfig" where
  "worker_of c =
     (case tc_WorkerConfig c of
        None \<Rightarrow> \<lparr>Script = [], Entry = [], MaxChildren = 0, MaxTask = 0\<rparr>
      | Some wc \<Rightarrow> wc)"

definition new_TopicConfig :: TopicConfig where
  "new_TopicConfig = \<lparr>tc_Name = [], tc_Password = [], tc_RetryTimes = 0, tc_MaxQueueLength = 0, tc_RunType = 0,
     tc_Storage = None, tc_ConsumerEnable = False, tc_NumOfWorkers = 0, tc_ScriptEntry = [], tc_CgiConfigKey = [],
     tc_HttpConfig = [], tc_WorkerConfig = None, tc_IsRetry = False, tc_RetryTime = 0\<rparr>"

definition TopicConfig_set :: "TopicConfig \<Rightarrow> string \<times> json \<Rightarrow> TopicConfig \<times> bool" where
  "TopicConfig_set c kv =
     (let k = fold_key (fst kv); v = snd kv; wc = worker_of c in
      if k = ''name'' then (let (x, ok) = store_str v (tc_Name c) in (c\<lparr>tc_Name := x\<rparr>, ok))
      else if k = ''password'' then (let (x, ok) = store_str v (tc_Password c) in (c\<lparr>tc_Password := x\<rparr>, ok))
      else if k = ''retry_times'' then (let (x, ok) = store_int v (tc_RetryTimes c) in (c\<lparr>tc_RetryTimes := x\<rparr>, ok))
      else if k = ''max_queue_length'' then (let (x, ok) = store_int v (tc_MaxQueueLength c) in (c\<lparr>tc_MaxQueueLength := x\<rparr>, ok))
      else if k = ''run_type'' then (let (x, ok) = store_int v (tc_RunType c) in (c\<lparr>tc_RunType := x\<rparr>, ok))
      else if k = ''storage''
      then (let (x, ok) = store_ptr StorageConfig_set new_StorageConfig v (tc_Storage c) in (c\<lparr>tc_Storage := x\<rparr>, ok))
      else if k = ''num_of_workers'' then (let (x, ok) = store_uint v (tc_NumOfWorkers c) in (c\<lparr>tc_NumOfWorkers := x\<rparr>, ok))
      else if k = ''script_entry'' then (let (x, ok) = store_str v (tc_ScriptEntry c) in (c\<lparr>tc_ScriptEntry := x\<rparr>, ok))
      else if k = ''cgi_config_key'' then (let (x, ok) = store_str v (tc_CgiConfigKey c) in (c\<lparr>tc_CgiConfigKey := x\<rparr>, ok))
      else if k = ''http_config'' then (let (x, ok) = store_str v (tc_HttpConfig c) in (c\<lparr>tc_HttpConfig := x\<rparr>, ok))
      else if k = ''script'' then (let (x, ok) = store_str v (Script wc) in (c\<lparr>tc_WorkerConfig := Some (wc\<lparr>Script := x\<rparr>)\<rparr>, ok))
      else if k = ''entry'' then (let (x, ok) = store_str v (Entry wc) in (c\<lparr>tc_WorkerConfig := Some (wc\<lparr>Entry := x\<rparr>)\<rparr>, ok))
      else if k = ''max_children''
      then (let (x, ok) = store_int v (MaxChildren wc) in (c\<lparr>tc_WorkerConfig := Some (wc\<lparr>MaxChildren := x\<rparr>)\<rparr>, ok))
      else if k = ''max_task'' then (let (x, ok) = store_int v (MaxTask wc) in (c\<lparr>tc_WorkerConfig := Some (wc\<lparr>MaxTask := x\<rparr>)\<rparr>, ok))
      else if k = ''is_retry'' then (let (x, ok) = store_bool v (tc_IsRetry c) in (c\<lparr>tc_IsRetry := x\<rparr>, ok))
      else if k = ''retry_time'' then (let (x, ok) = store_int v (tc_RetryTime c) in (c\<lparr>tc_RetryTime := x\<rparr>, ok))
      else (c, True))"

definition new_QueueConfig :: QueueConfig where
  "new_QueueConfig = \<lparr>qc_QueueName = [], qc_Password = [], qc_Topic = [], qc_ConsumerEnable = False\<rparr>"

definition QueueConfig_set :: "QueueConfig \<Rightarrow> string \<times> json \<Rightarrow> QueueConfig \<times> bool" where
  "QueueConfig_set c kv =
     (let k = fold_key (fst kv); v = snd kv in
      if k = ''queue_name'' then (let (x, ok) = store_str v (qc_QueueName c) in (c\<lparr>qc_QueueName := x\<rparr>, ok))
      else if k = ''password'' then (let (x, ok) = store_str v (qc_Password c) in (c\<lparr>qc_Password := x\<rparr>, ok))
      else if k = ''topic''
      then (case decode_map (decode_struct TopicConfig_set new_TopicConfig) (qc_Topic c) v of
              None \<Rightarrow> (c, False)
            | Some ts \<Rightarrow> (c\<lparr>qc_Topic := ts\<rparr>, True))
      else (c, True))"

subsection \<open>The texts\<close>

definition decode_QueueConfs :: "string \<Rightarrow> QueueConfs option" where
  "decode_QueueConfs text =
     Option.bind (json_parse text) (decode_map (decode_struct QueueConfig_set new_QueueConfig) [])"

definition decode_string :: "json \<Rightarrow> string option" where
  "decode_string v = (case v of JStr s \<Rightarrow> Some s | JNull \<Rightarrow> Some [] | _ \<Rightarrow> None)"

definition decode_strings :: "json \<Rightarrow> string list option" where
  "decode_strings v = (case v of JArr vs \<Rightarrow> those (map decode_string vs) | JNull \<Rightarrow> Some [] | _ \<Rightarrow> None)"

definition decode_TagsMapping :: "string \<Rightarrow> TagsMapping option" where
  "decode_TagsMapping text = Option.bind (json_parse text) (decode_map (decode_map decode_strings []) [])"

definition parseCgiTransportConfig :: "data_Queue \<Rightarrow> (string, CgiConfig) gomap option" where
  "parseCgiTransportConfig net =
     Option.bind (json_parse (CgiConfig_text net)) (decode_map (decode_struct CgiConfig_set new_CgiConfig) [])"

text \<open>
  The single records: an empty text is the zero record, \<open>null\<close> a nil pointer (\<open>Some None\<close>), an error \<open>None\<close>.
\<close>

definition decode_record :: "('r \<Rightarrow> string \<times> json \<Rightarrow> 'r \<times> bool) \<Rightarrow> 'r \<Rightarrow> string \<Rightarrow> 'r option option" where
  "decode_record f zero text =
     (if text = [] then Some (Some zero)
      else (case json_parse text of
              None \<Rightarrow> None
            | Some v \<Rightarrow> (case store_ptr f zero v (Some zero) of (r, ok) \<Rightarrow> if ok then Some r else None)))"

definition parseHttpTransportConfig :: "data_Queue \<Rightarrow> HttpConfig option option" where
  "parseHttpTransportConfig net =
     decode_record HttpConfig_set \<lparr>RequestTimeout = 0, IdleConnTimeout = 0\<rparr> (HttpConfig_text net)"

definition parseErrorCollection :: "data_Queue \<Rightarrow> StorageConfig option option" where
  "parseErrorCollection net = decode_record StorageConfig_set new_StorageConfig (ErrorCollectionStorage net)"

definition parseTaskDebug :: "data_Queue \<Rightarrow> StorageConfig option option" where
  "parseTaskDebug net = decode_record StorageConfig_set new_StorageConfig (TaskDebugStorage net)"

definition load_queues :: "data_Queue \<Rightarrow> QueueConfs option" where
  "load_queues net = parseQueueConfig decode_QueueConfs decode_TagsMapping net"

subsection \<open>Decoded maps have distinct keys\<close>

lemma decode_entries_wf: "decode_entries d kvs m = Some m' \<Longrightarrow> wf_map m \<Longrightarrow> wf_map m'"
  by (induction d kvs m rule: decode_entries.induct) (auto split: option.splits)

lemma decode_map_wf: "decode_map d m v = Some m' \<Longrightarrow> wf_map m \<Longrightarrow> wf_map m'"
  by (auto simp: decode_map_def decode_entries_wf split: json.splits)

lemma in_update: "(k', v') \<in> set (AList.update k v m) \<Longrightarrow> (k', v') = (k, v) \<or> (k', v') \<in> set m"
  by (induction m) (auto split: if_splits)

lemma decode_entries_all:
  "decode_entries d kvs m = Some m' \<Longrightarrow> (\<And>v x. d v = Some x \<Longrightarrow> P x) \<Longrightarrow> (\<forall>(k, x) \<in> set m. P x) \<Longrightarrow> (\<forall>(k, x) \<in> set m'. P x)"
proof (induction d kvs m rule: decode_entries.induct)
  case (2 d k v kvs m)
  then obtain x where x: "d v = Some x" "decode_entries d kvs (AList.update k x m) = Some m'" by (auto split: option.splits)
  have "\<forall>(k', x') \<in> set (AList.update k x m). P x'"
    using "2.prems"(2,3) x(1) by (auto dest!: in_update)
  then show ?case using "2.IH" [OF x] "2.prems"(2) by blast
qed simp

lemma set_fields_inv:
  "set_fields f r kvs = Some r' \<Longrightarrow> (\<And>r kv r'. P r \<Longrightarrow> f r kv = (r', True) \<Longrightarrow> P r') \<Longrightarrow> P r \<Longrightarrow> P r'"
  by (induction f r kvs rule: set_fields.induct) (auto split: prod.splits if_splits)

lemma QueueConfig_set_wf: "wf_map (qc_Topic c) \<Longrightarrow> QueueConfig_set c kv = (c', True) \<Longrightarrow> wf_map (qc_Topic c')"
  by (auto simp: QueueConfig_set_def Let_def decode_map_wf split: if_splits option.splits prod.splits)

lemma decode_QueueConfs_wf:
  assumes "decode_QueueConfs text = Some confs"
  shows "wf_map confs \<and> (\<forall>(q, qc) \<in> set confs. wf_map (qc_Topic qc))"
proof -
  obtain v where v: "decode_map (decode_struct QueueConfig_set new_QueueConfig) [] v = Some confs"
    using assms by (auto simp: decode_QueueConfs_def bind_eq_Some_conv)
  have each: "wf_map (qc_Topic qc)" if "decode_struct QueueConfig_set new_QueueConfig u = Some qc" for u qc
    using that set_fields_inv [of QueueConfig_set new_QueueConfig _ qc "\<lambda>c. wf_map (qc_Topic c)"] QueueConfig_set_wf
    by (auto simp: decode_struct_def new_QueueConfig_def split: json.splits)
  have "\<forall>(q, qc) \<in> set confs. wf_map (qc_Topic qc)"
    using v decode_entries_all [of "decode_struct QueueConfig_set new_QueueConfig" _ "[]" confs "\<lambda>qc. wf_map (qc_Topic qc)"] each
    by (auto simp: decode_map_def split: json.splits)
  then show ?thesis using decode_map_wf [OF v] by simp
qed

lemma load_queues_decoded:
  "decode_QueueConfs (QueueConfig_text net) = Some confs \<Longrightarrow> decode_TagsMapping (TagsMapping_text net) = Some tags \<Longrightarrow>
   load_queues net = Some (enable_tags (Tags net) tags confs)"
  by (simp add: load_queues_def parseQueueConfig_def)

lemma enable_tags_length: "length (enable_tags tags tm confs) = length confs"
  using arg_cong [OF strip_tags [of tags tm confs], of length] by (simp add: strip_def)

end
