(* ===== verification/Ids.thy ===== *)
theory Ids
  imports Job "HOL-Library.Word"
begin

text \<open>
  Identifiers (\<open>id.go\<close>): the service id made of the gateway's address, and reading a trace id back.
  \<open>GenId\<close> and \<open>GenTraceId\<close> are in \<open>Job\<close>. The list of local addresses and the time inside a generated id
  (\<open>idgen.GetTimeUnixMill\<close>) are parameters.

  The lemmas show that an IPv4 address survives the conversion to a number and back, and that a trace
  id identifies the time and the gateway it was made by.
\<close>

subsection \<open>The address of the gateway\<close>

text \<open>Slicing an address to the length of a longer prefix panics.\<close>

fun ip_with_prefix :: "string \<Rightarrow> string list \<Rightarrow> string option go" where
  "ip_with_prefix prefix [] = Ret None"
| "ip_with_prefix prefix (ip # ips) =
     (if length ip < length prefix then Panic
      else if take (length prefix) ip = prefix then Ret (Some ip)
      else ip_with_prefix prefix ips)"

fun GetInnerIP :: "string list \<Rightarrow> string list \<Rightarrow> string go" where
  "GetInnerIP ips [] = Ret []"
| "GetInnerIP ips (prefix # ps) =
     go_bind (ip_with_prefix prefix ips) (\<lambda>r. case r of Some ip \<Rightarrow> Ret ip | None \<Rightarrow> GetInnerIP ips ps)"

definition parse_byte :: "string \<Rightarrow> 64 word" where
  "parse_byte s = of_nat (fst (ParseUint s))"

definition IP2Num :: "string \<Rightarrow> 64 word" where
  "IP2Num requestip =
     (case strings_Split requestip ''.'' of
        [a, b, c, d] \<Rightarrow>
          or (or (or (push_bit 24 (parse_byte a)) (push_bit 16 (parse_byte b))) (push_bit 8 (parse_byte c))) (parse_byte d)
      | _ \<Rightarrow> 0)"

definition Num2IP :: "64 word \<Rightarrow> string" where
  "Num2IP ipnum =
     (let byte1 = and ipnum 0xff;
          byte2 = drop_bit 8 (and ipnum 0xff00);
          byte3 = drop_bit 16 (and ipnum 0xff0000);
          byte4 = drop_bit 24 (and ipnum 0xff000000)
      in show_nat (unat byte4) @ ''.'' @ show_nat (unat byte3) @ ''.'' @ show_nat (unat byte2) @ ''.'' @ show_nat (unat byte1))"

definition updateServiceId :: "string list \<Rightarrow> string list \<Rightarrow> string \<Rightarrow> string go" where
  "updateServiceId ips prefixList port =
     go_bind (GetInnerIP ips prefixList) (\<lambda>ip. Ret (''-'' @ show_nat (unat (IP2Num ip)) @ ''-'' @ port))"

record BusId =
  CreateTime :: int
  BusGatewayIp :: string
  BusGatewayPort :: string

datatype id_err = InvalidIdFormat string | IdNumError num_err

definition ParseTraceId :: "(int \<Rightarrow> int) \<Rightarrow> string \<Rightarrow> id_err + BusId" where
  "ParseTraceId GetTimeUnixMill tid =
     (case strings_Split tid ''-'' of
        [f0, f1, f2] \<Rightarrow>
          (case ParseInt f0 of
             (_, Some e) \<Rightarrow> Inl (IdNumError e)
           | (idInt64, None) \<Rightarrow>
               (case ParseUint f1 of
                  (_, Some e) \<Rightarrow> Inl (IdNumError e)
                | (ipNum, None) \<Rightarrow>
                    Inr \<lparr>CreateTime = GetTimeUnixMill idInt64, BusGatewayIp = Num2IP (of_nat ipNum), BusGatewayPort = f2\<rparr>))
      | _ \<Rightarrow> Inl (InvalidIdFormat tid))"

subsection \<open>Addresses and numbers\<close>

definition dotted :: "nat \<Rightarrow> nat \<Rightarrow> nat \<Rightarrow> nat \<Rightarrow> string" where
  "dotted a b c d = show_nat a @ ''.'' @ show_nat b @ ''.'' @ show_nat c @ ''.'' @ show_nat d"

lemma dot_not_in_show_nat [simp]: "CHR ''.'' \<notin> set (show_nat n)" "CHR ''-'' \<notin> set (show_nat n)"
  by (simp_all add: no_digit_in_show_nat digit_val_def)

lemma Split_dotted: "strings_Split (dotted a b c d) ''.'' = [show_nat a, show_nat b, show_nat c, show_nat d]"
  by (simp add: dotted_def strings_Split_sep strings_Split_no_sep)

lemma byte_bits: "n < 256 \<Longrightarrow> bit (of_nat n :: 64 word) i \<longleftrightarrow> i < 8 \<and> bit n i"
proof -
  assume "n < 256"
  then have "take_bit 8 n = n" by (simp add: take_bit_nat_eq_self)
  then have "bit n i \<Longrightarrow> i < 8" by (metis bit_take_bit_iff)
  then show ?thesis by (auto simp: bit_simps)
qed

lemma mask_bytes:
  "(0xff :: 64 word) = mask 8" "(0xff00 :: 64 word) = push_bit 8 (mask 8)"
  "(0xff0000 :: 64 word) = push_bit 16 (mask 8)" "(0xff000000 :: 64 word) = push_bit 24 (mask 8)"
  by (simp_all add: mask_eq_exp_minus_1 push_bit_eq_mult)

lemma IP2Num_bits:
  assumes "a < 256" "b < 256" "c < 256" "d < 256"
  defines "x \<equiv> or (or (or (push_bit 24 (of_nat a)) (push_bit 16 (of_nat b))) (push_bit 8 (of_nat c))) (of_nat d) :: 64 word"
  shows "and x 0xff = of_nat d" "drop_bit 8 (and x 0xff00) = of_nat c"
    "drop_bit 16 (and x 0xff0000) = of_nat b" "drop_bit 24 (and x 0xff000000) = of_nat a"
  by (rule bit_word_eqI; use assms(1-4) in \<open>auto simp: x_def mask_bytes bit_and_iff bit_or_iff bit_push_bit_iff bit_drop_bit_eq
      bit_mask_iff byte_bits\<close>)+

lemma Num2IP_IP2Num:
  assumes "a < 256" "b < 256" "c < 256" "d < 256"
  shows "Num2IP (IP2Num (dotted a b c d)) = dotted a b c d"
proof -
  have u: "unat (of_nat n :: 64 word) = n" if "n < 256" for n
    using that by (simp add: unat_of_nat take_bit_nat_eq_self)
  have "parse_byte (show_nat n) = of_nat n" if "n < 256" for n
    using that by (simp add: parse_byte_def maxUint64_def)
  then have x: "IP2Num (dotted a b c d)
      = or (or (or (push_bit 24 (of_nat a)) (push_bit 16 (of_nat b))) (push_bit 8 (of_nat c))) (of_nat d)"
    using assms by (simp add: IP2Num_def Split_dotted)
  show ?thesis
    unfolding x Num2IP_def Let_def IP2Num_bits [OF assms] using assms by (simp add: u dotted_def)
qed

subsection \<open>Trace ids\<close>

text \<open>A trace id made by a gateway names the gateway and the time of the generated number.\<close>

lemma ParseTraceId_GenTraceId:
  assumes "updateServiceId ips prefixes port = Ret sid" "GetInnerIP ips prefixes = Ret (dotted a b c d)"
    and "a < 256" "b < 256" "c < 256" "d < 256" "CHR ''-'' \<notin> set port" "fst (gen g) < 2 ^ 63"
  shows "ParseTraceId tm (fst (GenTraceId gen sid g))
     = Inr \<lparr>CreateTime = tm (int (fst (gen g))), BusGatewayIp = dotted a b c d, BusGatewayPort = port\<rparr>"
proof -
  let ?ip = "show_nat (unat (IP2Num (dotted a b c d)))"
  have "fst (GenTraceId gen sid g) = show_nat (fst (gen g)) @ CHR ''-'' # ?ip @ CHR ''-'' # port"
    using assms(1,2) by (auto simp: GenTraceId_def updateServiceId_def split: prod.splits)
  then have "strings_Split (fst (GenTraceId gen sid g)) ''-'' = [show_nat (fst (gen g)), ?ip, port]"
    using assms(7) by (simp add: strings_Split_sep strings_Split_no_sep)
  moreover have "unat (IP2Num (dotted a b c d)) < 2 ^ LENGTH(64)" by (rule unsigned_less)
  then have "unat (IP2Num (dotted a b c d)) \<le> maxUint64" by (simp add: maxUint64_def)
  ultimately show ?thesis
    using assms(3-6,8) by (simp add: ParseTraceId_def ParseInt_show_nat Num2IP_IP2Num)
qed

text \<open>Without a matching address the service id carries the address \<open>0.0.0.0\<close>.\<close>

lemma GetInnerIP_none: "(\<forall>p \<in> set prefixes. \<forall>ip \<in> set ips. length p \<le> length ip \<and> \<not> has_prefix p ip) \<Longrightarrow> GetInnerIP ips prefixes = Ret []"
proof (induction prefixes)
  case (Cons p ps)
  have "ip_with_prefix p is' = Ret None" if "\<forall>ip \<in> set is'. length p \<le> length ip \<and> \<not> has_prefix p ip" for is'
    using that by (induction is') (auto simp: has_prefix_def not_less)
  then show ?case using Cons by simp
qed simp

lemma GetInnerIP_panics: "ip # ips = all \<Longrightarrow> length ip < length p \<Longrightarrow> GetInnerIP all (p # ps) = Panic"
  by auto

end
