(* ===== verification/Setting.thy ===== *)
theory Setting
  imports ConfigJson MuxServer Ids Cgi
begin

text \<open>
  Loading the configuration (\<open>setting.go\<close>): what a change of the configuration service does
  (\<open>UpdateSetting\<close>) and what the start of the process sets up from it (\<open>initSetting\<close>). The atomically
  replaced globals of the code are the fields of a record. The configuration service itself (\<open>gokeeper\<close>),
  the local addresses, the id generator and the devices of the CGI pools are parameters; logging and
  command line flags are left out.

  The lemmas show that after an update and the commands it sends, the workers of the registry serve
  exactly the topics the gateway authenticates clients against, and that a text that cannot be decoded
  panics after the server part was already replaced.
\<close>

record ServerConfig =
  srv_GatewayIP :: string
  srv_GatewayPort :: string
  srv_AdminIP :: string
  srv_AdminPort :: string

record Setting =
  ServerConfStorage :: "ServerConfig option"
  QueueConfsStorage :: "QueueConfs option"
  ServiceId :: string
  MuxManager :: MuxServer
  CgiPoolManager :: CgiConnPoolManager
  CGIErrorCollection :: "collection option"
  CGITaskDebug :: "collection option"
  HttpConfigManager :: "HttpConfig option"

definition init_globals :: Setting where
  "init_globals = \<lparr>ServerConfStorage = None, QueueConfsStorage = None, ServiceId = [], MuxManager = NewMuxServer,
     CgiPoolManager = [], CGIErrorCollection = None, CGITaskDebug = None, HttpConfigManager = None\<rparr>"

text \<open>\<open>QueueConfs()\<close>, and \<open>ServerConf()\<close>, which waits (\<open>None\<close>) until the configuration has arrived.\<close>

definition current_QueueConfs :: "Setting \<Rightarrow> QueueConfs" where
  "current_QueueConfs st = (case QueueConfsStorage st of None \<Rightarrow> [] | Some c \<Rightarrow> c)"

definition ServerConf :: "Setting \<Rightarrow> ServerConfig option" where
  "ServerConf st = ServerConfStorage st"

subsection \<open>Updates\<close>

definition updateServer :: "data_Global \<Rightarrow> Setting \<Rightarrow> Setting" where
  "updateServer g st = st\<lparr>ServerConfStorage := Some
     \<lparr>srv_GatewayIP = GatewayIp g, srv_GatewayPort = GatewayPort g, srv_AdminIP = AdminIp g, srv_AdminPort = AdminPort g\<rparr>\<rparr>"

definition updateQueue :: "data_Queue \<Rightarrow> Setting \<Rightarrow> Setting go" where
  "updateQueue net st =
     (case load_queues net of None \<Rightarrow> Panic | Some c \<Rightarrow> Ret (st\<lparr>QueueConfsStorage := Some c\<rparr>))"

text \<open>\<open>Ret None\<close>: the send of a command blocks.\<close>

definition UpdateSetting :: "string list \<Rightarrow> data_Global \<Rightarrow> data_Queue \<Rightarrow> Setting \<Rightarrow> Setting option go" where
  "UpdateSetting ips g net st =
     go_bind (updateQueue net (updateServer g st)) (\<lambda>st1.
     go_bind (updateServiceId ips (InnerIpPrefix g) (GatewayPort g)) (\<lambda>sid.
     let st2 = st1\<lparr>ServiceId := sid\<rparr> in
     Ret (map_option (\<lambda>ms. st2\<lparr>MuxManager := ms\<rparr>) (UpdateConfigs (current_QueueConfs st2) (MuxManager st2)))))"

subsection \<open>Start\<close>

text \<open>The domain and the sections the configuration service is asked for.\<close>

definition keeper_sections :: "string \<Rightarrow> string \<Rightarrow> string \<times> string list" where
  "keeper_sections domain nodeID =
     (let domainSplit = strings_SplitN2 domain (CHR ''/'');
          sub = (if length domainSplit \<noteq> 2 then [] else domainSplit ! 1)
      in (domainSplit ! 0, [sub @ ''/global.conf'', sub @ ''/queue.conf'', sub @ ''/queue.conf/'' @ nodeID]))"

datatype init_err = KeeperErr string | CgiConfigErr | ErrorCollectionErr | TaskDebugErr | HttpConfigErr

definition updateVersionAndShardID :: "bool \<Rightarrow> bool \<Rightarrow> unit go" where
  "updateVersionAndShardID version_ok shard_ok = (if \<not> version_ok \<or> \<not> shard_ok then Panic else Ret ())"

text \<open>
  The components that are set up once the service has delivered the configuration: pools of CGI
  connections, error collection, task log, ids, HTTP. A storage text \<open>null\<close> is a nil pointer and panics, as does a
  storage whose number of connections is no size of a channel.
\<close>

definition init_components ::
  "'w cgi_dev \<Rightarrow> bool \<Rightarrow> bool \<Rightarrow> data_Queue \<Rightarrow> Setting \<Rightarrow> 'w \<Rightarrow> (init_err option \<times> Setting \<times> 'w) option go" where
  "init_components dev version_ok shard_ok net st w =
     (case parseCgiTransportConfig net of
        None \<Rightarrow> Ret (Some (Some CgiConfigErr, st, w))
      | Some cgiConfs \<Rightarrow>
          go_bind (pm_Init dev cgiConfs (CgiPoolManager st) w) (\<lambda>r.
          case r of
            None \<Rightarrow> Ret None
          | Some (pm, w1) \<Rightarrow>
              (let st1 = st\<lparr>CgiPoolManager := pm\<rparr> in
               case parseErrorCollection net of
                 None \<Rightarrow> Ret (Some (Some ErrorCollectionErr, st1, w1))
               | Some None \<Rightarrow> Panic
               | Some (Some ec) \<Rightarrow>
                   go_bind (NewErrorCollection ec) (\<lambda>errorCollection.
                   let st2 = st1\<lparr>CGIErrorCollection := Some errorCollection\<rparr> in
                   case parseTaskDebug net of
                     None \<Rightarrow> Ret (Some (Some TaskDebugErr, st2, w1))
                   | Some None \<Rightarrow> Panic
                   | Some (Some td) \<Rightarrow>
                       go_bind (NewTaskDebug td) (\<lambda>taskDebug.
                       let st3 = st2\<lparr>CGITaskDebug := Some taskDebug\<rparr> in
                       go_bind (updateVersionAndShardID version_ok shard_ok) (\<lambda>_.
                       case parseHttpTransportConfig net of
                         None \<Rightarrow> Ret (Some (Some HttpConfigErr, st3\<lparr>HttpConfigManager := None\<rparr>, w1))
                       | Some hc \<Rightarrow> Ret (Some (None, st3\<lparr>HttpConfigManager := hc\<rparr>, w1))))))))"

text \<open>
  \<open>initSetting\<close>: \<open>work\<close> is the configuration service, which runs \<open>UpdateSetting\<close> before it returns;
  registering with service discovery follows on success.
\<close>

definition initSetting ::
  "'w cgi_dev \<Rightarrow> bool \<Rightarrow> bool \<Rightarrow> (string \<times> string list \<Rightarrow> Setting \<Rightarrow> (string option \<times> data_Queue \<times> Setting) option go) \<Rightarrow>
   string \<Rightarrow> string \<Rightarrow> Setting \<Rightarrow> 'w \<Rightarrow> (init_err option \<times> Setting \<times> 'w) option go" where
  "initSetting dev version_ok shard_ok work domain nodeID st w =
     go_bind (work (keeper_sections domain nodeID) st) (\<lambda>r.
     case r of
       None \<Rightarrow> Ret None
     | Some (Some e, net, st1) \<Rightarrow> Ret (Some (Some (KeeperErr e), st1, w))
     | Some (None, net, st1) \<Rightarrow> init_components dev version_ok shard_ok net st1 w)"

subsection \<open>An update takes effect\<close>

lemma named_confs_strip: "strip a = strip b \<Longrightarrow> named_confs d a \<longleftrightarrow> named_confs d b"
proof -
  have wf: "wf_conf d qc \<longleftrightarrow> wf_conf d (strip_queue qc)" for qc
    by (simp add: wf_conf_def topic_ok_def strip_queue_def wf_map_def list_all_iff strip_topic_def case_prod_beta comp_def)
  have "named_confs d c \<longleftrightarrow> named_confs d (strip c)" for c
    by (simp add: named_confs_def strip_def wf_map_def list_all_iff case_prod_beta comp_def wf [symmetric]) (simp add: strip_queue_def)
  then show "strip a = strip b \<Longrightarrow> named_confs d a \<longleftrightarrow> named_confs d b" by metis
qed

text \<open>
  What the operator has to write: every queue under its own name, every topic with a storage that can be created, and
  HTTP topics only on a node with an HTTP configuration.
\<close>

definition proper_queues :: "node \<Rightarrow> QueueConfs \<Rightarrow> bool" where
  "proper_queues d confs \<longleftrightarrow>
     list_all (\<lambda>(q, qc). qc_QueueName qc = q \<and> list_all (\<lambda>(t, tc). topic_ok d tc) (qc_Topic qc)) confs"

text \<open>The globals a command of the registry reads.\<close>

definition node_of :: "data_Queue \<Rightarrow> Setting \<Rightarrow> node" where
  "node_of net st = \<lparr>nd_ConsumerDisable = ConsumerDisable net, nd_HttpConfigManager = HttpConfigManager st\<rparr>"

lemma load_queues_named:
  assumes "load_queues net = Some confs" "decode_QueueConfs (QueueConfig_text net) = Some confs0" "proper_queues d confs0"
  shows "named_confs d confs"
proof -
  have "strip confs = strip confs0"
    using assms(1,2) by (auto simp: load_queues_def parseQueueConfig_def strip_tags split: option.splits)
  moreover have "named_confs d confs0"
    using decode_QueueConfs_wf [OF assms(2)] assms(3) by (auto simp: named_confs_def wf_conf_def proper_queues_def list_all_iff)
  ultimately show ?thesis using named_confs_strip by blast
qed

lemma Serve_turns_inv: "Serve_turns d n ms = Ret ms' \<Longrightarrow> ms_inv ms \<Longrightarrow> cmds_ok ms \<Longrightarrow> ms_inv ms' \<and> cmds_ok ms'"
  by (induction n arbitrary: ms) (auto dest: Serve_turn_inv)

text \<open>When the configurations of the registry are those of \<open>confs\<close>, every topic of a known kind has its worker.\<close>

definition serves :: "QueueConfs \<Rightarrow> MuxServer \<Rightarrow> bool" where
  "serves confs ms \<longleftrightarrow>
     (\<forall>q t. (case topic_conf confs q t of
        Some tc \<Rightarrow> known_run_type tc \<longrightarrow> (\<exists>mx sc. GetMuxer ms q t = Inr mx \<and> tc_Storage tc = Some sc \<and> NewStorage sc = Ret (mx_storager mx))
      | None \<Rightarrow> (\<exists>e. GetMuxer ms q t = Inl e)))"

lemma converged_serves:
  assumes "ms_inv ms" "\<forall>q. rel_option DeepEqual (map_of confs q) (map_of (queueConfig ms) q)"
  shows "serves confs ms"
  unfolding serves_def
proof (intro allI)
  fix q t
  have rel: "rel_option DeepEqual (map_of confs q) (map_of (queueConfig ms) q)" using assms(2) by blast
  have tc: "topic_conf confs q t = topic_conf (queueConfig ms) q t"
    using rel by (cases "map_of confs q"; cases "map_of (queueConfig ms) q")
      (simp_all add: topic_conf_def DeepEqual_def map_eq_iff)
  have muxer: "GetMuxer ms q t = Inr mx \<Longrightarrow> \<exists>qc ts. map_of (queueConfig ms) q = Some qc \<and> map_of (mux ms) q = Some ts
      \<and> queue_ok q qc ts \<and> map_of ts t = Some mx" for mx
    using assms(1) unfolding ms_inv_iff GetMuxer_def by (fastforce split: option.splits list.splits)
  show "case topic_conf confs q t of
        Some tc \<Rightarrow> known_run_type tc \<longrightarrow> (\<exists>mx sc. GetMuxer ms q t = Inr mx \<and> tc_Storage tc = Some sc \<and> NewStorage sc = Ret (mx_storager mx))
      | None \<Rightarrow> (\<exists>e. GetMuxer ms q t = Inl e)"
  proof (cases "topic_conf confs q t")
    case None
    have "GetMuxer ms q t \<noteq> Inr mx" for mx
      using muxer [of mx] None unfolding tc queue_ok_iff by (fastforce simp: topic_conf_def worker_ok_def split: option.splits)
    then have "\<exists>e. GetMuxer ms q t = Inl e" by (cases "GetMuxer ms q t") auto
    then show ?thesis using None by simp
  next
    case (Some tc')
    obtain qc where qc: "map_of (queueConfig ms) q = Some qc" "map_of (qc_Topic qc) t = Some tc'"
      using Some unfolding tc by (auto simp: topic_conf_def split: option.splits)
    obtain ts where ts: "map_of (mux ms) q = Some ts" "queue_ok q qc ts" using ms_inv_queue [OF assms(1) qc(1)] by blast
    have "\<exists>mx sc. GetMuxer ms q t = Inr mx \<and> tc_Storage tc' = Some sc \<and> NewStorage sc = Ret (mx_storager mx)" if known: "known_run_type tc'"
    proof -
      obtain mx where mx: "map_of ts t = Some mx" using ts(2) qc(2) known unfolding queue_ok_iff by fastforce
      then have "worker_ok q qc (t, mx)" using ts(2) unfolding queue_ok_iff by blast
      then have "\<exists>sc. tc_Storage tc' = Some sc \<and> NewStorage sc = Ret (mx_storager mx)"
        using qc(2) by (simp add: worker_ok_def split: option.splits)
      moreover have "ts \<noteq> []" using mx by auto
      ultimately show ?thesis using ts(1) mx by (auto simp: GetMuxer_def neq_Nil_conv)
    qed
    then show ?thesis using Some by simp
  qed
qed

lemma UpdateSetting_serves:
  assumes "load_queues net = Some confs" "named_confs (node_of net st) confs"
    and "updateServiceId ips (InnerIpPrefix g) (GatewayPort g) = Ret sid"
    and "ms_inv (MuxManager st)" "cmdC (MuxManager st) = []"
    and "2 * length confs + length (queueConfig (MuxManager st)) \<le> cmdC_cap"
  shows "\<exists>st' ms. UpdateSetting ips g net st = Ret (Some st') \<and> current_QueueConfs st' = confs \<and> ServiceId st' = sid
     \<and> node_of net st' = node_of net st
     \<and> Serve_turns (node_of net st') (length (cmdC (MuxManager st'))) (MuxManager st') = Ret ms \<and> cmdC ms = [] \<and> ms_inv ms \<and> serves confs ms"
proof -
  obtain ms1 where ms1: "UpdateConfigs confs (MuxManager st) = Some ms1"
    using UpdateConfigs_room [of "MuxManager st" confs] assms(5,6) by auto
  obtain ms2 where ms2: "Serve_turns (node_of net st) (length (cmdC ms1)) ms1 = Ret ms2" "cmdC ms2 = []"
    "\<forall>q. rel_option DeepEqual (map_of confs q) (map_of (queueConfig ms2) q)"
    using UpdateConfigs_converges [OF assms(4,5,2) ms1] by blast
  have "list_all (\<lambda>(q, qc). wf_map (qc_Topic qc)) confs"
    using assms(2) by (auto simp: named_confs_def wf_conf_def list_all_iff)
  then have "ms_inv ms1 \<and> cmds_ok ms1"
    using UpdateConfigs_inv [OF ms1 assms(4)] assms(5) by (simp add: cmds_ok_def)
  then have "ms_inv ms2" using Serve_turns_inv [OF ms2(1)] by blast
  moreover have "UpdateSetting ips g net st = Ret (Some ((updateServer g st)
      \<lparr>QueueConfsStorage := Some confs, ServiceId := sid, MuxManager := ms1\<rparr>))"
    using assms(1,3) ms1 by (simp add: UpdateSetting_def updateQueue_def current_QueueConfs_def updateServer_def Let_def)
  moreover have "node_of net ((updateServer g st)\<lparr>QueueConfsStorage := Some confs, ServiceId := sid, MuxManager := ms1\<rparr>) = node_of net st"
    by (simp add: node_of_def updateServer_def)
  ultimately show ?thesis using ms2 converged_serves [of ms2 confs] by (fastforce simp: current_QueueConfs_def)
qed

lemma UpdateSetting_broken: "load_queues net = None \<Longrightarrow> UpdateSetting ips g net st = Panic"
  by (simp add: UpdateSetting_def updateQueue_def)

lemma UpdateSetting_server:
  "UpdateSetting ips g net st = Ret (Some st') \<Longrightarrow> map_option srv_GatewayPort (ServerConf st') = Some (GatewayPort g)"
  by (auto simp: UpdateSetting_def updateQueue_def updateServer_def ServerConf_def Let_def split: option.splits)

end
