(* ===== verification/ShellWorker.thy ===== *)
theory ShellWorker
  imports Setting Gateway
begin

text \<open>
  Topics served by processes (\<open>shell_worker.go\<close>, \<open>proc.go\<close>): the bus starts PHP processes that take their
  jobs from the gateway themselves, restarts them when they end, and stops them when the topic is closed.

  The operating system is a parameter: sending a signal, starting and awaiting a process, sleeping (in
  seconds). The goroutine of a child is modelled by one round of its loop. What a child prints is only
  logged and left out.

  The lemmas show that the child is given credentials the gateway accepts, and what stopping a process
  guarantees.
\<close>

subsection \<open>Processes\<close>

datatype errno = ESRCH | Errno string

definition SIGINT :: int where "SIGINT = 2"
definition SIGKILL :: int where "SIGKILL = 9"

record 'w os =
  os_Kill :: "int \<Rightarrow> int \<Rightarrow> 'w \<Rightarrow> errno option \<times> 'w"
  os_Sleep :: "int \<Rightarrow> 'w \<Rightarrow> 'w"
  os_Start :: "string \<Rightarrow> string list \<Rightarrow> 'w \<Rightarrow> (string + int) \<times> 'w"
  os_Wait :: "int \<Rightarrow> 'w \<Rightarrow> string option \<times> 'w"
  os_Exited :: "int \<Rightarrow> 'w \<Rightarrow> bool" \<comment> \<open>\<open>p.ProcessState != nil && p.ProcessState.Exited()\<close>\<close>

record process =
  proc_name :: string
  proc_args :: "string list"
  proc_Process :: "int option" \<comment> \<open>the started process, nil before\<close>

definition NewProcess :: "string \<Rightarrow> string list \<Rightarrow> process" where
  "NewProcess name args = \<lparr>proc_name = name, proc_args = args, proc_Process = None\<rparr>"

definition Pid :: "process \<Rightarrow> int" where
  "Pid p = (case proc_Process p of Some n \<Rightarrow> n | None \<Rightarrow> -1)"

definition Start :: "'w os \<Rightarrow> process \<Rightarrow> 'w \<Rightarrow> (string option \<times> process) \<times> 'w" where
  "Start os p w =
     (case os_Start os (proc_name p) (proc_args p) w of
        (Inl e, w') \<Rightarrow> ((Some e, p), w')
      | (Inr n, w') \<Rightarrow> ((None, p\<lparr>proc_Process := Some n\<rparr>), w'))"

text \<open>Waiting for the process to go away after the signal: whether it has, after at most \<open>n\<close> seconds.\<close>

fun stop_wait :: "'w os \<Rightarrow> int \<Rightarrow> nat \<Rightarrow> 'w \<Rightarrow> bool \<times> 'w" where
  "stop_wait os pid 0 w = (False, w)"
| "stop_wait os pid (Suc n) w =
     (case os_Kill os pid 0 (os_Sleep os 1 w) of
        (e, w1) \<Rightarrow> if e = Some ESRCH then (True, w1) else stop_wait os pid n w1)"

definition StopProcess :: "'w os \<Rightarrow> int \<Rightarrow> 'w \<Rightarrow> errno option \<times> 'w" where
  "StopProcess os pid w =
     (if pid < 0 then (None, w)
      else
        (case os_Kill os pid SIGINT w of
           (e, w1) \<Rightarrow>
             if e = Some ESRCH then (None, w1)
             else
               (case stop_wait os pid 10 w1 of
                  (gone, w2) \<Rightarrow>
                    if gone then (None, w2)
                    else
                      (case os_Kill os pid SIGKILL w2 of
                         (e2, w3) \<Rightarrow>
                           if e2 = Some ESRCH then (None, w3)
                           else
                             (case os_Kill os pid 0 (os_Sleep os 1 w3) of
                                (e3, w4) \<Rightarrow> if e3 = Some ESRCH then (None, w4) else (e3, w4))))))"

text \<open>\<open>monitor\<close>: \<open>isDone\<close> is what it observes of the context.\<close>

partial_function (option) monitor :: "'w os \<Rightarrow> ('w \<Rightarrow> bool) \<Rightarrow> int \<Rightarrow> 'w \<Rightarrow> (errno option \<times> 'w) option" where
  "monitor os isDone pid w =
     (if isDone w then Some (StopProcess os pid w)
      else if os_Exited os pid w then Some (None, w)
      else monitor os isDone pid (os_Sleep os 1 w))"

definition process_Wait :: "'w os \<Rightarrow> process \<Rightarrow> 'w \<Rightarrow> string option \<times> 'w" where
  "process_Wait os p w = os_Wait os (Pid p) w"

subsection \<open>The worker\<close>

record Worker =
  wk_queue :: QueueName
  wk_conf :: TopicConfig
  wk_storager :: storage
  wk_cancelled :: bool

definition NewWorker :: "QueueName \<Rightarrow> storage \<Rightarrow> TopicConfig \<Rightarrow> Worker" where
  "NewWorker qn st config = \<lparr>wk_queue = qn, wk_conf = config, wk_storager = st, wk_cancelled = False\<rparr>"

definition Worker_AddJobs ::
  "('w, 'g) env \<Rightarrow> Worker \<Rightarrow> Jobs \<Rightarrow> QueueTyp \<Rightarrow> ('w, 'g) bus \<Rightarrow> (string option \<times> Jobs \<times> ('w, 'g) bus) go" where
  "Worker_AddJobs env wk jobs typ b = bus_AddQueue env (wk_storager wk) jobs typ b"

definition Worker_GetJobsFromQueue ::
  "('w, 'g) env \<Rightarrow> Worker \<Rightarrow> QueueName \<Rightarrow> TopicName \<Rightarrow> QueueTyp \<Rightarrow> ('w, 'g) bus \<Rightarrow>
   (Jobs option res \<times> ('w, 'g) bus) go" where
  "Worker_GetJobsFromQueue env wk q t typ b =
     go_bind (GetJobsFromQueue (e_redis env) (e_gen env) (e_ServiceId env) (wk_storager wk) q t typ (ids b) (wld b))
       (\<lambda>(r, g, w). Ret (r, b\<lparr>wld := w, ids := g\<rparr>))"

definition Worker_SendPing :: "Worker \<Rightarrow> string option" where
  "Worker_SendPing wk = None"

definition Worker_SendJobs :: "Worker \<Rightarrow> Jobs \<Rightarrow> WorkerResponse option" where
  "Worker_SendJobs wk jobs = None"

definition Worker_Close :: "Worker \<Rightarrow> Worker" where
  "Worker_Close wk = wk\<lparr>wk_cancelled := True\<rparr>"

text \<open>The command line; a topic without worker fields has a nil \<open>WorkerConfig\<close> and panics.\<close>

definition worker_args :: "Worker \<Rightarrow> ServerConfig \<Rightarrow> string list go" where
  "worker_args wk sv =
     (case tc_WorkerConfig (wk_conf wk) of
        None \<Rightarrow> Panic
      | Some wc \<Rightarrow> Ret
          [Script wc,
           ''-q'', wk_queue wk @ ''/'' @ tc_Name (wk_conf wk),
           ''-h'', srv_GatewayIP sv,
           ''-p'', srv_GatewayPort sv,
           ''-a'', tc_Password (wk_conf wk),
           ''-t'', show_int (MaxTask wc),
           ''-H'', Entry wc])"

definition MuxLoopInterval :: int where "MuxLoopInterval = 1" \<comment> \<open>seconds\<close>

text \<open>One round of a child: \<open>Return\<close> when the topic is closed, otherwise it starts and awaits a process.\<close>

definition child_turn :: "'w os \<Rightarrow> string list \<Rightarrow> bool \<Rightarrow> 'w \<Rightarrow> turn \<times> 'w" where
  "child_turn os args isDone w =
     (if isDone then (Return, w)
      else
        (case Start os (NewProcess ''/usr/local/bin/php'' args) w of
           ((Some e, p), w1) \<Rightarrow> (Again, os_Sleep os (2 * MuxLoopInterval) w1)
         | ((None, p), w1) \<Rightarrow> (Again, snd (process_Wait os p w1))))"

text \<open>The goroutines of \<open>Serve\<close>: their number and the command line they share; each first stops pid -1.\<close>

definition Worker_Serve :: "Worker \<Rightarrow> ServerConfig \<Rightarrow> (nat \<times> string list) go" where
  "Worker_Serve wk sv =
     go_bind (worker_args wk sv) (\<lambda>args.
     Ret (nat (case tc_WorkerConfig (wk_conf wk) of None \<Rightarrow> 0 | Some wc \<Rightarrow> MaxChildren wc), args))"

subsection \<open>The child can log in\<close>

lemma worker_credentials:
  assumes "topic_conf confs q t = Some tc" "tc_Name tc = t" "tc_WorkerConfig tc \<noteq> None"
    and "CHR ''/'' \<notin> set q" "CHR ''/'' \<notin> set t" "t \<noteq> []"
  shows "\<exists>args. worker_args (NewWorker q s tc) sv = Ret args \<and> args ! 1 = ''-q'' \<and> args ! 2 = q @ ''/'' @ t
     \<and> args ! 7 = ''-a'' \<and> password_ok confs (args ! 2) (args ! 8) \<and> checkAuth (AuthName (args ! 2)) q t = None"
proof -
  have "password_ok confs (q @ ''/'' @ t) (tc_Password tc)"
    unfolding password_ok_topic [OF assms(4-6)] using assms(1) by (auto simp: topic_conf_def split: option.splits)
  then show ?thesis using assms(2,3,6) by (auto simp: worker_args_def NewWorker_def checkAuth_iff nth_Cons')
qed

subsection \<open>Stopping a process\<close>

text \<open>
  A process that lasts \<open>n\<close> more seconds after the signal \<open>SIGINT\<close>, in a world that counts the seconds and
  records the signals: before it ends a signal succeeds, afterwards it is \<open>ESRCH\<close>.
\<close>

definition lasting :: "nat \<Rightarrow> (nat \<times> int list) os" where
  "lasting n = \<lparr>os_Kill = (\<lambda>pid sig (t, sigs). (if n < t then Some ESRCH else None, (t, sigs @ [sig]))),
     os_Sleep = (\<lambda>s (t, sigs). (t + nat s, sigs)), os_Start = (\<lambda>name args w. (Inr 1, w)), os_Wait = (\<lambda>pid w. (None, w)),
     os_Exited = (\<lambda>pid (t, sigs). n < t)\<rparr>"

lemma stop_wait_lasting:
  "t \<le> n \<Longrightarrow> stop_wait (lasting n) pid k (t, sigs)
     = (if n < t + k then (True, (Suc n, sigs @ replicate (Suc n - t) 0)) else (False, (t + k, sigs @ replicate k 0)))"
proof (induction k arbitrary: t sigs)
  case (Suc k)
  show ?case
  proof (cases "t = n")
    case True
    then show ?thesis by (simp add: lasting_def)
  next
    case False
    then have "Suc t \<le> n" using Suc.prems by simp
    then show ?thesis using Suc.IH [of "Suc t" "sigs @ [0]"] by (auto simp: lasting_def Suc_diff_le)
  qed
qed simp

text \<open>A process that ends within ten seconds is asked once and never killed; one that does not is killed once.\<close>

lemma StopProcess_graceful:
  assumes "0 \<le> pid" "n < 10"
  shows "StopProcess (lasting n) pid (0, []) = (None, (Suc n, SIGINT # replicate (Suc n) 0))"
  using assms stop_wait_lasting [of 0 n pid 10 "[SIGINT]"] by (simp add: StopProcess_def) (simp add: lasting_def)

lemma StopProcess_kills:
  assumes "0 \<le> pid" "10 \<le> n"
  shows "\<exists>w. StopProcess (lasting n) pid (0, []) = (None, w) \<and> snd w = SIGINT # replicate 10 0 @ [SIGKILL, 0]"
  using assms stop_wait_lasting [of 0 n pid 10 "[SIGINT]"] by (simp add: StopProcess_def) (simp add: lasting_def)

text \<open>The result does not tell: it is nil also for a process that survives \<open>SIGKILL\<close>, as in the lemma above for \<open>12 \<le> n\<close>.\<close>

lemma monitor_returns:
  assumes "isDone (((os_Sleep os 1) ^^ k) w) \<or> os_Exited os pid (((os_Sleep os 1) ^^ k) w)"
  shows "\<exists>r. monitor os isDone pid w = Some r"
  using assms
proof (induction k arbitrary: w)
  case 0
  then show ?case by (subst monitor.simps) auto
next
  case (Suc k)
  then have "\<exists>r. monitor os isDone pid (os_Sleep os 1 w) = Some r" by (simp add: funpow_swap1)
  then show ?case by (subst monitor.simps) auto
qed

end
