(* ===== verification/Admin.thy ===== *)
theory Admin
  imports ShellWorker
begin

text \<open>
  The administration service (\<open>admin.go\<close>) and the gauges it exposes (\<open>prometheus.go\<close>): routing a path to an
  action, and the actions over the registry, the storages, the logs and the statistics.

  An action returns the response it renders; \<open>AdminJson\<close> renders it as JSON, and the actions on the machine are in
  \<open>Machine\<close>. Decoding the form into the request (\<open>gorilla/schema\<close>) is the parameter \<open>schema_Decode\<close>.

  The lemmas show that every path runs exactly one action, that the storage actions do to the named
  topic what the storage promises, and that the gauges are the lengths of the lists.
\<close>

subsection \<open>Requests and responses\<close>

datatype req_kind = PlainReq | CountReq | TopicDataReq

record Req =
  req_Queue :: QueueName
  req_Topic :: TopicName
  req_Count :: int \<comment> \<open>requests with a count\<close>
  req_Type :: string \<comment> \<open>\<open>TopicDataReq\<close>\<close>
  req_Value :: string

type_synonym schema_Decode = "req_kind \<Rightarrow> url_Values \<Rightarrow> string + Req"

datatype resp_data =
    NoData \<comment> \<open>nil\<close>
  | DText string
  | DCount int
  | DLengths int int int
  | DErrors "ErrorCollectionData list"
  | DTasks "TaskDebugData list"
  | DResponse "WorkerResponse option"
  | DConfs QueueConfs
  | DMuxStats mux_stat_map
  | DGatewayStats gateway_stat_map
  | DBusId BusId
  | DResult int string \<comment> \<open>process id and result\<close>
  | DStatus CGIStatus

record Resp =
  ErrorCode_resp :: int
  Error_resp :: string
  Data_resp :: resp_data

definition ok :: "resp_data \<Rightarrow> Resp" where
  "ok d = \<lparr>ErrorCode_resp = 0, Error_resp = [], Data_resp = d\<rparr>"

definition fails_with :: "int \<Rightarrow> string \<Rightarrow> Resp" where
  "fails_with code e = \<lparr>ErrorCode_resp = code, Error_resp = e, Data_resp = DText []\<rparr>"

definition StatusBadRequest :: int where "StatusBadRequest = 400"
definition StatusInternalServerError :: int where "StatusInternalServerError = 500"

subsection \<open>Actions\<close>

text \<open>The muxer of a topic with its storage, after decoding the form; a failure is the rendered response.\<close>

definition requested :: "schema_Decode \<Rightarrow> req_kind \<Rightarrow> MuxServer \<Rightarrow> url_Values \<Rightarrow> Resp + Req \<times> Muxer" where
  "requested dec kind ms form =
     (case dec kind form of
        Inl e \<Rightarrow> Inl (fails_with StatusBadRequest e)
      | Inr r \<Rightarrow>
          (case GetMuxer ms (req_Queue r) (req_Topic r) of
             Inl e \<Rightarrow> Inl (fails_with StatusBadRequest e)
           | Inr mx \<Rightarrow> Inr (r, mx)))"

definition GetCGIErrorAction ::
  "schema_Decode \<Rightarrow> ('w, 'g) env \<Rightarrow> url_Values \<Rightarrow> 'w \<Rightarrow> (Resp \<times> 'w) go" where
  "GetCGIErrorAction dec env form w =
     (case dec CountReq form of
        Inl e \<Rightarrow> Ret (fails_with StatusBadRequest e, w)
      | Inr r \<Rightarrow>
          go_bind (GetError (e_redis env) (e_net env) (e_ec env) (req_Queue r) (req_Topic r) (req_Count r) w)
            (\<lambda>(d, w'). Ret (ok (DErrors d), w')))"

definition GetCGITaskDebugAction ::
  "schema_Decode \<Rightarrow> ('w, 'g) env \<Rightarrow> url_Values \<Rightarrow> 'w \<Rightarrow> (Resp \<times> 'w) go" where
  "GetCGITaskDebugAction dec env form w =
     (case dec CountReq form of
        Inl e \<Rightarrow> Ret (fails_with StatusBadRequest e, w)
      | Inr r \<Rightarrow>
          go_bind (GetTask (e_redis env) (e_net env) (e_td env) (req_Queue r) (req_Count r) w)
            (\<lambda>(d, w'). Ret (ok (DTasks d), w')))"

text \<open>\<open>Ret None\<close>: the loop of the storage's \<open>RetryQueue\<close> does not end.\<close>

definition RecoverAction ::
  "schema_Decode \<Rightarrow> (redis_err \<Rightarrow> string) \<Rightarrow> ('w, 'g) env \<Rightarrow> MuxServer \<Rightarrow> url_Values \<Rightarrow> 'w \<Rightarrow> (Resp \<times> 'w) option go" where
  "RecoverAction dec et env ms form w =
     (case requested dec CountReq ms form of
        Inl resp \<Rightarrow> Ret (Some (resp, w))
      | Inr (r, mx) \<Rightarrow>
          go_bind (storage_RetryQueue (e_redis env) (mx_storager mx) (req_Queue r) (req_Topic r) (req_Count r) w) (\<lambda>x.
          Ret (map_option (\<lambda>((n, err), w').
            case err of
              Some e \<Rightarrow> (fails_with StatusInternalServerError (et e), w')
            | None \<Rightarrow> (ok (DCount n), w')) x)))"

definition CleanFailedJobsAction ::
  "schema_Decode \<Rightarrow> (redis_err \<Rightarrow> string) \<Rightarrow> ('w, 'g) env \<Rightarrow> MuxServer \<Rightarrow> url_Values \<Rightarrow> 'w \<Rightarrow> (Resp \<times> 'w) go" where
  "CleanFailedJobsAction dec et env ms form w =
     (case requested dec PlainReq ms form of
        Inl resp \<Rightarrow> Ret (resp, w)
      | Inr (r, mx) \<Rightarrow>
          go_bind (CleanQueue (e_redis env) (mx_storager mx) (req_Queue r) (req_Topic r) RetryQueue w)
            (\<lambda>((n, err), w').
               Ret (case err of Some e \<Rightarrow> fails_with StatusInternalServerError (et e) | None \<Rightarrow> ok (DCount n), w')))"

definition GetQueueLengthAction ::
  "schema_Decode \<Rightarrow> (redis_err \<Rightarrow> string) \<Rightarrow> ('w, 'g) env \<Rightarrow> MuxServer \<Rightarrow> url_Values \<Rightarrow> 'w \<Rightarrow> (Resp \<times> 'w) go" where
  "GetQueueLengthAction dec et env ms form w =
     (case requested dec PlainReq ms form of
        Inl resp \<Rightarrow> Ret (resp, w)
      | Inr (r, mx) \<Rightarrow>
          go_bind (GetLength (e_redis env) (mx_storager mx) (req_Queue r) (req_Topic r) w)
            (\<lambda>((normal, retry, timeout, err), w').
               Ret (case err of Some e \<Rightarrow> fails_with StatusInternalServerError (et e)
                    | None \<Rightarrow> ok (DLengths normal retry timeout), w')))"

text \<open>
  \<open>SendPing\<close> and \<open>SendJobs\<close> of a registered worker: the remote side of a worker is given by \<open>senders\<close>; a
  process worker has none.
\<close>

definition muxer_SendPing :: "(Muxer \<Rightarrow> 'w RemoteSender) \<Rightarrow> Muxer \<Rightarrow> 'w \<Rightarrow> string option \<times> 'w" where
  "muxer_SendPing senders mx w =
     (case mx_kind mx of
        CgiKind k e n \<Rightarrow> Mux_SendPing (NewMux (mx_queue mx) (mx_topic mx) (senders mx) (mx_storager mx) n) w
      | HttpKind hcm n \<Rightarrow> HttpWorker_SendPing (NewHttpWorker (mx_queue mx) (mx_topic mx) (int n) (mx_storager mx) (senders mx)) w
      | CmdKind tc \<Rightarrow> (Worker_SendPing (NewWorker (mx_queue mx) (mx_storager mx) tc), w))"

definition muxer_SendJobs :: "(Muxer \<Rightarrow> 'w RemoteSender) \<Rightarrow> Muxer \<Rightarrow> Jobs \<Rightarrow> 'w \<Rightarrow> WorkerResponse option \<times> 'w" where
  "muxer_SendJobs senders mx jobs w =
     (case mx_kind mx of
        CgiKind k e n \<Rightarrow>
          (case Mux_SendJobs (NewMux (mx_queue mx) (mx_topic mx) (senders mx) (mx_storager mx) n) jobs w of (r, w') \<Rightarrow> (Some r, w'))
      | HttpKind hcm n \<Rightarrow>
          (case HttpWorker_SendJobs (NewHttpWorker (mx_queue mx) (mx_topic mx) (int n) (mx_storager mx) (senders mx)) jobs w of
             (r, w') \<Rightarrow> (Some r, w'))
      | CmdKind tc \<Rightarrow> (Worker_SendJobs (NewWorker (mx_queue mx) (mx_storager mx) tc) jobs, w))"

definition SendToCgiAction ::
  "schema_Decode \<Rightarrow> (Muxer \<Rightarrow> 'w RemoteSender) \<Rightarrow> ('w, 'g) env \<Rightarrow> MuxServer \<Rightarrow> url_Values \<Rightarrow> ('w, 'g) bus \<Rightarrow> Resp \<times> ('w, 'g) bus" where
  "SendToCgiAction dec senders env ms form b =
     (case requested dec TopicDataReq ms form of
        Inl resp \<Rightarrow> (resp, b)
      | Inr (r, mx) \<Rightarrow>
          if req_Type r = RequestTypePing then
            (case muxer_SendPing senders mx (wld b) of
               (e, w) \<Rightarrow> (ok (DText (case e of Some t \<Rightarrow> t | None \<Rightarrow> ''ok'')), b\<lparr>wld := w\<rparr>))
          else
            (let (tid, g1) = GenTraceId (e_gen env) (e_ServiceId env) (ids b);
                 (jid, g2) = GenId (e_gen env) g1;
                 jobs = \<lparr>inTraceId = tid, outTraceId = [], queueName = req_Queue r, topicName = req_Topic r, retrying = False,
                         Slice = [new_Job\<lparr>JobId := jid, InTraceId := tid, Content := req_Value r\<rparr>]\<rparr>;
                 (resp, w) = muxer_SendJobs senders mx jobs (wld b)
             in (ok (DResponse resp), b\<lparr>wld := w, ids := g2\<rparr>)))"

definition QueueConfigAction :: "Setting \<Rightarrow> Resp" where
  "QueueConfigAction st = ok (DConfs (current_QueueConfs st))"

definition GetMuxStatsAction :: "('w, 'g) bus \<Rightarrow> Resp" where
  "GetMuxStatsAction b = ok (DMuxStats (MuxStats_Output (MuxStat b)))"

definition GetGatewayStatsAction :: "('w, 'g) bus \<Rightarrow> Resp" where
  "GetGatewayStatsAction b = ok (DGatewayStats (GatewayStats_Output (GatewayStat b)))"

definition GetIdInfo :: "(int \<Rightarrow> int) \<Rightarrow> (id_err \<Rightarrow> string) \<Rightarrow> string \<Rightarrow> Resp" where
  "GetIdInfo GetTimeUnixMill et tid =
     (case ParseTraceId GetTimeUnixMill tid of
        Inl e \<Rightarrow> fails_with 400 (et e)
      | Inr busId \<Rightarrow> ok (DBusId busId))"

text \<open>\<open>CleanStatistics\<close>: how many of the three counters were deleted.\<close>

definition CleanStatisticsAction ::
  "schema_Decode \<Rightarrow> (QueueName \<Rightarrow> TopicName \<Rightarrow> bool \<times> bool \<times> bool) \<Rightarrow> url_Values \<Rightarrow> Resp" where
  "CleanStatisticsAction dec deleted form =
     (case dec PlainReq form of
        Inl e \<Rightarrow> fails_with StatusBadRequest e
      | Inr r \<Rightarrow>
          (case deleted (req_Queue r) (req_Topic r) of
             (f, s, c) \<Rightarrow>
               (let suc = (if f then 1 else 0) + (if s then 1 else 0) + (if c then 1 else (0::int)) in
                if suc = 0 then fails_with StatusBadRequest [CHR 0xE6, CHR 0xB8, CHR 0x85, CHR 0xE9, CHR 0x99, CHR 0xA4, CHR 0xE5, CHR 0xA4, CHR 0xB1, CHR 0xE8, CHR 0xB4, CHR 0xA5]
                else if 0 < suc \<and> suc < 3
                then fails_with StatusBadRequest [CHR 0xE6, CHR 0xB8, CHR 0x85, CHR 0xE9, CHR 0x99, CHR 0xA4, CHR 0xE4, CHR 0xB8, CHR 0x8D, CHR 0xE5, CHR 0xAE, CHR 0x8C, CHR 0xE6, CHR 0x95, CHR 0xB4]
                else ok (DCount suc))))"

definition CGIStatusAction ::
  "'w cgi_dev \<Rightarrow> string \<Rightarrow> 'w cgi_state \<Rightarrow> (Resp \<times> 'w cgi_state) go option" where
  "CGIStatusAction dev configKey s =
     (case SendStatus dev (NewCgiManager configKey []) s of
        None \<Rightarrow> None
      | Some r \<Rightarrow> Some (go_bind r (\<lambda>(x, s').
          Ret (case x of Inl e \<Rightarrow> fails_with 400 (cgi_err_text e) | Inr st \<Rightarrow> ok (DStatus st), s'))))"

text \<open>
  \<open>ManageServiceAction\<close>: the response, and the signal the process sends itself when the response is out.
  The cookie is absent (\<open>None\<close>) or has a value.
\<close>

definition SIGUSR2 :: int where "SIGUSR2 = 12"
definition SIGTERM :: int where "SIGTERM = 15"

definition ManageServiceAction :: "int \<Rightarrow> string option \<Rightarrow> string \<Rightarrow> Resp \<times> int option" where
  "ManageServiceAction pid cookie operation =
     (case cookie of
        None \<Rightarrow> (fails_with 400 ''http: named cookie not present'', None)
      | Some v \<Rightarrow>
          if v \<noteq> ''true'' then (\<lparr>ErrorCode_resp = 400, Error_resp = ''cookie not valid'', Data_resp = DText v\<rparr>, None)
          else (ok (DResult pid ''call success operation in action''),
                if operation = ''restart'' then Some SIGUSR2 else if operation = ''stop'' then Some SIGTERM else None))"

subsection \<open>Routing\<close>

definition isAllowedIP :: "data_Global \<Rightarrow> string \<Rightarrow> bool" where
  "isAllowedIP g ip = list_ex (\<lambda>aip. ip = aip) (AdminIpLimit g)"

definition trim_char :: "char \<Rightarrow> string \<Rightarrow> string" where
  "trim_char c s = rev (dropWhile (\<lambda>x. x = c) (rev (dropWhile (\<lambda>x. x = c) s)))"

text \<open>A parameter, from the URL or else from the form, and the check that parameters are given.\<close>

definition query :: "(string \<Rightarrow> string) \<Rightarrow> (string \<Rightarrow> string) \<Rightarrow> string \<Rightarrow> string" where
  "query url_Get form_Value q = trim_char (CHR '' '') (if url_Get q = [] then form_Value q else url_Get q)"

fun required :: "(string \<Rightarrow> string) \<Rightarrow> (string \<Rightarrow> string) \<Rightarrow> string list \<Rightarrow> Resp option" where
  "required url_Get form_Value [] = None"
| "required url_Get form_Value (v # args) =
     (if query url_Get form_Value v = []
      then Some \<lparr>ErrorCode_resp = 1, Error_resp = v @ '' is required'', Data_resp = NoData\<rparr>
      else required url_Get form_Value args)"

definition upper :: "char \<Rightarrow> char" where
  "upper c = (if 97 \<le> byte_of c \<and> byte_of c \<le> 122 then char_of (byte_of c - 32) else c)"

definition word_char :: "char \<Rightarrow> bool" where
  "word_char c \<longleftrightarrow> (48 \<le> byte_of c \<and> byte_of c \<le> 57) \<or> (65 \<le> byte_of c \<and> byte_of c \<le> 90)
     \<or> (97 \<le> byte_of c \<and> byte_of c \<le> 122) \<or> byte_of c = 95"

text \<open>\<open>strings.Title\<close> on ASCII: the first letter after a character that is no letter, digit or underscore.\<close>

fun title_after :: "bool \<Rightarrow> string \<Rightarrow> string" where
  "title_after sep [] = []"
| "title_after sep (c # s) = (if sep then upper c else c) # title_after (\<not> word_char c) s"

definition strings_Title :: "string \<Rightarrow> string" where
  "strings_Title s = title_after True s"

datatype action =
    HelloWorld | QueueConfig_action | GetCGIError | GetCGITaskDebug | Recover | CleanStatistics | CleanFailedJobs
  | GetQueueLength | SendToCgi | GetMuxStats | GetGatewayStats | GetMachineStats | CGIStatus_action | GetPid | ManageService

text \<open>The exported methods whose name ends in \<open>Action\<close>.\<close>

definition methods :: "(string, action) gomap" where
  "methods =
     [(''HelloWorldAction'', HelloWorld), (''QueueConfigAction'', QueueConfig_action), (''GetCGIErrorAction'', GetCGIError),
      (''GetCGITaskDebugAction'', GetCGITaskDebug), (''RecoverAction'', Recover), (''CleanStatisticsAction'', CleanStatistics),
      (''CleanFailedJobsAction'', CleanFailedJobs), (''GetQueueLengthAction'', GetQueueLength), (''SendToCgiAction'', SendToCgi),
      (''GetMuxStatsAction'', GetMuxStats), (''GetGatewayStatsAction'', GetGatewayStats),
      (''GetMachineStatsAction'', GetMachineStats), (''CGIStatusAction'', CGIStatus_action), (''GetPidAction'', GetPid),
      (''ManageServiceAction'', ManageService)]"

definition MethodByName :: "string \<Rightarrow> action option" where
  "MethodByName n = map_of methods n"

text \<open>\<open>None\<close>: the icon is answered with nothing.\<close>

definition ServiceHandler :: "string \<Rightarrow> action option" where
  "ServiceHandler path =
     (let pathInfo = trim_char (CHR ''/'') path in
      if pathInfo = ''favicon.ico'' then None
      else (let name = concat (map strings_Title (strings_Split pathInfo ''/'')) in
            Some (case MethodByName (name @ ''Action'') of Some a \<Rightarrow> a | None \<Rightarrow> HelloWorld)))"

subsection \<open>Gauges\<close>

type_synonym gauges = "(QueueName \<times> TopicName, int \<times> int \<times> int) gomap"

text \<open>\<open>updateTopicLength\<close> visits the configured topics; a topic without worker or with an error keeps its values.\<close>

fun update_lengths ::
  "('w, 'g) env \<Rightarrow> MuxServer \<Rightarrow> (QueueName \<times> TopicName) list \<Rightarrow> gauges \<Rightarrow> 'w \<Rightarrow> (gauges \<times> 'w) go" where
  "update_lengths env ms [] gs w = Ret (gs, w)"
| "update_lengths env ms ((q, t) # qts) gs w =
     (case GetMuxer ms q t of
        Inl e \<Rightarrow> update_lengths env ms qts gs w
      | Inr mx \<Rightarrow>
          go_bind (GetLength (e_redis env) (mx_storager mx) q t w) (\<lambda>((normal, retry, timeout, err), w1).
          update_lengths env ms qts (if err = None then AList.update (q, t) (normal, retry, timeout) gs else gs) w1))"

definition configured_topics :: "QueueConfs \<Rightarrow> (QueueName \<times> TopicName) list" where
  "configured_topics confs = concat (map (\<lambda>(q, qc). map (\<lambda>(t, _). (q, t)) (qc_Topic qc)) confs)"

definition updateTopicLength ::
  "('w, 'g) env \<Rightarrow> QueueConfs \<Rightarrow> MuxServer \<Rightarrow> gauges \<Rightarrow> 'w \<Rightarrow> (gauges \<times> 'w) go" where
  "updateTopicLength env confs ms gs w = update_lengths env ms (configured_topics confs) gs w"

record counters =
  queueAddCount :: "(string, nat) gomap"
  jobSuccessCount :: "(string \<times> string, nat) gomap"
  jobFailCount :: "(string \<times> string, nat) gomap"
  jobConsumes :: "((string \<times> string) \<times> int) list" \<comment> \<open>the observed milliseconds\<close>

definition Inc :: "'k \<Rightarrow> ('k, nat) gomap \<Rightarrow> ('k, nat) gomap" where
  "Inc k m = AList.update k (Suc (case map_of m k of None \<Rightarrow> 0 | Some n \<Rightarrow> n)) m"

definition addQueueStats :: "string \<Rightarrow> bool \<Rightarrow> counters \<Rightarrow> counters" where
  "addQueueStats queue succ c = (if succ then c\<lparr>queueAddCount := Inc queue (queueAddCount c)\<rparr> else c)"

definition addJobStats :: "string \<Rightarrow> string \<Rightarrow> int \<Rightarrow> bool \<Rightarrow> counters \<Rightarrow> counters" where
  "addJobStats queue topic duration succ c =
     (if succ
      then c\<lparr>jobConsumes := jobConsumes c @ [((queue, topic), sgn duration * (\<bar>duration\<bar> div 1000000))],
             jobSuccessCount := Inc (queue, topic) (jobSuccessCount c)\<rparr>
      else c\<lparr>jobFailCount := Inc (queue, topic) (jobFailCount c)\<rparr>)"

subsection \<open>The actions do what the storage promises\<close>

lemma requested_ok: "dec kind form = Inr r \<Longrightarrow> GetMuxer ms (req_Queue r) (req_Topic r) = Inr mx \<Longrightarrow> requested dec kind ms form = Inr (r, mx)"
  by (simp add: requested_def)

text \<open>What the gauges of a topic show.\<close>

definition lengths_of :: "(string \<Rightarrow> string \<Rightarrow> string list) \<Rightarrow> Muxer \<Rightarrow> QueueName \<times> TopicName \<Rightarrow> int \<times> int \<times> int" where
  "lengths_of L mx qt =
     (int (length (queued L (mx_storager mx) (fst qt) (snd qt) CommonQueue)),
      int (length (queued L (mx_storager mx) (fst qt) (snd qt) RetryQueue)),
      int (length (queued L (mx_storager mx) (fst qt) (snd qt) TimeoutQueue)))"

context redis_lists
begin

lemma RecoverAction_moves:
  assumes "e_redis env = cl" "up w" "dec CountReq form = Inr r" "GetMuxer ms (req_Queue r) (req_Topic r) = Inr mx"
    and "redisCli (mx_storager mx)" "ls = queued (lst w) (mx_storager mx) (req_Queue r) (req_Topic r) RetryQueue"
    and "int (length ls) < 2 ^ 63" "m = retry_moves (req_Count r) (length ls)"
  shows "\<exists>w'. RecoverAction dec et env ms form w = Ret (Some (ok (DCount (int m)), w')) \<and> up w'
     \<and> queued (lst w') (mx_storager mx) (req_Queue r) (req_Topic r) RetryQueue = drop m ls
     \<and> queued (lst w') (mx_storager mx) (req_Queue r) (req_Topic r) CommonQueue
       = queued (lst w) (mx_storager mx) (req_Queue r) (req_Topic r) CommonQueue @ take m ls"
  using RetryQueue_moves [OF assms(2,5), of "req_Queue r" "req_Topic r" m "req_Count r"] assms
  by (auto simp: RecoverAction_def requested_ok)

lemma CleanFailedJobsAction_empties:
  assumes "e_redis env = cl" "up w" "dec PlainReq form = Inr r" "GetMuxer ms (req_Queue r) (req_Topic r) = Inr mx"
    and "redisCli (mx_storager mx)"
  shows "\<exists>w'. CleanFailedJobsAction dec et env ms form w
       = Ret (ok (DCount (int (length (queued (lst w) (mx_storager mx) (req_Queue r) (req_Topic r) RetryQueue)))), w') \<and> up w'
     \<and> queued (lst w') (mx_storager mx) (req_Queue r) (req_Topic r) RetryQueue = []
     \<and> (\<forall>s' q' t' typ'. GetKey q' t' typ' \<noteq> GetKey (req_Queue r) (req_Topic r) RetryQueue \<or> address s' \<noteq> address (mx_storager mx)
          \<longrightarrow> queued (lst w') s' q' t' typ' = queued (lst w) s' q' t' typ')"
  using CleanQueue_empties [OF assms(2,5), of "req_Queue r" "req_Topic r" RetryQueue] assms
  by (auto simp: CleanFailedJobsAction_def requested_ok)

lemma GetQueueLengthAction_lengths:
  assumes "e_redis env = cl" "up w" "dec PlainReq form = Inr r" "GetMuxer ms (req_Queue r) (req_Topic r) = Inr mx"
    and "redisCli (mx_storager mx)"
  shows "\<exists>w'. GetQueueLengthAction dec et env ms form w
       = Ret (ok (DLengths (int (length (queued (lst w) (mx_storager mx) (req_Queue r) (req_Topic r) CommonQueue)))
                           (int (length (queued (lst w) (mx_storager mx) (req_Queue r) (req_Topic r) RetryQueue)))
                           (int (length (queued (lst w) (mx_storager mx) (req_Queue r) (req_Topic r) TimeoutQueue)))), w')
     \<and> up w' \<and> lst w' = lst w"
  using GetLength_lengths [OF assms(2,5), of "req_Queue r" "req_Topic r"] assms
  by (auto simp: GetQueueLengthAction_def requested_ok)

lemma update_lengths_gauges:
  assumes "e_redis env = cl" "up w" "\<forall>(q, t) \<in> set qts. \<forall>mx. GetMuxer ms q t = Inr mx \<longrightarrow> redisCli (mx_storager mx)"
  shows "\<exists>gs' w'. update_lengths env ms qts gs w = Ret (gs', w') \<and> up w' \<and> lst w' = lst w
     \<and> (\<forall>qt. map_of gs' qt = (if qt \<in> set qts then (case GetMuxer ms (fst qt) (snd qt) of
           Inr mx \<Rightarrow> Some (lengths_of (lst w) mx qt) | Inl e \<Rightarrow> map_of gs qt) else map_of gs qt))"
  using assms
proof (induction qts arbitrary: gs w rule: list.induct)
  case (Cons x qts)
  obtain q t where x: "x = (q, t)" by (cases x)
  have rest: "\<forall>(q, t) \<in> set qts. \<forall>mx. GetMuxer ms q t = Inr mx \<longrightarrow> redisCli (mx_storager mx)" using Cons.prems(3) by simp
  show ?case
  proof (cases "GetMuxer ms q t")
    case (Inl e)
    then show ?thesis using Cons.IH [OF Cons.prems(1,2) rest, of gs] by (fastforce simp: x)
  next
    case (Inr mx)
    then have "redisCli (mx_storager mx)" using Cons.prems(3) x by auto
    from GetLength_lengths [OF Cons.prems(2) this, of q t] obtain w1 where w1:
      "GetLength cl (mx_storager mx) q t w = Ret ((fst (lengths_of (lst w) mx x), fst (snd (lengths_of (lst w) mx x)), snd (snd (lengths_of (lst w) mx x)), None), w1)"
      "up w1" "lst w1 = lst w" by (auto simp: lengths_of_def x)
    then show ?thesis using Cons.IH [OF Cons.prems(1) w1(2) rest, of "AList.update (q, t) (lengths_of (lst w) mx x) gs"] w1 Inr Cons.prems(1)
      by (fastforce simp: x split: sum.splits)
  qed
qed simp

end

subsection \<open>Paths\<close>

lemma routes:
  "ServiceHandler ''/recover'' = Some Recover" "ServiceHandler ''/clean/failed/jobs'' = Some CleanFailedJobs"
  "ServiceHandler ''/get/queue/length'' = Some GetQueueLength" "ServiceHandler ''/send/to/cgi/'' = Some SendToCgi"
  "ServiceHandler ''/get/CGI/error'' = Some GetCGIError" "ServiceHandler ''/favicon.ico'' = None"
  by code_simp+

text \<open>Only a request with the right cookie stops or restarts the process; no address is checked.\<close>

lemma manage_needs_cookie: "snd (ManageServiceAction pid cookie operation) \<noteq> None \<Longrightarrow> cookie = Some ''true''"
  by (auto simp: ManageServiceAction_def split: option.splits if_splits)

text \<open>The id information is not an action, and nothing but the path decides which action runs.\<close>

lemma id_info_unreachable: "ServiceHandler ''/get/id/info'' = Some HelloWorld"
  by code_simp

end
