(* ===== verification/Demo.thy ===== *)
theory Demo
  imports MemRedis
begin

text \<open>
  A small bus: one queue with one topic that retries, served over HTTP, its lists in the in-memory
  server. It instantiates the interfaces of the development on the model's own definitions and is
  the concrete input of the examples that go with the theorems.
\<close>

definition demo_storage_conf :: StorageConfig where
  "demo_storage_conf = \<lparr>sc_Type = ''redis'', sc_Address = ''h:1'', sc_Auth = [], sc_MaxConnNum = 9,
     sc_MaxIdleNum = 3, sc_MaxIdleSeconds = 28\<rparr>"

definition demo_topic :: TopicConfig where
  "demo_topic = \<lparr>tc_Name = ''t'', tc_Password = ''pt'', tc_RetryTimes = 0, tc_MaxQueueLength = 0,
     tc_RunType = RunTypeHttp, tc_Storage = Some demo_storage_conf, tc_ConsumerEnable = False,
     tc_NumOfWorkers = 1, tc_ScriptEntry = ''http://x/'', tc_CgiConfigKey = [], tc_HttpConfig = [],
     tc_WorkerConfig = None, tc_IsRetry = True, tc_RetryTime = 100\<rparr>"

definition demo_queue :: QueueConfig where
  "demo_queue = \<lparr>qc_QueueName = ''q'', qc_Password = ''pq'', qc_Topic = [(''t'', demo_topic)], qc_ConsumerEnable = True\<rparr>"

definition demo_confs :: QueueConfs where
  "demo_confs = [(''q'', demo_queue)]"

definition demo_net :: data_Queue where
  "demo_net = \<lparr>CgiConfig_text = [], ErrorCollectionEnable = True, ErrorCollectionStorage = [], HttpConfig_text = [],
     QueueConfig_text = [], ShardId = 1, Tags = [''a''], TagsMapping_text = [], TaskDebugEnable = True,
     TaskDebugStorage = [], ConsumerDisable = False\<rparr>"

definition demo_store :: storage where
  "demo_store = (case NewStorage demo_storage_conf of Ret s \<Rightarrow> s | Panic \<Rightarrow> \<lparr>redisCli = False, address = []\<rparr>)"

definition demo_node :: node where
  "demo_node = \<lparr>nd_ConsumerDisable = False, nd_HttpConfigManager = Some \<lparr>RequestTimeout = 0, IdleConnTimeout = 0\<rparr>\<rparr>"

definition demo_gen :: "nat idgen" where
  "demo_gen n = (n, Suc n)"

definition demo_env :: "(mem, nat) env" where
  "demo_env = \<lparr>e_redis = mem_exec, e_gen = demo_gen, e_ServiceId = ''-1-2'', e_nanos = (\<lambda>w. 1000000000000),
     e_hostname = ''host'', e_net = demo_net, e_ec = demo_store, e_td = demo_store\<rparr>"

text \<open>A remote side that answers every request with the given code.\<close>

definition demo_do :: "string \<Rightarrow> mem client_do" where
  "demo_do code req w = (Inr \<lparr>ht_Header = [(''Code'', code)], ht_Body = Inr ''q/t''\<rparr>, w)"

definition demo_worker :: "string \<Rightarrow> mem HttpWorker" where
  "demo_worker code =
     NewHttpWorker ''q'' ''t'' 1 demo_store
       (hcm_sender (\<lambda>p. True) (demo_do code) \<lparr>hcm_Topic = demo_topic, hcm_path = ''http://x/''\<rparr>)"

definition demo_mux :: "string \<Rightarrow> mem Mux" where
  "demo_mux code = as_mux (demo_worker code)"

definition demo_job :: Job where
  "demo_job = new_Job\<lparr>JobId := ''1'', Content := ''hello''\<rparr>"

definition demo_tried :: Job where
  "demo_tried = demo_job\<lparr>RetryTimes := 1, RetryTime := 900, IsRetry := True, RetryResidueTime := 100\<rparr>"

definition demo_mem :: mem where
  "demo_mem = put (put (\<lambda>a k. []) ''h:1:'' ''q::t::list'' [job_text demo_job]) ''h:1:'' ''q::t::list_retry'' [job_text demo_tried]"

definition demo_bus :: "(mem, nat) bus" where
  "demo_bus = \<lparr>wld = demo_mem, ids = 7, MuxStat = NewMuxStats, GatewayStat = NewGatewayStats\<rparr>"

text \<open>A bus with jobs that were not delivered yet.\<close>

definition demo_fresh :: "nat \<Rightarrow> (mem, nat) bus" where
  "demo_fresh n = demo_bus\<lparr>wld := put (\<lambda>a k. []) ''h:1:'' ''q::t::list'' (replicate n (job_text demo_job))\<rparr>"

definition demo_server :: MuxServer where
  "demo_server =
     (case Serve_cmd demo_node NewMuxServer \<lparr>cmd_conf = demo_queue, cmd_op = CmdQueueAdd\<rparr> of
        Ret ms \<Rightarrow> ms | Panic \<Rightarrow> NewMuxServer)"

lemma demo_NewStorage [simp]: "NewStorage demo_storage_conf = Ret demo_store"
  and demo_store_simps [simp]: "redisCli demo_store" "address demo_store = ''h:1:''"
proof -
  have n: "NewStorage demo_storage_conf = Ret \<lparr>redisCli = True, address = ''h:1:''\<rparr>"
    by (simp add: NewStorage_def demo_storage_conf_def pool_panics_def chan_size_ok_def)
  then show "NewStorage demo_storage_conf = Ret demo_store" "redisCli demo_store" "address demo_store = ''h:1:''"
    by (simp_all add: demo_store_def)
qed

lemma demo_conf_ok [simp]: "wf_conf demo_node demo_queue" "wf_conf demo_node (demo_queue\<lparr>qc_QueueName := n\<rparr>)"
  by (simp_all add: wf_conf_def demo_queue_def wf_map_def topic_ok_def demo_topic_def demo_node_def)

lemma demo_env_simps [simp]:
  "e_redis demo_env = mem_exec" "e_net demo_env = demo_net" "e_ec demo_env = demo_store" "e_td demo_env = demo_store"
  "unix demo_env w = 1000" "e_ServiceId demo_env = ''-1-2''" "e_gen demo_env = demo_gen"
  by (simp_all add: demo_env_def unix_def)

lemma demo_mux_simps [simp]:
  "mux_storager (demo_mux c) = demo_store" "mux_queue (demo_mux c) = ''q''" "mux_topic (demo_mux c) = ''t''"
  by (simp_all add: demo_mux_def demo_worker_def NewHttpWorker_def)

lemma demo_jobs_wf [simp]: "wf_job demo_job" "wf_job demo_tried"
  by (simp_all add: wf_job_def demo_job_def demo_tried_def new_Job_def valid_utf8_ascii in_i64_def)

lemma demo_up [simp]: "mem_up w"
  by (simp add: mem_up_def)

lemma demo_wld [simp]: "wld demo_bus = demo_mem" "ids demo_bus = 7"
  by (simp_all add: demo_bus_def)

lemma demo_keys [simp]:
  "GetKey ''q'' ''t'' CommonQueue = ''q::t::list''" "GetKey ''q'' ''t'' RetryQueue = ''q::t::list_retry''"
  "GetKey ''q'' ''t'' TimeoutQueue = ''q::t::list_timeout''"
  by (simp_all add: GetKey_def IsRetryQueue_def IsTimeoutQueue_def)

lemma demo_queued [simp]:
  "queued demo_mem demo_store ''q'' ''t'' CommonQueue = [demo_job]"
  "queued demo_mem demo_store ''q'' ''t'' RetryQueue = [demo_tried]"
  "queued demo_mem demo_store ''q'' ''t'' TimeoutQueue = []"
  by (simp_all add: queued_def demo_mem_def put_def)

lemma demo_fresh_queued [simp]:
  "queued (wld (demo_fresh n)) demo_store ''q'' ''t'' CommonQueue = replicate n demo_job"
  "queued (wld (demo_fresh n)) demo_store ''q'' ''t'' RetryQueue = []"
  "queued (wld (demo_fresh n)) demo_store ''q'' ''t'' TimeoutQueue = []"
  by (simp_all add: queued_def demo_fresh_def put_def map_replicate_const [symmetric])

lemma demo_topic_conf [simp]: "topic_conf demo_confs ''q'' ''t'' = Some demo_topic" "in_i64 (tc_RetryTime demo_topic)"
  by (simp_all add: topic_conf_def demo_confs_def demo_queue_def demo_topic_def in_i64_def)

text \<open>An HTTP client that does not touch the lists of the bus is a remote side as the workers need it.\<close>

lemma hcm_sender_frame:
  assumes "\<And>req w. snd (client_do req w) = w" "rs_SendJobs (hcm_sender path_ok client_do hcm) jobs w = (r, w')"
  shows "w' = w"
proof -
  have "hcm_request path_ok client_do hcm p v w = (r, w') \<Longrightarrow> w' = w" for p v
    using assms(1) by (simp add: hcm_request_def Let_def split: option.splits sum.splits prod.splits if_splits)
      (metis snd_conv)+
  then show ?thesis using assms(2) by (simp add: hcm_sender_def hcm_SendJobs_def)
qed

lemma demo_sender [simp]:
  "mux_sender (demo_mux code) =
     hcm_sender (\<lambda>p. True) (demo_do code) \<lparr>hcm_Topic = demo_topic, hcm_path = ''http://x/''\<rparr>"
  by (simp add: demo_mux_def demo_worker_def NewHttpWorker_def)

interpretation demo: served_topic mem_exec "\<lambda>w. w" mem_up demo_env "demo_mux code" for code
proof
  fix w w' jobs r
  assume "rs_SendJobs (mux_sender (demo_mux code)) jobs w = (r, w')"
  then have "w' = w"
    unfolding demo_sender by (rule hcm_sender_frame [rotated]) (simp add: demo_do_def)
  then show "mem_up w' \<and> w' = w" by simp
qed (simp_all add: collection_ok_def plain_name_def in_i64_def)

interpretation demo_gw: gateway mem_exec "\<lambda>w. w" mem_up demo_env
  by unfold_locales (simp_all add: collection_ok_def ascii_def)

interpretation demo_store: topic_store mem_exec "\<lambda>w. w" mem_up demo_gen "''-1-2''" demo_store "''q''" "''t''"
  by unfold_locales simp

lemma demo_send [simp]:
  "code \<noteq> [] \<Longrightarrow>
   rs_SendJobs (hcm_sender (\<lambda>p. True) (demo_do code) \<lparr>hcm_Topic = demo_topic, hcm_path = ''http://x/''\<rparr>) jobs w
     = (Inr \<lparr>Code = code, ErrorCode = [], ConsumeTopics = [], Msg = ''q/t''\<rparr>, w)"
  by (simp add: hcm_sender_def hcm_SendJobs_def hcm_request_def demo_do_def demo_topic_def Header_Get_def)

lemma sent_Inr [simp]: "sent (Inr resp) = resp"
  by (simp add: sent_def)

definition demo_muxer :: Muxer where
  "demo_muxer = \<lparr>mx_queue = ''q'', mx_topic = ''t'', mx_storager = demo_store,
     mx_kind = HttpKind \<lparr>hcm_Topic = demo_topic, hcm_path = ''http://x/''\<rparr> 1, mx_serving = True\<rparr>"

lemma demo_server_inv [simp]:
  "map_of (mux demo_server) ''q'' = Some [(''t'', demo_muxer)]" "queueConfig demo_server = demo_confs" "ms_inv demo_server"
proof -
  have s: "Serve_cmd demo_node NewMuxServer \<lparr>cmd_conf = demo_queue, cmd_op = CmdQueueAdd\<rparr> = Ret demo_server"
    "demo_server = \<lparr>mux = [(''q'', [(''t'', demo_muxer)])], queueConfig = demo_confs, cmdC = [], closed = []\<rparr>"
    by (simp_all add: Serve_cmd_def NewMuxServer_def demo_queue_def demo_confs_def demo_topic_def new_muxer_def Let_def
        RunTypeHttp_def RunTypeCGI_def demo_muxer_def demo_server_def demo_node_def)
  show "map_of (mux demo_server) ''q'' = Some [(''t'', demo_muxer)]" "queueConfig demo_server = demo_confs"
    by (simp_all add: s(2))
  show "ms_inv demo_server"
    by (rule Serve_cmd_inv [OF s(1)]) (simp_all add: ms_inv_def NewMuxServer_def demo_queue_def wf_map_def)
qed

definition demo_gateway :: "(mem, nat) gw_params" where
  "demo_gateway = \<lparr>gp_lookup = map lower, gp_wrong = (\<lambda>n. ''ERR''), gp_unknown = (\<lambda>n. ''ERR''), gp_info = [], gp_err_text = (\<lambda>e. []),
     gp_confs = demo_confs, gp_env = demo_env, gp_server = demo_server\<rparr>"

end
