(* ===== verification/Sdk.thy ===== *)
theory Sdk
  imports Gateway RedisCommandSet
begin

text \<open>
  The Go SDK (\<open>sdk/golang\<close>): the client that submits jobs over the Redis protocol, and the HTTP server that
  receives them from the bus and calls the registered handlers.

  Handlers are functions of the application on its own state; the commands of the client go through a
  parameter, the command call of \<open>Storage\<close>. The value a handler returns as data is a JSON value, or
  \<open>None\<close> when \<open>encoding/json\<close> cannot render it. Choosing the handler for a path is modelled in
  \<open>SdkServe\<close>; the listener is left out.

  The lemmas show that a form is decoded as it was encoded, that a batch sent by the HTTP worker of the
  bus reaches exactly the handler registered for its topic, and that the worker sees the handler's code.
\<close>

subsection \<open>Forms\<close>

definition unhex :: "char \<Rightarrow> nat option" where
  "unhex c =
     (let n = (of_char c :: nat) in
      if 48 \<le> n \<and> n \<le> 57 then Some (n - 48)
      else if 97 \<le> n \<and> n \<le> 102 then Some (n - 87)
      else if 65 \<le> n \<and> n \<le> 70 then Some (n - 55)
      else None)"

fun QueryUnescape :: "string \<Rightarrow> string option" where
  "QueryUnescape [] = Some []"
| "QueryUnescape (c # s) =
     (if c = CHR ''%'' then
        (case s of
           x # y # r \<Rightarrow>
             (case (unhex x, unhex y) of
                (Some a, Some b) \<Rightarrow> map_option (\<lambda>t. char_of (16 * a + b) # t) (QueryUnescape r)
              | _ \<Rightarrow> None)
         | _ \<Rightarrow> None)
      else map_option (\<lambda>t. (if c = CHR ''+'' then CHR '' '' else c) # t) (QueryUnescape s))"

text \<open>
  \<open>url.ParseQuery\<close>: the parts between \<open>&\<close> or \<open>;\<close>, each cut at its first \<open>=\<close>; a part with a broken escape is
  skipped (the error it leaves is ignored by the code).
\<close>

definition query_parts :: "string \<Rightarrow> string list" where
  "query_parts s = strings_Split (map (\<lambda>c. if c = CHR '';'' then CHR ''&'' else c) s) ''&''"

definition add_part :: "string \<Rightarrow> url_Values \<Rightarrow> url_Values" where
  "add_part p m =
     (if p = [] then m
      else (let k = takeWhile (\<lambda>c. c \<noteq> CHR ''='') p; v = drop 1 (dropWhile (\<lambda>c. c \<noteq> CHR ''='') p) in
            case (QueryUnescape k, QueryUnescape v) of (Some k', Some v') \<Rightarrow> Values_Add m k' v' | _ \<Rightarrow> m))"

definition ParseQuery :: "string \<Rightarrow> url_Values" where
  "ParseQuery s = fold add_part (query_parts s) []"

definition FormValue :: "url_Values \<Rightarrow> string \<Rightarrow> string" where
  "FormValue form k = (case map_of form k of Some (x # _) \<Rightarrow> x | _ \<Rightarrow> [])"

subsection \<open>The server\<close>

record sdk_Resp =
  sr_ErrorCode :: int
  sr_Code :: int
  sr_Data :: "json option"

definition ExecSuccess :: int where "ExecSuccess = 200"
definition ExecFail :: int where "ExecFail = 500"
definition ExecNotFound :: int where "ExecNotFound = 404"

definition sdk_marshal :: "sdk_Resp \<Rightarrow> string option" where
  "sdk_marshal r =
     map_option (\<lambda>d. json_marshal (JObj [(''error_code'', JNum (show_int (sr_ErrorCode r))), (''code'', JNum (show_int (sr_Code r))),
       (''data'', d)])) (sr_Data r)"

text \<open>A handler may return a nil response (\<open>None\<close>).\<close>

type_synonym 'w WorkerHandler = "url_Values \<Rightarrow> 'w \<Rightarrow> sdk_Resp option \<times> 'w"

record 'w WorkerRouter =
  wr_pattern :: string
  queueTopicSet :: "(string, 'w WorkerHandler) gomap"

type_synonym 'w Router = "(string, 'w WorkerRouter) gomap"

definition NewWorkerRouter :: "string \<Rightarrow> 'w Router \<Rightarrow> 'w WorkerRouter \<times> 'w Router" where
  "NewWorkerRouter pattern rs =
     (let wr = \<lparr>wr_pattern = pattern, queueTopicSet = []\<rparr> in (wr, AList.update pattern wr rs))"

text \<open>Registering a topic twice ends the process (\<open>None\<close>).\<close>

definition RegisterJobHandler ::
  "string \<Rightarrow> string \<Rightarrow> 'w WorkerHandler \<Rightarrow> 'w WorkerRouter \<Rightarrow> 'w WorkerRouter option" where
  "RegisterJobHandler queue topic handlerFunc wr =
     (let qt = queue @ ''/'' @ topic in
      if map_of (queueTopicSet wr) qt \<noteq> None then None
      else Some (wr\<lparr>queueTopicSet := AList.update qt handlerFunc (queueTopicSet wr)\<rparr>))"

text \<open>
  The label \<open>final\<close>: the response that is written, or \<open>None\<close> when a nil response is dereferenced; what the handler did
  to the state of the application is done in both cases.
\<close>

definition finish :: "sdk_Resp option \<Rightarrow> (string, string) gomap \<Rightarrow> string \<Rightarrow> 'w \<Rightarrow> http_response option \<times> 'w" where
  "finish resp header result w =
     (case resp of
        None \<Rightarrow> (None, w)
      | Some r \<Rightarrow>
          (Some \<lparr>ht_Header = AList.update ''Error-Code'' (show_int (sr_ErrorCode r)) (AList.update ''Code'' (show_int (sr_Code r)) header),
                ht_Body = Inr result\<rparr>, w))"

text \<open>
  The handler that \<open>Serve\<close> installs for a router. A nil response is rendered as \<open>null\<close> and then
  dereferenced; data that cannot be rendered becomes \<open>null\<close> with the code 500.
\<close>

definition worker_serve :: "'w WorkerRouter \<Rightarrow> http_request \<Rightarrow> 'w \<Rightarrow> http_response option \<times> 'w" where
  "worker_serve router req w =
     (let form = ParseQuery (hr_body req) in
      if (case map_of (hr_Header req) ''IS-PEPPER-BUS-REQUEST'' of None \<Rightarrow> [] | Some v \<Rightarrow> v) \<noteq> ''true''
      then finish (Some \<lparr>sr_ErrorCode = ExecFail, sr_Code = ExecFail, sr_Data = Some (JStr ''not invalid header'')\<rparr>) [] [] w
      else if FormValue form ''type'' = ''ping'' then
        (let sl = keys (queueTopicSet router) in
         finish (Some \<lparr>sr_ErrorCode = 0, sr_Code = ExecSuccess, sr_Data = Some (JStr [])\<rparr>)
           [(''Consume-Topics'', strings_Join sl '','')] (concat (map (\<lambda>key. key @ '','') sl)) w)
      else if FormValue form ''type'' = ''data'' then
        (let (resp, w1) =
           (case map_of (queueTopicSet router) (FormValue form ''queue'' @ ''/'' @ FormValue form ''topic'') of
              Some handlerFunc \<Rightarrow> handlerFunc form w
            | None \<Rightarrow> (Some \<lparr>sr_ErrorCode = ExecNotFound, sr_Code = ExecNotFound, sr_Data = Some (JStr [])\<rparr>, w))
         in case resp of
              None \<Rightarrow> finish None [] ''null'' w1
            | Some r \<Rightarrow>
                (case sdk_marshal r of
                   None \<Rightarrow> finish (Some \<lparr>sr_ErrorCode = ExecFail, sr_Code = ExecFail, sr_Data = Some JNull\<rparr>) [] ''null'' w1
                 | Some resu \<Rightarrow> finish (Some r) [] resu w1))
      else finish (Some \<lparr>sr_ErrorCode = 0, sr_Code = ExecSuccess, sr_Data = Some (JStr [])\<rparr>) [] [] w)"

definition NotFound_body :: string where
  "NotFound_body = json_marshal (JObj [(''error_code'', JNum (show_int ExecNotFound)), (''code'', JNum (show_int ExecNotFound)),
     (''data'', JStr [])])"

text \<open>The wrapper around other handlers: a request of the bus is answered with the code 404.\<close>

definition other_serve :: "(http_request \<Rightarrow> 'w \<Rightarrow> string \<times> 'w) \<Rightarrow> http_request \<Rightarrow> 'w \<Rightarrow> http_response \<times> 'w" where
  "other_serve handler req w =
     (case handler req w of
        (body, w') \<Rightarrow>
          (\<lparr>ht_Header =
              (if FormValue (ParseQuery (hr_body req)) ''IS_PEPPER_BUS_REQUEST'' = ''true''
               then [(''Code'', show_int ExecNotFound), (''Error-Code'', show_int ExecNotFound)] else []),
            ht_Body = Inr body\<rparr>, w'))"

subsection \<open>The client\<close>

datatype content = CStr string | CBytes string | COther "json option"

definition content_text :: "content \<Rightarrow> string option" where
  "content_text c = (case c of CStr s \<Rightarrow> Some s | CBytes b \<Rightarrow> Some b | COther v \<Rightarrow> map_option json_marshal v)"

definition sdk_Auth :: "'w client \<Rightarrow> string \<Rightarrow> string \<Rightarrow> string \<Rightarrow> 'w \<Rightarrow> redis_err option \<times> 'w" where
  "sdk_Auth cl addr queue password w =
     (case AUTH (cl addr) (queue @ '':'' @ password) w of ((_, err), w') \<Rightarrow> (err, w'))"

text \<open>A content that cannot be rendered returns its (JSON) error before anything is sent: \<open>None\<close>.\<close>

definition sdk_AddJobs ::
  "'w client \<Rightarrow> string \<Rightarrow> string \<Rightarrow> string \<Rightarrow> content list \<Rightarrow> 'w \<Rightarrow> (redis_err option \<times> 'w) option" where
  "sdk_AddJobs cl addr queue password contents w =
     (case those (map content_text contents) of
        None \<Rightarrow> None
      | Some texts \<Rightarrow>
          (case sdk_Auth cl addr queue password w of
             (Some e, w1) \<Rightarrow> Some (Some e, w1)
           | (None, w1) \<Rightarrow>
               (case LPUSH (cl addr) (queue @ ''/default'') texts w1 of ((_, err), w2) \<Rightarrow> Some (err, w2))))"

subsection \<open>Forms are decoded as they were encoded\<close>

lemma unhex_hex_digit: "d < 16 \<Longrightarrow> unhex (hex_digit d) = Some d"
  by (simp add: unhex_def hex_digit_def)

lemma QueryUnescape_Escape: "QueryUnescape (QueryEscape s) = Some s"
proof (induction s)
  case (Cons c s)
  have "(of_char c :: nat) < 256" by simp
  then have "(of_char c :: nat) div 16 < 16" "(of_char c :: nat) mod 16 < 16" by (simp_all add: less_mult_imp_div_less)
  note hex = unhex_hex_digit [OF this(1)] unhex_hex_digit [OF this(2)]
  have byte: "char_of (16 * ((of_char c :: nat) div 16) + (of_char c :: nat) mod 16) = c" by simp
  have plain: "unreserved c \<Longrightarrow> c \<noteq> CHR ''%'' \<and> c \<noteq> CHR ''+''" by (auto simp: unreserved_def Let_def)
  consider "unreserved c" | "c = CHR '' ''" "\<not> unreserved c" | "c \<noteq> CHR '' ''" "\<not> unreserved c" by blast
  then show ?case
  proof cases
    case 1
    then show ?thesis using Cons plain by simp
  next
    case 2
    then show ?thesis using Cons by simp
  next
    case 3
    then have "QueryEscape (c # s) = CHR ''%'' # hex_digit (of_char c div 16) # hex_digit (of_char c mod 16) # QueryEscape s" by simp
    then show ?thesis using Cons hex byte by (simp del: QueryEscape.simps)
  qed
qed simp

lemma QueryEscape_chars: "x \<in> set (QueryEscape s) \<Longrightarrow> x \<noteq> CHR ''&'' \<and> x \<noteq> CHR '';'' \<and> x \<noteq> CHR ''=''"
proof (induction s)
  case (Cons c s)
  have hex: "hex_digit d \<noteq> CHR ''&'' \<and> hex_digit d \<noteq> CHR '';'' \<and> hex_digit d \<noteq> CHR ''=''" if "d < 16" for d
    using unhex_hex_digit [OF that] by (auto simp: unhex_def)
  have "(of_char c :: nat) < 256" by simp
  then have d: "(of_char c :: nat) div 16 < 16" "(of_char c :: nat) mod 16 < 16" by (simp_all add: less_mult_imp_div_less)
  from Cons.prems consider "x \<in> set (QueryEscape s)" | "unreserved c" "x = c" | "x = CHR ''+''" | "x = CHR ''%''"
    | "x = hex_digit (of_char c div 16)" | "x = hex_digit (of_char c mod 16)"
    by (auto split: if_splits)
  then show ?case using Cons.IH hex [OF d(1)] hex [OF d(2)] by cases (auto simp: unreserved_def)
qed simp

lemma set_insert_key [simp]: "set (insert_key k xs) = insert k (set xs)"
  by (induction xs) auto

lemma distinct_insert_key: "distinct xs \<Longrightarrow> k \<notin> set xs \<Longrightarrow> distinct (insert_key k xs)"
  by (induction xs) auto

lemma sorted_keys:
  "distinct (ks @ xs) \<Longrightarrow> distinct (fold insert_key ks xs) \<and> set (fold insert_key ks xs) = set ks \<union> set xs"
proof (induction ks arbitrary: xs)
  case (Cons k ks)
  have "distinct (ks @ insert_key k xs)" using Cons.prems by (auto simp: distinct_insert_key)
  from Cons.IH [OF this] show ?case by auto
qed simp

definition form_pairs :: "url_Values \<Rightarrow> (string \<times> string) list" where
  "form_pairs v = concat (map (\<lambda>k. map (Pair k) (case map_of v k of None \<Rightarrow> [] | Some xs \<Rightarrow> xs)) (fold insert_key (keys v) []))"

definition enc_part :: "string \<times> string \<Rightarrow> string" where
  "enc_part kx = QueryEscape (fst kx) @ ''='' @ QueryEscape (snd kx)"

lemma Values_Encode_pairs: "Values_Encode v = strings_Join (map enc_part (form_pairs v)) ''&''"
  by (simp add: Values_Encode_def form_pairs_def enc_part_def map_concat comp_def)

lemma add_part_enc: "add_part (enc_part (k, x)) m = Values_Add m k x"
proof -
  have no: "CHR ''='' \<notin> set (QueryEscape k)" using QueryEscape_chars by blast
  then have "takeWhile (\<lambda>c. c \<noteq> CHR ''='') (enc_part (k, x)) = QueryEscape k"
    "dropWhile (\<lambda>c. c \<noteq> CHR ''='') (enc_part (k, x)) = CHR ''='' # QueryEscape x"
    using cut_sep [of "CHR ''=''" "QueryEscape k" "QueryEscape x"]
    by (simp_all add: enc_part_def del: dropWhile_append2 takeWhile_append2)
  then show ?thesis by (simp add: add_part_def QueryUnescape_Escape) (simp add: enc_part_def)
qed

lemma query_parts_Join:
  assumes "ps \<noteq> []" "\<forall>p \<in> set ps. CHR ''&'' \<notin> set p \<and> CHR '';'' \<notin> set p"
  shows "query_parts (strings_Join ps ''&'') = ps"
proof -
  have same: "map (\<lambda>c. if c = CHR '';'' then CHR ''&'' else c) p = p" if "CHR '';'' \<notin> set p" for p
    using that by (induction p) auto
  have "CHR '';'' \<notin> set (strings_Join ps ''&'')" using assms(2) by (induction ps "''&''" rule: strings_Join.induct) auto
  then have "query_parts (strings_Join ps ''&'') = strings_Split (strings_Join ps ''&'') ''&''"
    by (simp add: query_parts_def same)
  also have "\<dots> = ps" using assms
  proof (induction ps)
    case (Cons p ps)
    then show ?case by (cases ps) (simp_all add: strings_Split_no_sep strings_Split_sep strings_Join_Cons)
  qed simp
  finally show ?thesis .
qed

lemma ParseQuery_Encode:
  assumes "wf_map v" "\<forall>(k, xs) \<in> set v. xs \<noteq> []"
  shows "map_of (ParseQuery (Values_Encode v)) = map_of v"
proof -
  let ?ps = "form_pairs v"
  have parse: "ParseQuery (Values_Encode v) = fold (\<lambda>(k, x) m. Values_Add m k x) ?ps []"
  proof (cases "?ps = []")
    case True
    then show ?thesis by (simp add: Values_Encode_pairs ParseQuery_def query_parts_def strings_Split_def add_part_def)
  next
    case False
    have "\<forall>p \<in> set (map enc_part ?ps). CHR ''&'' \<notin> set p \<and> CHR '';'' \<notin> set p"
      using QueryEscape_chars by (fastforce simp: enc_part_def)
    then have "query_parts (Values_Encode v) = map enc_part ?ps" using False by (simp add: Values_Encode_pairs query_parts_Join)
    moreover have "fold add_part (map enc_part ps) m = fold (\<lambda>(k, x) m. Values_Add m k x) ps m" for ps m
      by (induction ps arbitrary: m) (auto simp: add_part_enc)
    ultimately show ?thesis by (simp add: ParseQuery_def)
  qed
  have ks: "distinct (fold insert_key (keys v) [])" "set (fold insert_key (keys v) []) = set (keys v)"
    using sorted_keys [of "keys v" "[]"] assms(1) by (simp_all add: wf_map_def)
  have vals: "map snd (filter (\<lambda>p. fst p = k) ?ps) = (case map_of v k of None \<Rightarrow> [] | Some xs \<Rightarrow> xs)" for k
  proof -
    have "map snd (filter (\<lambda>p. fst p = k) (concat (map (\<lambda>k. map (Pair k) (f k)) ks))) = (if k \<in> set ks then f k else [])"
      if "distinct ks" for ks :: "string list" and f :: "string \<Rightarrow> string list"
      using that by (induction ks) (auto simp: filter_map comp_def filter_empty_conv)
    from this [OF ks(1), of "\<lambda>k. case map_of v k of None \<Rightarrow> [] | Some xs \<Rightarrow> xs"]
    show ?thesis by (auto simp: form_pairs_def ks(2) split: option.splits dest: map_of_SomeD intro: rev_image_eqI)
  qed
  show ?thesis
  proof
    fix k
    have "map_of v k = Some xs \<Longrightarrow> xs \<noteq> []" for xs using assms(2) by (auto dest: map_of_SomeD)
    then show "map_of (ParseQuery (Values_Encode v)) k = map_of v k"
      using vals [of k] by (auto simp: parse fold_Values_Add split: option.splits if_splits)
  qed
qed

subsection \<open>A batch reaches the handler of its topic\<close>

text \<open>The bus talks to the server: a handler that panics closes the connection (\<open>net/http\<close> recovers).\<close>

definition serve_do :: "'w WorkerRouter \<Rightarrow> 'w client_do" where
  "serve_do router req w = (case worker_serve router req w of (None, w') \<Rightarrow> (Inl ''EOF'', w') | (Some resp, w') \<Rightarrow> (Inr resp, w'))"

definition job_form :: "Jobs \<Rightarrow> url_Values" where
  "job_form jobs =
     [(''type'', [RequestTypeData]), (''outTraceId'', [outTraceId jobs]), (''jobs'', [jobs_json jobs]),
      (''queue'', [queueName jobs]), (''topic'', [topicName jobs]), (''IS_PEPPER_BUS_REQUEST'', [''true''])]"

lemma FormValue_parsed:
  assumes "wf_map v" "\<forall>(k, xs) \<in> set v. xs \<noteq> []"
  shows "FormValue (ParseQuery (Values_Encode v)) = FormValue v"
  by (rule ext) (simp add: FormValue_def ParseQuery_Encode [OF assms])

lemma job_form_sent: "Values_Add [(''type'', [RequestTypeData]), (''outTraceId'', [outTraceId jobs]), (''jobs'', [jobs_json jobs]),
    (''queue'', [queueName jobs]), (''topic'', [topicName jobs])] ''IS_PEPPER_BUS_REQUEST'' ''true'' = job_form jobs"
  by (simp add: Values_Add_def job_form_def)

lemma job_form_wf: "wf_map (job_form jobs)" "\<forall>(k, xs) \<in> set (job_form jobs). xs \<noteq> []"
  by (simp_all add: job_form_def wf_map_def)

lemma job_form_values:
  "FormValue (job_form jobs) ''type'' = ''data''" "FormValue (job_form jobs) ''queue'' = queueName jobs"
  "FormValue (job_form jobs) ''topic'' = topicName jobs" "FormValue (job_form jobs) ''jobs'' = jobs_json jobs"
  by (simp_all add: job_form_def FormValue_def RequestTypeData_def)

lemma show_int_ne [simp]: "show_int n \<noteq> []"
  by (cases "show_int n") (use show_int_hd [of n] in \<open>auto\<close>)

text \<open>What the worker gets back for a response of the server.\<close>

lemma hcm_SendJobs_serve:
  assumes "path_ok (hcm_path hcm)" "tc_HttpConfig (hcm_Topic hcm) = []"
  shows "hcm_SendJobs path_ok (serve_do router) hcm jobs w =
     (case map_of (queueTopicSet router) (queueName jobs @ ''/'' @ topicName jobs) of
        None \<Rightarrow> (Inr \<lparr>Code = ''404'', ErrorCode = ''404'', ConsumeTopics = [], Msg = NotFound_body\<rparr>, w)
      | Some h \<Rightarrow>
          (case h (ParseQuery (Values_Encode (job_form jobs))) w of
             (None, w') \<Rightarrow> (Inl ''EOF'', w')
           | (Some r, w') \<Rightarrow>
               (case sdk_marshal r of
                  None \<Rightarrow> (Inr \<lparr>Code = ''500'', ErrorCode = ''500'', ConsumeTopics = [], Msg = ''null''\<rparr>, w')
                | Some body \<Rightarrow>
                    (Inr \<lparr>Code = show_int (sr_Code r), ErrorCode = show_int (sr_ErrorCode r), ConsumeTopics = [], Msg = body\<rparr>, w'))))"
proof -
  have codes: "show_int 404 = ''404''" "show_int 500 = ''500''" by code_simp+
  let ?form = "ParseQuery (Values_Encode (job_form jobs))"
  have f: "FormValue ?form ''type'' = ''data''" "FormValue ?form ''queue'' = queueName jobs" "FormValue ?form ''topic'' = topicName jobs"
    by (simp_all add: FormValue_parsed [OF job_form_wf] job_form_values)
  show ?thesis unfolding hcm_SendJobs_def hcm_request_def job_form_sent using assms
    by (simp add: serve_do_def worker_serve_def f finish_def Let_def Header_Get_def codes ExecNotFound_def ExecFail_def
        NotFound_body_def sdk_marshal_def split: option.split prod.split)
qed

text \<open>The ping succeeds for exactly the registered topics (names without commas).\<close>

lemma split_topics: "\<forall>k \<in> set ks. CHR '','' \<notin> set k \<Longrightarrow> strings_Split (concat (map (\<lambda>key. key @ '','') ks)) '','' = ks @ [[]]"
proof (induction ks)
  case Nil
  then show ?case by (simp add: strings_Split_no_sep)
next
  case (Cons k ks)
  then show ?case by (simp add: strings_Split_sep)
qed

lemma SendPing_serve:
  assumes "path_ok (hcm_path hcm)" "tc_HttpConfig (hcm_Topic hcm) = []" "\<forall>k \<in> set (keys (queueTopicSet router)). CHR '','' \<notin> set k"
  shows "fst (HttpWorker_SendPing (NewHttpWorker q t n s (hcm_sender path_ok (serve_do router) hcm)) w) = None \<longleftrightarrow>
     map_of (queueTopicSet router) (q @ ''/'' @ t) \<noteq> None"
proof -
  let ?v = "[(''type'', [RequestTypePing]), (''IS_PEPPER_BUS_REQUEST'', [''true''])]"
  have "FormValue (ParseQuery (Values_Encode ?v)) ''type'' = ''ping''"
    by (subst FormValue_parsed) (simp_all add: wf_map_def FormValue_def RequestTypePing_def)
  moreover have "show_int ExecSuccess = ResponseSuccess" unfolding ExecSuccess_def ResponseSuccess_def by code_simp
  ultimately have "hcm_SendPing path_ok (serve_do router) hcm w
      = (Inr \<lparr>Code = ResponseSuccess, ErrorCode = show_int 0, ConsumeTopics = strings_Join (keys (queueTopicSet router)) '','',
              Msg = concat (map (\<lambda>key. key @ '','') (keys (queueTopicSet router)))\<rparr>, w)"
    unfolding hcm_SendPing_def hcm_request_def using assms(1,2)
    by (simp add: serve_do_def worker_serve_def finish_def Values_Add_def Let_def Header_Get_def)
      (simp add: ResponseSuccess_def)
  then show ?thesis
    using split_topics [OF assms(3)]
    by (simp add: HttpWorker_SendPing_def NewHttpWorker_def hcm_sender_def IsSuccess_def InArray_set map_of_eq_None_iff)
qed

subsection \<open>What the client sends is what the gateway expects\<close>

lemma sdk_auth_accepted:
  assumes "map_of confs q = Some qc" "CHR ''/'' \<notin> set q" "CHR '':'' \<notin> set q" "CHR '':'' \<notin> set (qc_Password qc)"
  shows "gw_auth wrong confs n [q @ '':'' @ qc_Password qc] auth = ([RespOK], AuthName q)
     \<and> strings_SplitN2 (q @ ''/default'') (CHR ''/'') = [q, ''default''] \<and> checkAuth (AuthName q) q [] = None"
proof -
  have "strings_Split (q @ CHR '':'' # qc_Password qc) '':'' = [q, qc_Password qc]"
    using assms(3,4) by (simp add: strings_Split_sep strings_Split_no_sep)
  then show ?thesis using assms(1) strings_SplitN2_sep [OF assms(2), of "''default''"]
    by (simp add: gw_auth_def password_ok_queue [OF assms(2)] checkAuth_iff)
qed

text \<open>A password with a colon cannot be used: the gateway cuts it there.\<close>

lemma colon_password_refused:
  assumes "map_of confs q = Some qc" "qc_Password qc = a @ '':'' @ b" "CHR '':'' \<notin> set q" "CHR ''/'' \<notin> set q" "CHR '':'' \<notin> set a"
  shows "gw_auth wrong confs n [q @ '':'' @ qc_Password qc] auth = ([RespError ''ERR invalid password''], AuthFalse)"
proof -
  have "strings_Split (q @ CHR '':'' # a @ CHR '':'' # b) '':'' = q # a # strings_Split b '':''"
    using assms(3,5) by (simp add: strings_Split_sep)
  then show ?thesis using assms(1,2) by (simp add: gw_auth_def password_ok_queue [OF assms(4)])
qed

end
