(* ===== verification/Logging.thy ===== *)
theory Logging
  imports Prelude
begin

text \<open>
  Logging (\<open>utility/logger/logger.go\<close>) and the error counter (\<open>utility/error_logger.go\<close>).

  A log line is formatted and appended to a buffer in memory; a goroutine moves the buffer to a channel
  once a second (\<open>WriteBuffer\<close>), another writes what arrives to the file of the current hour and changes
  the file with the hour or when it is too long (\<open>flush_turn\<close>). The file system is a map from paths to
  contents and a map of symbolic links; creating and renaming files succeeds. An hour is the number
  \<open>yyyymmddhh\<close> that its format prints.

  The lemmas show which levels are written, that within an hour the file receives exactly the written
  lines in their order, that a change of the hour leaves the finished file as it was until the backup
  moves it, and what the error counter sums up.
\<close>

subsection \<open>Levels and lines\<close>

definition logLevel_names :: "string list" where
  "logLevel_names = [''debug'', ''trace'', ''warn'', ''error'']"

definition SetLevel :: "int \<Rightarrow> int" where
  "SetLevel l = (if int (length logLevel_names) < l then int (length logLevel_names) else l)"

definition CheckLevel :: "int \<Rightarrow> string \<Rightarrow> bool" where
  "CheckLevel level logType = (if level \<le> 0 then True else logType \<in> set (drop (nat level) logLevel_names))"

text \<open>An argument of a log call; the text of any other value is what \<open>fmt\<close> prints.\<close>

datatype log_arg = LInt int | LStr string | LInt64 int | LOther string

definition TrimRight_newlines :: "string \<Rightarrow> string" where
  "TrimRight_newlines s = rev (dropWhile (\<lambda>c. c = CHR 0x0A) (rev s))"

fun format_args :: "log_arg list \<Rightarrow> string \<Rightarrow> string" where
  "format_args [] content = content"
| "format_args (a # as) content =
     format_args as
       (case a of
          LInt n \<Rightarrow> content @ ''|'' @ show_int n
        | LStr s \<Rightarrow> content @ ''|'' @ TrimRight_newlines s
        | LInt64 n \<Rightarrow> content @ ''|'' @ show_int n
        | LOther t \<Rightarrow> content @ ''|'' @ t)"

definition Format :: "string \<Rightarrow> bool \<Rightarrow> string \<Rightarrow> log_arg list \<Rightarrow> string" where
  "Format datetime suffix suffixInfo args =
     (if suffix then datetime @ format_args args [] @ ''|'' @ suffixInfo @ [CHR 0x0A]
      else datetime @ format_args args [] @ [CHR 0x0A])"

subsection \<open>Files\<close>

record fs =
  fs_files :: "string \<rightharpoonup> string"
  fs_links :: "string \<rightharpoonup> string"

record LoggerInfo =
  li_filename :: string
  li_buffer :: string
  li_bufferQueue :: "string list" \<comment> \<open>capacity 50000\<close>
  li_hour :: nat
  li_fileOrder :: nat
  li_logFile :: string \<comment> \<open>the path that was opened\<close>
  li_backupDir :: string

definition maxFileSize :: nat where "maxFileSize = 2 * 1024 ^ 3"
definition maxFileCount :: nat where "maxFileCount = 10"
definition bufferQueue_cap :: nat where "bufferQueue_cap = 50000"

definition hour_file :: "string \<Rightarrow> nat \<Rightarrow> string" where
  "hour_file filename hour = filename @ ''.'' @ show_nat hour"

definition split_file :: "string \<Rightarrow> nat \<Rightarrow> nat \<Rightarrow> string" where
  "split_file filename hour n = filename @ ''.'' @ show_nat hour @ ''.'' @ show_nat n"

definition os_OpenFile :: "string \<Rightarrow> fs \<Rightarrow> fs" where
  "os_OpenFile path f = f\<lparr>fs_files := (fs_files f)(path \<mapsto> (case fs_files f path of None \<Rightarrow> [] | Some c \<Rightarrow> c))\<rparr>"

definition os_Remove :: "string \<Rightarrow> fs \<Rightarrow> fs" where
  "os_Remove path f =
     (if fs_links f path \<noteq> None then f\<lparr>fs_links := (fs_links f)(path := None)\<rparr>
      else f\<lparr>fs_files := (fs_files f)(path := None)\<rparr>)"

definition os_Symlink :: "string \<Rightarrow> string \<Rightarrow> fs \<Rightarrow> fs" where
  "os_Symlink target path f =
     (if fs_links f path = None \<and> fs_files f path = None then f\<lparr>fs_links := (fs_links f)(path \<mapsto> target)\<rparr> else f)"

definition os_Rename :: "string \<Rightarrow> string \<Rightarrow> fs \<Rightarrow> fs" where
  "os_Rename old new f =
     (case fs_files f old of
        None \<Rightarrow> f
      | Some c \<Rightarrow> if old = new then f else f\<lparr>fs_files := (fs_files f)(new \<mapsto> c, old := None)\<rparr>)"

text \<open>\<open>os.Stat\<close> follows a link; \<open>None\<close>: the file does not exist.\<close>

definition FileSize :: "string \<Rightarrow> fs \<Rightarrow> nat option" where
  "FileSize filename f =
     map_option length (case fs_links f filename of None \<Rightarrow> fs_files f filename | Some t \<Rightarrow> fs_files f t)"

definition CreateFile :: "nat \<Rightarrow> LoggerInfo \<Rightarrow> fs \<Rightarrow> LoggerInfo \<times> fs" where
  "CreateFile now li f =
     (let trueFilename = hour_file (li_filename li) now in
      (li\<lparr>li_logFile := trueFilename\<rparr>,
       os_Symlink trueFilename (li_filename li) (os_Remove (li_filename li) (os_OpenFile trueFilename f))))"

definition NewLoggerInfo :: "nat \<Rightarrow> string \<Rightarrow> string \<Rightarrow> fs \<Rightarrow> LoggerInfo \<times> fs" where
  "NewLoggerInfo now filename level f =
     CreateFile now
       \<lparr>li_filename = (if level = [] then filename else filename @ ''-'' @ level @ ''.log''), li_buffer = [],
        li_bufferQueue = [], li_hour = now, li_fileOrder = 0, li_logFile = [], li_backupDir = []\<rparr> f"

text \<open>\<open>NeedSplit\<close>: (split, backup), and the file created again when it has disappeared.\<close>

definition NeedSplit :: "nat \<Rightarrow> LoggerInfo \<Rightarrow> fs \<Rightarrow> (bool \<times> bool) \<times> LoggerInfo \<times> fs" where
  "NeedSplit now li f =
     (if li_hour li < now then ((False, True), li, f)
      else
        (case FileSize (li_filename li) f of
           None \<Rightarrow> ((False, False), CreateFile now li f)
         | Some n \<Rightarrow> ((maxFileSize < n, False), li, f)))"

definition rename_split :: "LoggerInfo \<Rightarrow> fs \<Rightarrow> fs" where
  "rename_split li f =
     (case fs_links f (li_filename li) of
        None \<Rightarrow> f
      | Some trueFilename \<Rightarrow>
          (let newFilename = split_file (li_filename li) (li_hour li) (li_fileOrder li mod maxFileCount)
           in os_Rename trueFilename newFilename
                (if fs_files f newFilename \<noteq> None then os_Remove newFilename f else f)))"

text \<open>One buffer of \<open>FlushBufferQueue\<close>; the hours to back up are handed to \<open>LoggerBackup\<close>.\<close>

definition write_file :: "string \<Rightarrow> string \<Rightarrow> fs \<Rightarrow> fs" where
  "write_file path content f = f\<lparr>fs_files := (fs_files f)(path := map_option (\<lambda>c. c @ content) (fs_files f path))\<rparr>"

definition flush_buffer :: "nat \<Rightarrow> string \<Rightarrow> LoggerInfo \<Rightarrow> fs \<Rightarrow> nat option \<times> LoggerInfo \<times> fs" where
  "flush_buffer now content li f =
     (case NeedSplit now li f of
        ((isSplit, isBackup), li0, f0) \<Rightarrow>
          (let (bk, li2, f2) =
             (if isSplit then
                (case CreateFile now li0 (rename_split li0 f0) of
                   (li1, f1) \<Rightarrow>
                     if isBackup then (Some (li_hour li0), li1\<lparr>li_fileOrder := 0, li_hour := now\<rparr>, f1)
                     else (None, li1\<lparr>li_fileOrder := li_fileOrder li1 + 1\<rparr>, f1))
              else if isBackup then
                (case CreateFile now li0 (if li_fileOrder li0 \<noteq> 0 then rename_split li0 f0 else f0) of
                   (li1, f1) \<Rightarrow> (Some (li_hour li0), li1\<lparr>li_fileOrder := 0, li_hour := now\<rparr>, f1))
              else (None, li0, f0))
           in (bk, li2, write_file (li_logFile li2) content f2)))"

definition flush_turn :: "nat \<Rightarrow> LoggerInfo \<Rightarrow> fs \<Rightarrow> nat option \<times> LoggerInfo \<times> fs" where
  "flush_turn now li f =
     (case li_bufferQueue li of
        [] \<Rightarrow> (None, li, f)
      | b # bs \<Rightarrow> flush_buffer now b (li\<lparr>li_bufferQueue := bs\<rparr>) f)"

definition LoggerInfo_Write :: "string \<Rightarrow> LoggerInfo \<Rightarrow> LoggerInfo" where
  "LoggerInfo_Write content li = li\<lparr>li_buffer := li_buffer li @ content\<rparr>"

text \<open>\<open>None\<close>: the send blocks.\<close>

definition WriteBuffer :: "LoggerInfo \<Rightarrow> LoggerInfo option" where
  "WriteBuffer li =
     (if li_buffer li = [] then Some li
      else if length (li_bufferQueue li) < bufferQueue_cap
      then Some (li\<lparr>li_bufferQueue := li_bufferQueue li @ [li_buffer li], li_buffer := []\<rparr>)
      else None)"

definition pad2 :: "nat \<Rightarrow> string" where
  "pad2 n = (if n < 10 then ''0'' @ show_nat n else show_nat n)"

definition date_text :: "nat \<Rightarrow> string" where
  "date_text hour = show_nat (hour div 1000000) @ ''-'' @ pad2 (hour div 10000 mod 100) @ ''-'' @ pad2 (hour div 100 mod 100)"

text \<open>\<open>path\<close> of a file below the backup directory: \<open>filepath.Join\<close> on a clean directory and a base name.\<close>

definition base_name :: "string \<Rightarrow> string" where
  "base_name p = rev (takeWhile (\<lambda>c. c \<noteq> CHR ''/'') (rev p))"

definition backup_one :: "string \<Rightarrow> string \<Rightarrow> fs \<Rightarrow> fs" where
  "backup_one dir old f = (if fs_files f old = None then f else os_Rename old (dir @ ''/'' @ base_name old) f)"

definition LoggerBackup :: "nat \<Rightarrow> LoggerInfo \<Rightarrow> fs \<Rightarrow> fs" where
  "LoggerBackup hour li f =
     (if li_backupDir li = [] then f
      else (let dir = li_backupDir li @ ''/'' @ date_text hour in
            fold (backup_one dir)
              (hour_file (li_filename li) hour # map (split_file (li_filename li) hour) [0..<maxFileCount]) f))"

subsection \<open>The logger\<close>

record Logger =
  logMap :: "(string, LoggerInfo) gomap"
  suffixInfo :: string
  logLevel :: int

fun new_infos :: "nat \<Rightarrow> string \<Rightarrow> string \<Rightarrow> string list \<Rightarrow> (string, LoggerInfo) gomap \<Rightarrow> fs \<Rightarrow> (string, LoggerInfo) gomap \<times> fs" where
  "new_infos now filename backupDir [] m f = (m, f)"
| "new_infos now filename backupDir (level # ls) m f =
     (case NewLoggerInfo now filename level f of
        (li, f1) \<Rightarrow> new_infos now filename backupDir ls (AList.update level (li\<lparr>li_backupDir := backupDir\<rparr>) m) f1)"

definition NewLogger :: "nat \<Rightarrow> string \<Rightarrow> string \<Rightarrow> string \<Rightarrow> fs \<Rightarrow> Logger \<times> fs" where
  "NewLogger now filename suffix backupDir f =
     (case new_infos now filename backupDir logLevel_names [] f of
        (m, f1) \<Rightarrow> (\<lparr>logMap = m, suffixInfo = suffix, logLevel = 0\<rparr>, f1))"

definition log_at :: "string \<Rightarrow> string \<Rightarrow> log_arg list \<Rightarrow> Logger \<Rightarrow> Logger go" where
  "log_at level datetime args lg =
     (if \<not> CheckLevel (logLevel lg) level then Ret lg
      else (case map_of (logMap lg) level of
              None \<Rightarrow> Panic
            | Some li \<Rightarrow>
                Ret (lg\<lparr>logMap := AList.update level (LoggerInfo_Write (Format datetime True (suffixInfo lg) args) li) (logMap lg)\<rparr>)))"

definition Debug :: "string \<Rightarrow> log_arg list \<Rightarrow> Logger \<Rightarrow> Logger go" where "Debug = log_at ''debug''"
definition Trace :: "string \<Rightarrow> log_arg list \<Rightarrow> Logger \<Rightarrow> Logger go" where "Trace = log_at ''trace''"
definition Warn :: "string \<Rightarrow> log_arg list \<Rightarrow> Logger \<Rightarrow> Logger go" where "Warn = log_at ''warn''"
definition Error :: "string \<Rightarrow> log_arg list \<Rightarrow> Logger \<Rightarrow> Logger go" where "Error = log_at ''error''"

definition Logger_Write :: "nat \<Rightarrow> string \<Rightarrow> string \<Rightarrow> bool \<Rightarrow> log_arg list \<Rightarrow> Logger \<Rightarrow> fs \<Rightarrow> Logger \<times> fs" where
  "Logger_Write now datetime filename suffix args lg f =
     (let (li, f1) = (case map_of (logMap lg) filename of None \<Rightarrow> NewLoggerInfo now filename [] f | Some li \<Rightarrow> (li, f))
      in (lg\<lparr>logMap := AList.update filename (LoggerInfo_Write (Format datetime suffix (suffixInfo lg) args) li) (logMap lg)\<rparr>, f1))"

subsection \<open>The error counter\<close>

record callbackFunc =
  moreThen :: nat
  cb_fn :: nat \<comment> \<open>the function, by a number\<close>

record ErrorCounter =
  clearInterval :: int
  logCount :: "(int, nat) gomap" \<comment> \<open>time in nanoseconds, data modulo \<open>2 ^ 64\<close>\<close>
  callbacks :: "(string, callbackFunc) gomap"

definition NewErrorCounter :: "int \<Rightarrow> ErrorCounter" where
  "NewErrorCounter clear = \<lparr>clearInterval = clear, logCount = [], callbacks = []\<rparr>"

definition Incr :: "int \<Rightarrow> nat \<Rightarrow> ErrorCounter \<Rightarrow> ErrorCounter" where
  "Incr now x ec = ec\<lparr>logCount := AList.update now x (logCount ec)\<rparr>"

definition RegisterCallback :: "string \<Rightarrow> nat \<Rightarrow> nat \<Rightarrow> ErrorCounter \<Rightarrow> ErrorCounter" where
  "RegisterCallback name n fn ec = ec\<lparr>callbacks := AList.update name \<lparr>moreThen = n, cb_fn = fn\<rparr> (callbacks ec)\<rparr>"

definition UnRegisterCallback :: "string \<Rightarrow> ErrorCounter \<Rightarrow> ErrorCounter" where
  "UnRegisterCallback name ec = ec\<lparr>callbacks := AList.delete name (callbacks ec)\<rparr>"

text \<open>One reading of the clock for all entries.\<close>

definition clearAndCal :: "int \<Rightarrow> ErrorCounter \<Rightarrow> nat \<times> ErrorCounter" where
  "clearAndCal now ec =
     (let kept = filter (\<lambda>(t, x). \<not> clearInterval ec < now - t) (logCount ec)
      in (sum_list (map snd kept) mod 2 ^ 64, ec\<lparr>logCount := kept\<rparr>))"

text \<open>A tick of \<open>Run\<close>: the callbacks that are started, with the count.\<close>

definition Run_exec :: "int \<Rightarrow> ErrorCounter \<Rightarrow> (nat \<times> nat) list \<times> ErrorCounter" where
  "Run_exec now ec =
     (case clearAndCal now ec of
        (count, ec') \<Rightarrow> (map (\<lambda>(name, cf). (cb_fn cf, count)) (filter (\<lambda>(name, cf). moreThen cf \<le> count) (callbacks ec')), ec'))"

subsection \<open>Levels\<close>

lemma CheckLevel_iff:
  assumes "i < 4"
  shows "CheckLevel (SetLevel l) (logLevel_names ! i) \<longleftrightarrow> l \<le> int i"
proof -
  have "i = 0 \<or> i = 1 \<or> i = 2 \<or> i = 3" using assms by auto
  moreover have "\<not> l \<le> 0 \<Longrightarrow> nat (SetLevel l) = 1 \<and> l = 1 \<or> nat (SetLevel l) = 2 \<and> l = 2 \<or> nat (SetLevel l) = 3 \<and> l = 3
      \<or> nat (SetLevel l) = 4 \<and> 4 \<le> l"
    by (auto simp: SetLevel_def logLevel_names_def)
  moreover have "SetLevel l \<le> 0 \<longleftrightarrow> l \<le> 0" by (simp add: SetLevel_def logLevel_names_def)
  ultimately show ?thesis
    by (cases "l \<le> 0") (auto simp: CheckLevel_def logLevel_names_def numeral_eq_Suc)
qed

subsection \<open>Within an hour the log is append-only\<close>

text \<open>What was logged: the file, what waits in the channel, what is in the buffer.\<close>

definition log_text :: "LoggerInfo \<Rightarrow> fs \<Rightarrow> string" where
  "log_text li f = (case fs_files f (li_logFile li) of None \<Rightarrow> [] | Some c \<Rightarrow> c) @ concat (li_bufferQueue li) @ li_buffer li"

text \<open>The link of the log points to the open file of the hour, which exists.\<close>

definition log_open :: "nat \<Rightarrow> LoggerInfo \<Rightarrow> fs \<Rightarrow> bool" where
  "log_open now li f \<longleftrightarrow> li_hour li = now \<and> li_logFile li = hour_file (li_filename li) now
     \<and> fs_links f (li_filename li) = Some (li_logFile li) \<and> fs_files f (li_logFile li) \<noteq> None"

datatype log_event = WriteLine string | Tick | Flush

fun log_run :: "nat \<Rightarrow> log_event list \<Rightarrow> LoggerInfo \<Rightarrow> fs \<Rightarrow> (LoggerInfo \<times> fs) option" where
  "log_run now [] li f = Some (li, f)"
| "log_run now (WriteLine s # es) li f = log_run now es (LoggerInfo_Write s li) f"
| "log_run now (Tick # es) li f = (case WriteBuffer li of None \<Rightarrow> None | Some li' \<Rightarrow> log_run now es li' f)"
| "log_run now (Flush # es) li f = (case flush_turn now li f of (_, li', f') \<Rightarrow> log_run now es li' f')"

fun lines_of :: "log_event list \<Rightarrow> string" where
  "lines_of [] = []"
| "lines_of (WriteLine s # es) = s @ lines_of es"
| "lines_of (_ # es) = lines_of es"

fun ticks_of :: "log_event list \<Rightarrow> nat" where
  "ticks_of [] = 0"
| "ticks_of (Tick # es) = Suc (ticks_of es)"
| "ticks_of (_ # es) = ticks_of es"

lemma flush_same_hour:
  assumes "log_open now li f" "length (log_text li f) \<le> maxFileSize"
  shows "\<exists>li' f'. flush_turn now li f = (None, li', f') \<and> log_open now li' f' \<and> log_text li' f' = log_text li f
     \<and> li_bufferQueue li' = tl (li_bufferQueue li)"
proof (cases "li_bufferQueue li")
  case Nil
  then show ?thesis using assms by (simp add: flush_turn_def)
next
  case (Cons b bs)
  let ?li = "li\<lparr>li_bufferQueue := bs\<rparr>"
  obtain c where c: "fs_files f (li_logFile li) = Some c" "fs_links f (li_filename li) = Some (li_logFile li)" "li_hour li = now"
    using assms(1) by (auto simp: log_open_def)
  then have "\<not> maxFileSize < length c" using assms(2) by (simp add: log_text_def)
  then have "NeedSplit now ?li f = ((False, False), ?li, f)" using c by (simp add: NeedSplit_def FileSize_def)
  then have "flush_turn now li f = (None, ?li, write_file (li_logFile li) b f)"
    using Cons by (simp add: flush_turn_def flush_buffer_def)
  then show ?thesis using assms(1) c Cons by (simp add: log_open_def log_text_def write_file_def)
qed

lemma log_run_appends:
  assumes "log_open now li f" "length (log_text li f) + length (lines_of es) \<le> maxFileSize"
    and "length (li_bufferQueue li) + ticks_of es \<le> bufferQueue_cap"
  shows "\<exists>li' f'. log_run now es li f = Some (li', f') \<and> log_open now li' f' \<and> log_text li' f' = log_text li f @ lines_of es"
  using assms
proof (induction es arbitrary: li f)
  case (Cons e es)
  show ?case
  proof (cases e)
    case (WriteLine s)
    have "log_open now (LoggerInfo_Write s li) f" "log_text (LoggerInfo_Write s li) f = log_text li f @ s"
      "li_bufferQueue (LoggerInfo_Write s li) = li_bufferQueue li"
      using Cons.prems(1) by (auto simp: log_open_def LoggerInfo_Write_def log_text_def)
    then show ?thesis using Cons.IH [of "LoggerInfo_Write s li" f] Cons.prems WriteLine by simp
  next
    case Tick
    define li1 where "li1 = (if li_buffer li = [] then li else li\<lparr>li_bufferQueue := li_bufferQueue li @ [li_buffer li], li_buffer := []\<rparr>)"
    have "WriteBuffer li = Some li1" using Cons.prems(3) Tick by (simp add: WriteBuffer_def li1_def)
    moreover have "log_open now li1 f" "log_text li1 f = log_text li f" "length (li_bufferQueue li1) \<le> Suc (length (li_bufferQueue li))"
      using Cons.prems(1) by (auto simp: log_open_def log_text_def li1_def)
    ultimately show ?thesis using Cons.IH [of li1 f] Cons.prems Tick by simp
  next
    case Flush
    obtain li1 f1 where f1: "flush_turn now li f = (None, li1, f1)" "log_open now li1 f1" "log_text li1 f1 = log_text li f"
      "li_bufferQueue li1 = tl (li_bufferQueue li)"
      using flush_same_hour [OF Cons.prems(1)] Cons.prems(2) by auto
    then show ?thesis using Cons.IH [of li1 f1] Cons.prems Flush by simp
  qed
qed simp

subsection \<open>The next hour\<close>

lemma hour_file_inj: "hour_file fn a = hour_file fn b \<longleftrightarrow> a = b"
  by (simp add: hour_file_def)

lemma hour_file_ne: "hour_file fn a \<noteq> fn"
  by (simp add: hour_file_def)

text \<open>The first buffer of a new hour goes to the new file; the finished file stays as it was and is due for backup.\<close>

lemma flush_next_hour:
  assumes "log_open old li f" "old < now" "li_fileOrder li = 0" "fs_files f (hour_file (li_filename li) now) = None"
    and "fs_links f (hour_file (li_filename li) now) = None" "fs_files f (li_filename li) = None"
  shows "\<exists>li' f'. flush_buffer now content li f = (Some old, li', f') \<and> log_open now li' f'
     \<and> fs_files f' (hour_file (li_filename li) now) = Some content
     \<and> fs_files f' (hour_file (li_filename li) old) = fs_files f (hour_file (li_filename li) old)"
proof -
  have "NeedSplit now li f = ((False, True), li, f)" using assms(1,2) by (simp add: NeedSplit_def log_open_def)
  then show ?thesis using assms hour_file_inj [of "li_filename li" old now] hour_file_ne [of "li_filename li"]
    by (auto simp: flush_buffer_def CreateFile_def os_OpenFile_def os_Remove_def os_Symlink_def write_file_def log_open_def Let_def
        hour_file_inj)
qed

subsection \<open>Counting errors\<close>

text \<open>The count is the sum over the recent entries; two increments at the same time count as the later one.\<close>

lemma clearAndCal_sum:
  assumes "wf_map (logCount ec)"
  shows "fst (clearAndCal now ec) = sum snd {(t, x). map_of (logCount ec) t = Some x \<and> now - t \<le> clearInterval ec} mod 2 ^ 64"
proof -
  let ?k = "filter (\<lambda>(t, x). \<not> clearInterval ec < now - t) (logCount ec)"
  have "distinct ?k" using assms by (simp add: wf_map_def distinct_map)
  then have "sum_list (map snd ?k) = sum snd (set ?k)" by (rule sum_list_distinct_conv_sum_set)
  also have "set ?k = {(t, x). map_of (logCount ec) t = Some x \<and> now - t \<le> clearInterval ec}"
    using assms by (auto simp: map_of_in_wf dest: map_of_SomeD)
  finally have s: "sum_list (map snd ?k) = sum snd {(t, x). map_of (logCount ec) t = Some x \<and> now - t \<le> clearInterval ec}" .
  show ?thesis unfolding clearAndCal_def Let_def fst_conv s ..
qed

lemma Incr_wf: "wf_map (logCount ec) \<Longrightarrow> wf_map (logCount (Incr now x ec))"
  by (simp add: Incr_def)

lemma Incr_same_time: "Incr t y (Incr t x ec) = Incr t y ec"
  by (simp add: Incr_def)

end
