(* ===== verification/DemoConfig.thy ===== *)
theory DemoConfig
  imports Admin Demo Sdk Logging
begin

text \<open>
  Concrete inputs for the configuration, administration, SDK and logging: the texts of a configuration
  with one queue and one tag, a form decoder that accepts every request, a router of the SDK with one
  handler, and an open log file.
\<close>

definition quoted :: "string \<Rightarrow> string" where
  "quoted s = CHR 0x22 # s @ [CHR 0x22]"

definition demo_text :: string where
  "demo_text = ''{'' @ quoted ''q'' @ '':{'' @ quoted ''queue_name'' @ '':'' @ quoted ''q'' @ '', '' @ quoted ''topic'' @ '':{''
     @ quoted ''t'' @ '':{'' @ quoted ''storage'' @ '':{'' @ quoted ''type'' @ '':'' @ quoted ''redis'' @ ''}}}}}''"

definition demo_decoded :: QueueConfs where
  "demo_decoded = [(''q'', new_QueueConfig\<lparr>qc_QueueName := ''q'', qc_Topic :=
     [(''t'', new_TopicConfig\<lparr>tc_Storage := Some (new_StorageConfig\<lparr>sc_Type := ''redis''\<rparr>)\<rparr>)]\<rparr>)]"

definition demo_tags :: string where
  "demo_tags = ''{'' @ quoted ''a'' @ '':{'' @ quoted ''q'' @ '':['' @ quoted ''t'' @ '']}}''"

definition demo_config :: data_Queue where
  "demo_config = demo_net\<lparr>QueueConfig_text := demo_text, TagsMapping_text := demo_tags\<rparr>"

lemma demo_config_decoded [simp]:
  "decode_QueueConfs (QueueConfig_text demo_config) = Some demo_decoded"
  "decode_TagsMapping (TagsMapping_text demo_config) = Some [(''a'', [(''q'', [''t''])])]"
proof -
  have "decode_QueueConfs demo_text = Some demo_decoded" "decode_TagsMapping demo_tags = Some [(''a'', [(''q'', [''t''])])]"
    by code_simp+
  then show "decode_QueueConfs (QueueConfig_text demo_config) = Some demo_decoded"
    "decode_TagsMapping (TagsMapping_text demo_config) = Some [(''a'', [(''q'', [''t''])])]"
    by (simp_all add: demo_config_def)
qed

definition demo_confs_loaded :: QueueConfs where
  "demo_confs_loaded = enable_tags [''a''] [(''a'', [(''q'', [''t''])])] demo_decoded"

lemma demo_config_loaded [simp]: "load_queues demo_config = Some demo_confs_loaded"
  by (simp add: load_queues_def parseQueueConfig_def demo_confs_loaded_def) (simp add: demo_config_def demo_net_def)

lemma demo_decoded_proper [simp]: "proper_queues d demo_decoded"
  by (simp add: proper_queues_def demo_decoded_def topic_ok_def new_TopicConfig_def new_StorageConfig_def NewStorage_def
      pool_panics_def chan_size_ok_def RunTypeHttp_def)

lemma demo_config_named [simp]: "named_confs d demo_confs_loaded" "length demo_confs_loaded = 1"
proof -
  show "named_confs d demo_confs_loaded" using load_queues_named [OF demo_config_loaded demo_config_decoded(1)] by simp
  show "length demo_confs_loaded = 1" by (simp add: demo_confs_loaded_def demo_decoded_def)
qed

definition demo_global :: data_Global where
  "demo_global = \<lparr>AdminIp = ''0.0.0.0'', AdminPort = ''19840'', GatewayIp = ''0.0.0.0'', GatewayPort = ''6379'',
     InnerIpPrefix = [''10.''], AdminIpLimit = []\<rparr>"

definition demo_schema :: schema_Decode where
  "demo_schema kind form = Inr \<lparr>req_Queue = FormValue form ''queue'', req_Topic = FormValue form ''topic'', req_Count = 5,
     req_Type = FormValue form ''type'', req_Value = FormValue form ''value''\<rparr>"

text \<open>A handler that keeps the jobs it gets.\<close>

definition demo_handler :: "string list WorkerHandler" where
  "demo_handler form w = (Some \<lparr>sr_ErrorCode = 0, sr_Code = ExecSuccess, sr_Data = Some (JStr [])\<rparr>, w @ [FormValue form ''jobs''])"

definition demo_router :: "string list WorkerRouter" where
  "demo_router = \<lparr>wr_pattern = ''/jobs'', queueTopicSet = [(''q/t'', demo_handler)]\<rparr>"

definition demo_log :: "LoggerInfo \<times> fs" where
  "demo_log = NewLoggerInfo 2019010112 ''bus'' ''warn'' \<lparr>fs_files = Map.empty, fs_links = Map.empty\<rparr>"

lemma demo_log_open [simp]:
  "log_open 2019010112 (fst demo_log) (snd demo_log)" "log_text (fst demo_log) (snd demo_log) = []" "li_bufferQueue (fst demo_log) = []"
  by (simp_all add: demo_log_def NewLoggerInfo_def CreateFile_def log_open_def log_text_def os_OpenFile_def os_Remove_def os_Symlink_def
      Let_def hour_file_def)

end
