(* ===== verification/RedisDecoder.thy ===== *)
theory RedisDecoder
  imports RedisConn
begin

text \<open>
  The decoder of the Redis protocol in \<open>codec/redis/decoder.go\<close>. The package does not declare its \<open>Resp\<close>
  and the constants of \<open>RespType\<close>: the constants are the parameter \<open>ty\<close>, and a response is what the
  decoder puts into one, its type with a value or an array, each possibly nil. \<open>errors.Trace\<close> is the error
  it wraps. The reader is the byte sequence still to be read.

  The lemmas show that the hand-written integer parser agrees with \<open>strconv\<close>, that every response in the
  format of the protocol is read back, and that decoding never panics for a negative length.
\<close>

record RespTypes =
  TypeString :: char
  TypeError :: char
  TypeInt :: char
  TypeBulkBytes :: char
  TypeArray :: char

definition resp_types :: RespTypes where
  "resp_types = \<lparr>TypeString = CHR ''+'', TypeError = CHR ''-'', TypeInt = CHR '':'', TypeBulkBytes = CHR ''$'', TypeArray = CHR ''*''\<rparr>"

datatype dresp = DResp (d_Type: char) (d_Value: "string option") (d_Array: "dresp list option")

datatype dec_err =
    ErrBadRespCRLFEnd | ErrBadRespBytesLen | ErrBadRespArrayLen | BadRespType char | IoErr string | IntErr num_err

subsection \<open>Integers\<close>

fun btoi_digits :: "int \<Rightarrow> string \<Rightarrow> int option" where
  "btoi_digits n [] = Some n"
| "btoi_digits n (c # s) = (case digit_val c of None \<Rightarrow> None | Some d \<Rightarrow> btoi_digits (int d + n * 10) s)"

definition btoi_fast :: "string \<Rightarrow> int option" where
  "btoi_fast b =
     (if b \<noteq> [] \<and> length b < 10 then
        (let neg = (hd b = CHR ''-''); ds = (if hd b = CHR ''-'' \<or> hd b = CHR ''+'' then tl b else b)
         in if ds = [] then None else map_option (\<lambda>n. if neg then - n else n) (btoi_digits 0 ds))
      else None)"

definition btoi :: "string \<Rightarrow> dec_err + int" where
  "btoi b =
     (case btoi_fast b of
        Some n \<Rightarrow> Inr n
      | None \<Rightarrow> (case ParseInt b of (_, Some e) \<Rightarrow> Inl (IntErr e) | (n, None) \<Rightarrow> Inr n))"

subsection \<open>Decoding\<close>

definition decodeTextBytes :: "string \<Rightarrow> (dec_err + string) \<times> string" where
  "decodeTextBytes s =
     (case read_bytes_lf s of
        (None, r) \<Rightarrow> (Inl (IoErr ''EOF''), r)
      | (Some b, r) \<Rightarrow>
          if length b < 2 \<or> b ! (length b - 2) \<noteq> CR then (Inl ErrBadRespCRLFEnd, r) else (Inr (take (length b - 2) b), r))"

definition decodeTextString :: "string \<Rightarrow> (dec_err + string) \<times> string" where
  "decodeTextString s = (case decodeTextBytes s of (Inl e, r) \<Rightarrow> (Inl e, r) | (Inr b, r) \<Rightarrow> (Inr b, r))"

definition decodeInt :: "string \<Rightarrow> (dec_err + int) \<times> string" where
  "decodeInt s = (case decodeTextBytes s of (Inl e, r) \<Rightarrow> (Inl e, r) | (Inr b, r) \<Rightarrow> (btoi b, r))"

text \<open>\<open>make\<close> panics when the size wraps around or exceeds the address space.\<close>

definition decodeBulkBytes :: "string \<Rightarrow> (dec_err + string option) go \<times> string" where
  "decodeBulkBytes s =
     (case decodeInt s of
        (Inl e, r) \<Rightarrow> (Ret (Inl e), r)
      | (Inr n, r) \<Rightarrow>
          if n < -1 then (Ret (Inl ErrBadRespBytesLen), r)
          else if n = -1 then (Ret (Inr None), r)
          else if i64 (n + 2) < 0 \<or> maxAlloc < i64 (n + 2) then (Panic, r)
          else if length r < nat n + 2 then (Ret (Inl (IoErr (if r = [] then ''EOF'' else ''unexpected EOF''))), [])
          else if r ! nat n \<noteq> CR \<or> r ! (nat n + 1) \<noteq> LF then (Ret (Inl ErrBadRespCRLFEnd), drop (nat n + 2) r)
          else (Ret (Inr (Some (take (nat n) r))), drop (nat n + 2) r))"

text \<open>The words of a line, separated by spaces.\<close>

fun line_words :: "string \<Rightarrow> string \<Rightarrow> string list" where
  "line_words acc [] = (if acc = [] then [] else [rev acc])"
| "line_words acc (c # s) =
     (if c = CHR '' '' then (if acc = [] then [] else [rev acc]) @ line_words [] s else line_words (c # acc) s)"

definition decodeSingleLineBulkBytesArray :: "RespTypes \<Rightarrow> string \<Rightarrow> (dec_err + dresp list) \<times> string" where
  "decodeSingleLineBulkBytesArray ty s =
     (case decodeTextBytes s of
        (Inl e, r) \<Rightarrow> (Inl e, r)
      | (Inr b, r) \<Rightarrow> (Inr (map (\<lambda>x. DResp (TypeBulkBytes ty) (Some x) None) (line_words [] b)), r))"

lemma decodeTextBytes_len: "decodeTextBytes s = (Inr b, r) \<Longrightarrow> length r < length s"
  by (auto simp: decodeTextBytes_def dest: read_bytes_lf_len split: option.splits prod.splits if_splits)

lemma decodeInt_len: "decodeInt s = (Inr n, r) \<Longrightarrow> length r < length s"
  by (auto simp: decodeInt_def dest: decodeTextBytes_len split: sum.splits prod.splits)

text \<open>
  \<open>decodeResp\<close> and the loop of \<open>decodeArray\<close>, with the depth of nesting. The guard of the loop always
  holds: decoding a response leaves fewer bytes.
\<close>

function decodeResp :: "RespTypes \<Rightarrow> nat \<Rightarrow> string \<Rightarrow> (dec_err + dresp) go \<times> string"
  and decodeElems :: "RespTypes \<Rightarrow> nat \<Rightarrow> nat \<Rightarrow> string \<Rightarrow> (dec_err + dresp list) go \<times> string" where
  "decodeResp ty depth s =
     (case s of
        [] \<Rightarrow> (Ret (Inl (IoErr ''EOF'')), [])
      | t # r \<Rightarrow>
          if t = TypeString ty \<or> t = TypeError ty \<or> t = TypeInt ty then
            (case decodeTextBytes r of
               (Inl e, r') \<Rightarrow> (Ret (Inl e), r') | (Inr b, r') \<Rightarrow> (Ret (Inr (DResp t (Some b) None)), r'))
          else if t = TypeBulkBytes ty then
            (case decodeBulkBytes r of
               (Panic, r') \<Rightarrow> (Panic, r')
             | (Ret (Inl e), r') \<Rightarrow> (Ret (Inl e), r')
             | (Ret (Inr b), r') \<Rightarrow> (Ret (Inr (DResp t b None)), r'))
          else if t = TypeArray ty then
            (case decodeInt r of
               (Inl e, r') \<Rightarrow> (Ret (Inl e), r')
             | (Inr n, r') \<Rightarrow>
                 if n < -1 then (Ret (Inl ErrBadRespArrayLen), r')
                 else if n = -1 then (Ret (Inr (DResp t None None)), r')
                 else if maxAlloc < n * 8 then (Panic, r')
                 else (case decodeElems ty (depth + 1) (nat n) r' of
                         (Panic, r'') \<Rightarrow> (Panic, r'')
                       | (Ret (Inl e), r'') \<Rightarrow> (Ret (Inl e), r'')
                       | (Ret (Inr a), r'') \<Rightarrow> (Ret (Inr (DResp t None (Some a))), r'')))
          else if depth \<noteq> 0 then (Ret (Inl (BadRespType t)), r)
          else (case decodeSingleLineBulkBytesArray ty (t # r) of
                  (Inl e, r') \<Rightarrow> (Ret (Inl e), r')
                | (Inr a, r') \<Rightarrow> (Ret (Inr (DResp (TypeArray ty) None (Some a))), r')))"
| "decodeElems ty depth 0 s = (Ret (Inr []), s)"
| "decodeElems ty depth (Suc n) s =
     (case decodeResp ty depth s of
        (Panic, r) \<Rightarrow> (Panic, r)
      | (Ret (Inl e), r) \<Rightarrow> (Ret (Inl e), r)
      | (Ret (Inr v), r) \<Rightarrow>
          if length r \<le> length s then
            (case decodeElems ty depth n r of
               (Panic, r') \<Rightarrow> (Panic, r')
             | (Ret (Inl e), r') \<Rightarrow> (Ret (Inl e), r')
             | (Ret (Inr vs), r') \<Rightarrow> (Ret (Inr (v # vs)), r'))
          else (Panic, r))"
  by pat_completeness auto
termination
  by (relation "measures [case_sum (\<lambda>(_, _, s). length s) (\<lambda>(_, _, _, s). length s), case_sum (\<lambda>_. 0) (\<lambda>(_, _, n, _). Suc n)]")
     (auto dest!: decodeInt_len [OF sym])

declare decodeResp.simps [simp del] decodeElems.simps(2) [simp del]

text \<open>\<open>decodeArray\<close> by itself; it is what \<open>decodeResp\<close> does behind the type of an array.\<close>

definition decodeArray :: "RespTypes \<Rightarrow> nat \<Rightarrow> string \<Rightarrow> (dec_err + dresp list option) go \<times> string" where
  "decodeArray ty depth s =
     (case decodeInt s of
        (Inl e, r) \<Rightarrow> (Ret (Inl e), r)
      | (Inr n, r) \<Rightarrow>
          if n < -1 then (Ret (Inl ErrBadRespArrayLen), r)
          else if n = -1 then (Ret (Inr None), r)
          else if maxAlloc < n * 8 then (Panic, r)
          else (case decodeElems ty (depth + 1) (nat n) r of
                  (Panic, r') \<Rightarrow> (Panic, r')
                | (Ret (Inl e), r') \<Rightarrow> (Ret (Inl e), r')
                | (Ret (Inr a), r') \<Rightarrow> (Ret (Inr (Some a)), r')))"

lemma decodeResp_array:
  "decodeResp resp_types depth (CHR ''*'' # s) =
     (case decodeArray resp_types depth s of
        (Panic, r) \<Rightarrow> (Panic, r)
      | (Ret (Inl e), r) \<Rightarrow> (Ret (Inl e), r)
      | (Ret (Inr a), r) \<Rightarrow> (Ret (Inr (DResp (CHR ''*'') None a)), r))"
  by (simp add: decodeResp.simps decodeArray_def resp_types_def split: prod.split sum.split go.split)

text \<open>A decoder keeps its first error.\<close>

record Decoder =
  dec_input :: string
  dec_Err :: "dec_err option"

definition NewDecoder :: "string \<Rightarrow> Decoder" where
  "NewDecoder s = \<lparr>dec_input = s, dec_Err = None\<rparr>"

definition Decode :: "RespTypes \<Rightarrow> Decoder \<Rightarrow> (dec_err + dresp) go \<times> Decoder" where
  "Decode ty d =
     (case dec_Err d of
        Some e \<Rightarrow> (Ret (Inl e), d)
      | None \<Rightarrow>
          (case decodeResp ty 0 (dec_input d) of
             (x, r) \<Rightarrow> (x, d\<lparr>dec_input := r, dec_Err := (case x of Ret (Inl e) \<Rightarrow> Some e | _ \<Rightarrow> None)\<rparr>)))"

definition DecodeFromBytes :: "RespTypes \<Rightarrow> string \<Rightarrow> (dec_err + dresp) go" where
  "DecodeFromBytes ty p = fst (Decode ty (NewDecoder p))"

subsection \<open>The integer parser agrees with strconv\<close>

lemma btoi_digits_val: "all_digits s \<Longrightarrow> btoi_digits (int n) s = Some (int (digits_val n s))"
proof (induction s arbitrary: n)
  case (Cons c s)
  then obtain d where d: "digit_val c = Some d" by auto
  then show ?case using Cons.IH [of "n * 10 + d"] Cons.prems by (simp add: algebra_simps)
qed simp

lemma btoi_digits_none: "\<not> all_digits s \<Longrightarrow> btoi_digits n s = None"
  by (induction s arbitrary: n) (auto split: option.splits)

lemma digit_val_less: "digit_val c = Some d \<Longrightarrow> d < 10"
  by (auto simp: digit_val_def split: if_splits)

lemma digits_val_less: "all_digits s \<Longrightarrow> digits_val n s < (n + 1) * 10 ^ length s"
proof (induction s arbitrary: n)
  case (Cons c s)
  then obtain d where d: "digit_val c = Some d" "d < 10" using digit_val_less by fastforce
  have "digits_val (n * 10 + d) s < (n * 10 + d + 1) * 10 ^ length s" using Cons by simp
  also have "\<dots> \<le> ((n + 1) * 10) * 10 ^ length s" using d(2) by (intro mult_le_mono1) simp
  finally show ?case using d(1) by (simp add: algebra_simps)
qed simp

lemma ParseInt_signed_short:
  assumes "all_digits ds" "ds \<noteq> []" "length ds < 10"
  shows "ParseInt_signed neg ds = (if neg then - int (digits_val 0 ds) else int (digits_val 0 ds), None)"
proof -
  have "digits_val 0 ds < 10 ^ length ds" using digits_val_less [OF assms(1), of 0] by simp
  also have "(10 :: nat) ^ length ds \<le> 10 ^ 10" using assms(3) by (intro power_increasing) simp_all
  finally have b: "digits_val 0 ds < 10 ^ 10" .
  then have "ParseUint ds = (digits_val 0 ds, None)"
    using assms(1,2) by (simp add: ParseUint_def ParseUint_loop_digits maxUint64_def)
  then show ?thesis using b by (simp add: ParseInt_signed_def)
qed

lemma btoi_ParseInt: "btoi b = (case ParseInt b of (_, Some e) \<Rightarrow> Inl (IntErr e) | (n, None) \<Rightarrow> Inr n)"
proof (cases "btoi_fast b")
  case None
  then show ?thesis by (simp add: btoi_def)
next
  case (Some n)
  define neg where "neg = (hd b = CHR ''-'')"
  define ds where "ds = (if hd b = CHR ''-'' \<or> hd b = CHR ''+'' then tl b else b)"
  have b: "b \<noteq> []" "length b < 10" "ds \<noteq> []" and n: "map_option (\<lambda>n. if neg then - n else n) (btoi_digits 0 ds) = Some n"
    using Some by (auto simp: btoi_fast_def Let_def neg_def ds_def split: if_splits)
  have dig: "all_digits ds" using n btoi_digits_none [of ds 0] by (cases "all_digits ds") auto
  have "length ds < 10" using b(2) by (auto simp: ds_def)
  from ParseInt_signed_short [OF dig b(3) this, of neg] have "ParseInt_signed neg ds = (n, None)"
    using n btoi_digits_val [OF dig, of 0] by (auto split: if_splits)
  moreover have "ParseInt b = ParseInt_signed neg ds"
    using b(1) by (cases b) (auto simp: ParseInt_def neg_def ds_def)
  ultimately show ?thesis using Some by (simp add: btoi_def)
qed

subsection \<open>Responses are read back\<close>

fun as_dresp :: "reply \<Rightarrow> dresp" where
  "as_dresp RNil = DResp (CHR ''$'') None None"
| "as_dresp (RInt n) = DResp (CHR '':'') (Some (show_int n)) None"
| "as_dresp (RBytes b) = DResp (CHR ''$'') (Some b) None"
| "as_dresp (RArr vs) = DResp (CHR ''*'') None (Some (map as_dresp vs))"

lemma decodeTextBytes_line:
  assumes "LF \<notin> set p"
  shows "decodeTextBytes (p @ CR # LF # rest) = (Inr p, rest)"
proof -
  have "read_bytes_lf ((p @ [CR]) @ LF # rest) = (Some ((p @ [CR]) @ [LF]), rest)" using assms by (intro read_bytes_lf_line) auto
  then show ?thesis by (simp add: decodeTextBytes_def nth_append)
qed

lemma decodeResp_line:
  assumes "LF \<notin> set p" "t = CHR ''+'' \<or> t = CHR ''-''"
  shows "decodeResp resp_types depth (t # p @ CRLF @ rest) = (Ret (Inr (DResp t (Some p) None)), rest)"
  using assms by (auto simp: decodeResp.simps resp_types_def decodeTextBytes_line)

lemma decodeInt_line: "in_i64 n \<Longrightarrow> decodeInt (show_int n @ CR # LF # rest) = (Inr n, rest)"
  by (simp add: decodeInt_def decodeTextBytes_line btoi_ParseInt)

lemma decodeBulkBytes_bulk:
  assumes "int (length b) + 2 \<le> maxAlloc"
  shows "decodeBulkBytes (show_nat (length b) @ CR # LF # b @ CR # LF # rest) = (Ret (Inr (Some b)), rest)"
  using decodeInt_line [of "int (length b)" "b @ CR # LF # rest"] assms
  by (simp add: decodeBulkBytes_def show_int_def maxAlloc_i64 nth_append)

lemma decodeResp_encode:
  "wf_reply r \<Longrightarrow> decodeResp resp_types depth (resp_encode r @ rest) = (Ret (Inr (as_dresp r)), rest)"
proof (induction r arbitrary: rest depth)
  case RNil
  have "show_int (-1) = ''-1''" by code_simp
  then have "decodeInt (''-1'' @ CR # LF # rest) = (Inr (-1), rest)" using decodeInt_line [of "-1" rest] by (simp add: in_i64_def)
  then show ?case by (simp add: decodeResp.simps resp_types_def decodeBulkBytes_def)
next
  case (RInt n)
  then show ?case by (simp add: decodeResp.simps resp_types_def decodeTextBytes_line)
next
  case (RBytes b)
  then show ?case using decodeBulkBytes_bulk [of b rest] by (simp add: decodeResp.simps resp_types_def bulk_def)
next
  case (RArr vs)
  have elems: "decodeElems resp_types d (length us) (concat (map resp_encode us) @ rest) = (Ret (Inr (map as_dresp us)), rest)"
    if "set us \<subseteq> set vs" for us d
    using that
  proof (induction us)
    case (Cons u us)
    have "decodeResp resp_types d (resp_encode u @ concat (map resp_encode us) @ rest)
        = (Ret (Inr (as_dresp u)), concat (map resp_encode us) @ rest)"
      using RArr.IH [of u] RArr.prems Cons.prems by auto
    with Cons show ?case by (simp add: decodeElems.simps(2))
  qed simp
  have "int (length vs) * 16 \<le> maxAlloc" using RArr.prems by auto
  then have "int (length vs) * 8 \<le> maxAlloc" "in_i64 (int (length vs))" by (auto intro!: maxAlloc_i64)
  then show ?case using decodeInt_line [of "int (length vs)" "concat (map resp_encode vs) @ rest"] elems [of vs "Suc depth"]
    by (simp add: decodeResp.simps resp_types_def show_int_def)
qed

text \<open>A negative length is an error, not a panic as in the reader of \<open>conn.go\<close>.\<close>

lemma negative_length_refused:
  assumes "in_i64 n" "n < -1"
  shows "fst (decodeResp resp_types depth (CHR ''$'' # show_int n @ CRLF @ rest)) = Ret (Inl ErrBadRespBytesLen)"
    "fst (decodeResp resp_types depth (CHR ''*'' # show_int n @ CRLF @ rest)) = Ret (Inl ErrBadRespArrayLen)"
  using decodeInt_line [OF assms(1), of rest] assms(2) by (simp_all add: decodeResp.simps resp_types_def decodeBulkBytes_def)

end
