(* ===== verification/Process.thy ===== *)
theory Process
  imports Admin Setting "HOL-Library.Sublist"
begin

text \<open>
  The life of the process (\<open>main.go\<close>, \<open>signal.go\<close>, \<open>Gateway.Serve\<close>, \<open>AdminServer\<close>): the start from the
  configuration and the two listeners, the signals, and the end. The goroutines of \<open>main\<close> are the fields of a record;
  one event is one turn of one of them, a signal from outside or a second on the clock, and a run is a
  list of events in any order. A process that has ended no longer changes.

  Outside the repository and parameters: the listeners of \<open>gracenet\<close> and its \<open>StartProcess\<close> (the result of a turn of
  the handler), whether the service discovery client, which asks for the signals too, ends the process
  (\<open>dereg_exits\<close>), and the number of open connections a second observes.

  The lemmas show the invariant of the reachable states, that a handled signal stops the process whatever else
  happens, and which signals are never handled.
\<close>

subsection \<open>State\<close>

text \<open>How a process ends: \<open>os.Exit\<close>, a nil pointer dereferenced, a signal nobody asked for.\<close>

datatype ending = Exited int | NilPanic | KilledBy int

datatype handler = HStart | HLoop | HSleep nat | HDone

datatype serving = Serving | Draining nat | Served

record bus_process =
  p_mask :: "int list" \<comment> \<open>what the handler's channel is registered for\<close>
  p_ch :: "int list"
  p_handler :: handler
  p_listening :: "bool list" \<comment> \<open>the listeners of gateway and administration\<close>
  p_cancelled :: bool \<comment> \<open>\<open>GlobalContext\<close>\<close>
  p_children :: nat \<comment> \<open>processes started to take over\<close>
  p_gateway :: serving
  p_admin :: serving
  p_discovery :: "int list" \<comment> \<open>signals waiting for the discovery client\<close>
  p_end :: "ending option"

text \<open>The label \<open>exit\<close> of \<open>main\<close>: the last line calls \<open>Error\<close> on the error, nil or not.\<close>

definition main_exit :: "string option \<Rightarrow> ending" where
  "main_exit err = (case err of None \<Rightarrow> NilPanic | Some e \<Rightarrow> Exited 0)"

definition started :: bus_process where
  "started = \<lparr>p_mask = [], p_ch = [], p_handler = HStart, p_listening = [True, True], p_cancelled = False, p_children = 0,
     p_gateway = Serving, p_admin = Serving, p_discovery = [], p_end = None\<rparr>"

text \<open>
  \<open>main\<close> up to \<open>wg.Wait\<close>, from what \<open>initSetting\<close> returned; \<open>listen\<close> is \<open>GlobalNet.Listen\<close>. \<open>None\<close>: it waits for
  the configuration.
\<close>

definition main :: "(string \<Rightarrow> string option) \<Rightarrow> (init_err \<Rightarrow> string) \<Rightarrow>
    (init_err option \<times> Setting \<times> 'w) option go \<Rightarrow> bus_process option go" where
  "main listen err_text init =
     go_bind init (\<lambda>r.
     case r of
       None \<Rightarrow> Ret None
     | Some (Some e, st, w) \<Rightarrow> Ret (Some (started\<lparr>p_listening := [False, False], p_end := Some (main_exit (Some (err_text e)))\<rparr>))
     | Some (None, st, w) \<Rightarrow>
         Ret (map_option (\<lambda>conf.
           case listen (srv_GatewayIP conf @ '':'' @ srv_GatewayPort conf) of
             Some e \<Rightarrow> started\<lparr>p_listening := [False, False], p_end := Some (main_exit (Some e))\<rparr>
           | None \<Rightarrow>
               (case listen (srv_AdminIP conf @ '':'' @ srv_AdminPort conf) of
                  Some e \<Rightarrow> started\<lparr>p_listening := [True, False], p_end := Some (main_exit (Some e))\<rparr>
                | None \<Rightarrow> started)) (ServerConf st)))"

subsection \<open>Turns\<close>

text \<open>Every listener of the handler is closed and the context of all workers cancelled.\<close>

definition stop_serving :: "bus_process \<Rightarrow> bus_process" where
  "stop_serving p = p\<lparr>p_listening := map (\<lambda>_. False) (p_listening p), p_cancelled := True\<rparr>"

definition GraceStopTimeout :: nat where "GraceStopTimeout = 5"

text \<open>A turn of \<open>signalHandler\<close>; \<open>restart\<close> is the error of \<open>StartProcess\<close> when it is called.\<close>

definition signalHandler :: "string option \<Rightarrow> bus_process \<Rightarrow> bus_process" where
  "signalHandler restart p =
     (case p_handler p of
        HStart \<Rightarrow> p\<lparr>p_mask := [SIGINT, SIGUSR2], p_handler := HLoop\<rparr>
      | HLoop \<Rightarrow>
          (case p_ch p of
             [] \<Rightarrow> p
           | sig # r \<Rightarrow>
               (let p1 = p\<lparr>p_ch := r\<rparr> in
                if sig = SIGINT \<or> sig = SIGTERM
                then stop_serving (p1\<lparr>p_mask := []\<rparr>)\<lparr>p_handler := HSleep GraceStopTimeout\<rparr>
                else if sig = SIGUSR2
                then (case restart of
                        Some e \<Rightarrow> p1\<lparr>p_handler := HDone\<rparr>
                      | None \<Rightarrow> stop_serving (p1\<lparr>p_children := Suc (p_children p1)\<rparr>))
                else p1))
      | HSleep n \<Rightarrow> if n = 0 then p\<lparr>p_handler := HDone\<rparr> else p
      | HDone \<Rightarrow> p)"

text \<open>\<open>initDiscovery\<close> has the discovery client ask for these signals before the handler starts.\<close>

definition initDiscovery :: "int list" where
  "initDiscovery = [SIGINT, SIGTERM]"

text \<open>
  Delivery by \<open>os/signal\<close>: every channel that asked gets the signal unless its buffer (of 10) is full; a signal
  nobody asked for ends the process if it is one of those the runtime exits on.
\<close>

definition runtime_exits :: "int \<Rightarrow> bool" where
  "runtime_exits sig \<longleftrightarrow> sig \<in> set [1, 2, 3, 4, 5, 6, 7, 8, 9, 11, 15, 16, 31]"

definition offer :: "int \<Rightarrow> int list \<Rightarrow> int list" where
  "offer sig ch = (if length ch < 10 then ch @ [sig] else ch)"

definition deliver :: "int \<Rightarrow> bus_process \<Rightarrow> bus_process" where
  "deliver sig p =
     (if sig \<in> set (p_mask p) \<or> sig \<in> set initDiscovery
      then p\<lparr>p_ch := if sig \<in> set (p_mask p) then offer sig (p_ch p) else p_ch p,
             p_discovery := if sig \<in> set initDiscovery then p_discovery p @ [sig] else p_discovery p\<rparr>
      else if runtime_exits sig then p\<lparr>p_end := Some (KilledBy sig)\<rparr> else p)"

definition discovery_turn :: "(int \<Rightarrow> bool) \<Rightarrow> bus_process \<Rightarrow> bus_process" where
  "discovery_turn dereg_exits p =
     (case p_discovery p of
        [] \<Rightarrow> p
      | sig # r \<Rightarrow> p\<lparr>p_discovery := r, p_end := if dereg_exits sig then Some (Exited 0) else p_end p\<rparr>)"

text \<open>
  \<open>Gateway.Serve\<close>: the server returns once its listener is closed; then the number of connections is looked at
  every second, for five seconds at most.
\<close>

definition Gateway_Serve_returns :: "bus_process \<Rightarrow> bus_process" where
  "Gateway_Serve_returns p =
     (if p_gateway p = Serving \<and> \<not> p_listening p ! 0 then p\<lparr>p_gateway := Draining 0\<rparr> else p)"

definition Gateway_Serve_tick :: "nat \<Rightarrow> serving \<Rightarrow> serving" where
  "Gateway_Serve_tick conns g =
     (case g of
        Draining k \<Rightarrow> if conns = 0 \<or> GraceStopTimeout \<le> Suc k then Served else Draining (Suc k)
      | _ \<Rightarrow> g)"

definition AdminServer_returns :: "bus_process \<Rightarrow> bus_process" where
  "AdminServer_returns p = (if \<not> p_listening p ! 1 then p\<lparr>p_admin := Served\<rparr> else p)"

definition second_passes :: "nat \<Rightarrow> bus_process \<Rightarrow> bus_process" where
  "second_passes conns p =
     p\<lparr>p_gateway := Gateway_Serve_tick conns (p_gateway p),
       p_handler := (case p_handler p of HSleep n \<Rightarrow> HSleep (n - 1) | h \<Rightarrow> h)\<rparr>"

text \<open>\<open>wg.Wait\<close> returns when both servers have; the error of \<open>main\<close> is still the nil of the listeners.\<close>

definition main_wait :: "bus_process \<Rightarrow> bus_process" where
  "main_wait p = (if p_gateway p = Served \<and> p_admin p = Served then p\<lparr>p_end := Some (main_exit None)\<rparr> else p)"

datatype event =
    Deliver int | HandlerTurn "string option" | DiscoveryTurn | GatewayReturns | AdminReturns
  | Second nat | MainTurn | ListenerFails nat

definition p_step :: "(int \<Rightarrow> bool) \<Rightarrow> event \<Rightarrow> bus_process \<Rightarrow> bus_process" where
  "p_step dereg_exits e p =
     (if p_end p \<noteq> None then p
      else
        (case e of
           Deliver sig \<Rightarrow> deliver sig p
         | HandlerTurn r \<Rightarrow> signalHandler r p
         | DiscoveryTurn \<Rightarrow> discovery_turn dereg_exits p
         | GatewayReturns \<Rightarrow> Gateway_Serve_returns p
         | AdminReturns \<Rightarrow> AdminServer_returns p
         | Second conns \<Rightarrow> second_passes conns p
         | MainTurn \<Rightarrow> main_wait p
         | ListenerFails i \<Rightarrow> p\<lparr>p_listening := (p_listening p)[i := False]\<rparr>))"

abbreviation p_run :: "(int \<Rightarrow> bool) \<Rightarrow> event list \<Rightarrow> bus_process \<Rightarrow> bus_process" where
  "p_run dereg_exits \<equiv> fold (p_step dereg_exits)"

lemmas p_defs = p_step_def signalHandler_def stop_serving_def deliver_def discovery_turn_def
  Gateway_Serve_returns_def Gateway_Serve_tick_def AdminServer_returns_def second_passes_def main_wait_def Let_def

lemma p_step_ended [simp]: "p_end p \<noteq> None \<Longrightarrow> p_step x e p = p"
  by (simp add: p_step_def)

lemma p_run_ended [simp]: "p_end p \<noteq> None \<Longrightarrow> p_run x es p = p"
  by (induction es) simp_all

lemma p_run_inv:
  assumes "I p" "\<And>e p. I p \<Longrightarrow> e \<in> set es \<Longrightarrow> I (p_step x e p)"
  shows "I (p_run x es p)"
  using assms by (induction es arbitrary: p) auto

subsection \<open>Reachable states\<close>

inductive p_reach :: "(int \<Rightarrow> bool) \<Rightarrow> bus_process \<Rightarrow> bool" for x where
  start: "p_reach x started"
| step: "p_reach x p \<Longrightarrow> p_reach x (p_step x e p)"

definition p_inv :: "bus_process \<Rightarrow> bool" where
  "p_inv p \<longleftrightarrow>
     length (p_listening p) = 2 \<and> length (p_ch p) \<le> 10
     \<and> set (p_mask p) \<subseteq> {SIGINT, SIGUSR2} \<and> set (p_ch p) \<subseteq> {SIGINT, SIGUSR2}
     \<and> (p_handler p = HLoop \<longrightarrow> p_mask p = [SIGINT, SIGUSR2])
     \<and> (p_cancelled p \<longrightarrow> p_listening p = [False, False]) \<and> (0 < p_children p \<longrightarrow> p_cancelled p)
     \<and> (\<forall>n. p_handler p = HSleep n \<longrightarrow> p_cancelled p)
     \<and> (p_gateway p \<noteq> Serving \<longrightarrow> \<not> p_listening p ! 0) \<and> (p_admin p \<noteq> Serving \<longrightarrow> \<not> p_listening p ! 1)
     \<and> (\<forall>k. p_gateway p = Draining k \<longrightarrow> k < GraceStopTimeout) \<and> (\<forall>k. p_admin p \<noteq> Draining k)
     \<and> (p_end p = Some NilPanic \<longrightarrow> p_gateway p = Served \<and> p_admin p = Served)"

lemma p_inv_started: "p_inv started"
  by (simp add: p_inv_def started_def)

lemma closed_update: "l = [False, False] \<Longrightarrow> l[i := False] = [False, False]"
  by (cases i; cases "i - 1") auto

lemma nth_update_False: "\<not> l ! i \<Longrightarrow> \<not> l[j := False] ! i"
  by (cases "i = j"; cases "j < length l") (auto simp: list_update_beyond)

lemma all_closed: "length l = 2 \<Longrightarrow> map (\<lambda>_. False) l = [False, False]"
  by (auto simp: numeral_2_eq_2 length_Suc_conv)

lemma signalHandler_inv:
  assumes "p_inv p"
  shows "p_inv (signalHandler r p)"
proof (cases "p_handler p")
  case HLoop
  show ?thesis
  proof (cases "p_ch p")
    case (Cons sig c)
    then have c: "set c \<subseteq> {SIGINT, SIGUSR2}" "length c \<le> 10" and "sig = SIGINT \<or> sig = SIGUSR2"
      using assms by (auto simp: p_inv_def)
    then consider "sig = SIGINT" | e where "sig = SIGUSR2" "r = Some e" | "sig = SIGUSR2" "r = None" by (cases r) auto
    then show ?thesis
      by cases (use assms c Cons HLoop in \<open>simp_all add: signalHandler_def stop_serving_def Let_def p_inv_def all_closed
          SIGINT_def SIGUSR2_def SIGTERM_def\<close>)
  qed (use assms HLoop in \<open>simp add: signalHandler_def\<close>)
qed (use assms in \<open>auto simp: signalHandler_def p_inv_def\<close>)

lemma p_inv_step:
  assumes "p_inv p"
  shows "p_inv (p_step x e p)"
proof (cases "p_end p")
  case None
  show ?thesis
  proof (cases e)
    case (Deliver sig)
    with assms None show ?thesis by (auto simp: p_inv_def p_step_def deliver_def offer_def)
  next
    case (HandlerTurn r)
    with None show ?thesis using signalHandler_inv [OF assms] by (simp add: p_step_def)
  next
    case DiscoveryTurn
    with assms None show ?thesis by (cases "p_discovery p") (auto simp: p_inv_def p_step_def discovery_turn_def)
  next
    case GatewayReturns
    with assms None show ?thesis by (auto simp: p_inv_def p_step_def Gateway_Serve_returns_def GraceStopTimeout_def)
  next
    case AdminReturns
    with assms None show ?thesis by (auto simp: p_inv_def p_step_def AdminServer_returns_def)
  next
    case (Second n)
    with assms None show ?thesis
      by (cases "p_gateway p"; cases "p_handler p") (auto simp: p_inv_def p_step_def second_passes_def Gateway_Serve_tick_def)
  next
    case MainTurn
    with assms None show ?thesis by (auto simp: p_inv_def p_step_def main_wait_def)
  next
    case (ListenerFails i)
    define l where "l = (p_listening p)[i := False]"
    have "length l = length (p_listening p)" "p_listening p = [False, False] \<longrightarrow> l = [False, False]"
      "\<And>j. \<not> p_listening p ! j \<longrightarrow> \<not> l ! j"
      using closed_update nth_update_False by (auto simp: l_def)
    moreover have "p_step x e p = p\<lparr>p_listening := l\<rparr>" using None ListenerFails by (simp add: p_step_def l_def)
    ultimately show ?thesis using assms by (simp add: p_inv_def)
  qed
qed (simp add: assms)

lemma p_reach_inv: "p_reach x p \<Longrightarrow> p_inv p"
  by (induction rule: p_reach.induct) (auto intro: p_inv_started p_inv_step)

subsection \<open>A handled signal stops the process\<close>

text \<open>
  Progress through a list of events whatever other events are mixed in: what remains to happen is a predicate
  that every step keeps and that the next event of the list shortens.
\<close>

lemma fold_subseq:
  assumes "subseq ev es" "P ev s" "\<And>ev s e. P ev s \<Longrightarrow> P ev (f e s)" "\<And>e ev s. P (e # ev) s \<Longrightarrow> P ev (f e s)"
  shows "P [] (fold f es s)"
  using assms(1,2)
proof (induction ev es arbitrary: s rule: list_emb.induct)
  case (list_emb_Nil ys)
  then show ?case by (induction ys arbitrary: s) (auto intro: assms(3))
qed (auto intro: assms(3,4))

definition drained_in :: "nat \<Rightarrow> serving \<Rightarrow> bool" where
  "drained_in n g \<longleftrightarrow> g = Served \<or> (\<exists>k < GraceStopTimeout. g = Draining k \<and> GraceStopTimeout \<le> k + n)"

text \<open>The turns an orderly stop needs; \<open>cs\<close> are the numbers of open connections the seconds observe.\<close>

definition stop_turns :: "nat list \<Rightarrow> event list" where
  "stop_turns cs = GatewayReturns # AdminReturns # map Second cs @ [MainTurn]"

definition awaits :: "event list \<Rightarrow> bus_process \<Rightarrow> bool" where
  "awaits ev p \<longleftrightarrow> p_end p \<noteq> None \<or> p_inv p \<and> p_listening p = [False, False] \<and>
     (\<exists>cs. ev = stop_turns cs \<and> length cs = GraceStopTimeout
      \<or> ev = AdminReturns # map Second cs @ [MainTurn] \<and> length cs = GraceStopTimeout \<and> p_gateway p \<noteq> Serving
      \<or> ev = map Second cs @ [MainTurn] \<and> drained_in (length cs) (p_gateway p) \<and> p_admin p = Served)"

lemma drained_in_tick: "drained_in n g \<Longrightarrow> drained_in (n - 1) (Gateway_Serve_tick c g)"
proof (cases g)
  case (Draining k)
  assume "drained_in n g"
  with Draining show ?thesis
    by (cases "c = 0 \<or> GraceStopTimeout \<le> Suc k") (auto simp: drained_in_def Gateway_Serve_tick_def)
qed (simp_all add: drained_in_def Gateway_Serve_tick_def)

lemma drained_in_more: "drained_in m g \<Longrightarrow> m \<le> n \<Longrightarrow> drained_in n g"
  by (auto simp: drained_in_def)

lemma stop_serving_fields [simp]:
  "p_gateway (stop_serving p) = p_gateway p" "p_admin (stop_serving p) = p_admin p" "p_end (stop_serving p) = p_end p"
  by (simp_all add: stop_serving_def)

text \<open>What no step undoes.\<close>

lemma closed_stays:
  assumes "p_listening p = [False, False]"
  shows "p_listening (p_step x e p) = [False, False]"
  using assms closed_update [OF assms]
  by (cases e) (auto simp: p_defs split: handler.split list.split option.split)

lemma gateway_step:
  "p_gateway (p_step x e p) = p_gateway p
   \<or> (\<exists>c. p_gateway (p_step x e p) = Gateway_Serve_tick c (p_gateway p))
   \<or> p_gateway p = Serving"
  by (cases e) (auto simp: p_step_def deliver_def signalHandler_def Let_def discovery_turn_def Gateway_Serve_returns_def
      AdminServer_returns_def second_passes_def main_wait_def split: handler.split list.split option.split)

lemma admin_stays: "p_admin p = Served \<Longrightarrow> p_admin (p_step x e p) = Served"
  by (cases e) (auto simp: p_step_def deliver_def signalHandler_def Let_def discovery_turn_def Gateway_Serve_returns_def
      AdminServer_returns_def second_passes_def main_wait_def split: handler.split list.split option.split)

lemma gateway_not_serving: "p_gateway p \<noteq> Serving \<Longrightarrow> p_gateway (p_step x e p) \<noteq> Serving"
  using gateway_step [of x e p] by (cases "p_gateway p") (auto simp: Gateway_Serve_tick_def split: if_splits)

lemma drained_in_step: "drained_in n (p_gateway p) \<Longrightarrow> drained_in n (p_gateway (p_step x e p))"
  using gateway_step [of x e p] drained_in_tick [of n "p_gateway p"] drained_in_more [of "n - 1" _ n]
  by (auto simp: drained_in_def [of _ Serving])

lemma awaits_keep: "awaits ev p \<Longrightarrow> awaits ev (p_step x e p)"
  using closed_stays [of p x e] gateway_not_serving [of p x e] drained_in_step [of _ p x e] admin_stays [of p x e]
    p_inv_step [of p x e] p_step_ended [of p x e]
  unfolding awaits_def by (elim disjE conjE exE) (simp_all, blast+)

lemma awaits_next:
  assumes "awaits (e # ev) p"
  shows "awaits ev (p_step x e p)"
proof (cases "p_end p")
  case None
  then have inv: "p_inv p" and cl: "p_listening p = [False, False]" using assms by (auto simp: awaits_def)
  note keep = closed_stays [OF cl, of x e] p_inv_step [OF inv, of x e]
  from assms None obtain cs where
    "e # ev = stop_turns cs \<and> length cs = GraceStopTimeout
     \<or> e = AdminReturns \<and> ev = map Second cs @ [MainTurn] \<and> length cs = GraceStopTimeout \<and> p_gateway p \<noteq> Serving
     \<or> e # ev = map Second cs @ [MainTurn] \<and> drained_in (length cs) (p_gateway p) \<and> p_admin p = Served"
    by (auto simp: awaits_def)
  then consider
      (gw) "e = GatewayReturns" "ev = AdminReturns # map Second cs @ [MainTurn]" "length cs = GraceStopTimeout"
    | (ad) "e = AdminReturns" "ev = map Second cs @ [MainTurn]" "length cs = GraceStopTimeout" "p_gateway p \<noteq> Serving"
    | (tk) c cs' where "cs = c # cs'" "e = Second c" "ev = map Second cs' @ [MainTurn]" "drained_in (length cs) (p_gateway p)" "p_admin p = Served"
    | (fin) "e = MainTurn" "drained_in 0 (p_gateway p)" "p_admin p = Served"
    by (cases cs) (auto simp: stop_turns_def)
  then show ?thesis
  proof cases
    case gw
    then have "p_gateway (p_step x e p) \<noteq> Serving" using None cl by (simp add: p_step_def Gateway_Serve_returns_def)
    with gw keep show ?thesis by (auto simp: awaits_def)
  next
    case ad
    then have "p_gateway p = Served \<or> (\<exists>k < GraceStopTimeout. p_gateway p = Draining k)"
      using inv by (cases "p_gateway p") (auto simp: p_inv_def)
    then have "drained_in (length cs) (p_gateway (p_step x e p))" "p_admin (p_step x e p) = Served"
      using ad None cl by (auto simp: p_step_def AdminServer_returns_def drained_in_def)
    with ad keep show ?thesis by (auto simp: awaits_def)
  next
    case tk
    then have "drained_in (length cs') (p_gateway (p_step x e p))" "p_admin (p_step x e p) = Served"
      using None drained_in_tick [of "length cs" "p_gateway p" c] by (auto simp: p_step_def second_passes_def)
    with tk keep show ?thesis by (auto simp: awaits_def)
  next
    case fin
    then have "p_end (p_step x e p) \<noteq> None" using None by (auto simp: p_step_def main_wait_def drained_in_def)
    then show ?thesis by (simp add: awaits_def)
  qed
qed (simp add: awaits_def)

lemma stop_turns_end:
  assumes "p_inv p" "p_listening p = [False, False]" "length cs = GraceStopTimeout" "subseq (stop_turns cs) es"
  shows "p_end (p_run x es p) \<noteq> None"
proof -
  have "awaits (stop_turns cs) p" using assms(1-3) by (auto simp: awaits_def)
  then have "awaits [] (p_run x es p)"
    using assms(4) fold_subseq [of "stop_turns cs" es awaits p "p_step x"] awaits_keep awaits_next by blast
  then show ?thesis by (auto simp: awaits_def stop_turns_def)
qed

lemma handled_signal:
  assumes "p_inv p" "p_end p = None" "p_handler p = HLoop" "p_ch p = sig # c" "sig = SIGUSR2 \<longrightarrow> r = None"
    and "p1 = p_step x (HandlerTurn r) p"
  shows "p_listening p1 = [False, False]" "p_cancelled p1" "p_end p1 = None"
    "p_children p1 = (if sig = SIGUSR2 then Suc (p_children p) else p_children p)"
proof -
  have sig: "sig = SIGINT \<or> sig = SIGUSR2" and l: "length (p_listening p) = 2" using assms(1,4) by (auto simp: p_inv_def)
  have ne: "SIGINT \<noteq> SIGUSR2" "SIGUSR2 \<noteq> SIGTERM" by (simp_all add: SIGINT_def SIGUSR2_def SIGTERM_def)
  have "p_listening p1 = [False, False] \<and> p_cancelled p1 \<and> p_end p1 = None
    \<and> p_children p1 = (if sig = SIGUSR2 then Suc (p_children p) else p_children p)"
    using sig
  proof
    assume "sig = SIGINT"
    with assms(2-6) l ne show ?thesis by (simp add: p_step_def signalHandler_def stop_serving_def Let_def all_closed)
  next
    assume "sig = SIGUSR2"
    with assms(2-6) l ne show ?thesis by (auto simp: p_step_def signalHandler_def stop_serving_def Let_def all_closed)
  qed
  then show "p_listening p1 = [False, False]" "p_cancelled p1" "p_end p1 = None"
    "p_children p1 = (if sig = SIGUSR2 then Suc (p_children p) else p_children p)" by blast+
qed

text \<open>Without another signal, and with a discovery client that does not exit, only \<open>main\<close> can end the process.\<close>

lemma end_by_main:
  assumes "\<forall>e \<in> set es. \<forall>sig. e \<noteq> Deliver sig" "\<And>sig. \<not> x sig" "p_end p = None"
  shows "p_end (p_run x es p) \<in> {None, Some NilPanic}"
proof (rule p_run_inv [where I = "\<lambda>p. p_end p \<in> {None, Some NilPanic}"])
  fix e and p' :: bus_process
  assume "p_end p' \<in> {None, Some NilPanic}" "e \<in> set es"
  with assms(1,2) show "p_end (p_step x e p') \<in> {None, Some NilPanic}"
    by (cases e) (auto simp: p_step_def signalHandler_def Let_def discovery_turn_def Gateway_Serve_returns_def
        AdminServer_returns_def second_passes_def main_wait_def main_exit_def split: handler.split list.split option.split)
qed (simp add: assms)

subsection \<open>Signals that are never handled\<close>

text \<open>Both servers accept, the workers run, and no signal waits for a handler that would take it.\<close>

definition undisturbed :: "bus_process \<Rightarrow> bool" where
  "undisturbed p \<longleftrightarrow> p_listening p = [True, True] \<and> \<not> p_cancelled p \<and> p_gateway p = Serving \<and> p_admin p = Serving
     \<and> (p_handler p = HDone \<or> (p_handler p = HStart \<or> p_handler p = HLoop) \<and> set (p_mask p) \<subseteq> {SIGINT, SIGUSR2} \<and> p_ch p = [])"

lemma undisturbed_step:
  assumes "undisturbed p" "\<And>i. e \<noteq> ListenerFails i"
    and "p_handler p = HDone \<or> e \<noteq> Deliver SIGINT \<and> e \<noteq> Deliver SIGUSR2"
  shows "undisturbed (p_step x e p) \<and> (p_handler p = HDone \<longrightarrow> p_handler (p_step x e p) = HDone)"
proof (cases e)
  case (Deliver sig)
  with assms show ?thesis by (auto simp: undisturbed_def p_step_def deliver_def)
next
  case (HandlerTurn r)
  with assms show ?thesis by (auto simp: undisturbed_def p_step_def signalHandler_def split: handler.split)
next
  case DiscoveryTurn
  with assms show ?thesis by (auto simp: undisturbed_def p_step_def discovery_turn_def split: list.split)
qed (use assms in \<open>auto simp: undisturbed_def p_step_def Gateway_Serve_returns_def AdminServer_returns_def second_passes_def
      main_wait_def Gateway_Serve_tick_def\<close>)

lemma undisturbed_run:
  assumes "undisturbed p" "\<forall>e \<in> set es. \<forall>i. e \<noteq> ListenerFails i"
    and "p_handler p = HDone \<or> (\<forall>e \<in> set es. e \<noteq> Deliver SIGINT \<and> e \<noteq> Deliver SIGUSR2)"
  shows "undisturbed (p_run x es p)"
  using assms
proof (induction es arbitrary: p)
  case (Cons e es)
  have "undisturbed (p_step x e p) \<and> (p_handler p = HDone \<longrightarrow> p_handler (p_step x e p) = HDone)"
    using Cons.prems by (intro undisturbed_step) auto
  then show ?case using Cons by auto
qed simp

text \<open>A failed restart ends the handler and nothing else.\<close>

lemma failed_restart:
  assumes "p_end p = None" "p_handler p = HLoop" "p_ch p = SIGUSR2 # c"
  shows "p_step x (HandlerTurn (Some err)) p = p\<lparr>p_ch := c, p_handler := HDone\<rparr>"
  using assms by (simp add: p_step_def signalHandler_def SIGUSR2_def SIGINT_def SIGTERM_def)

text \<open>A signal both channels or only discovery asked for cannot end a process whose discovery client goes on.\<close>

lemma asked_signals_survive:
  assumes "undisturbed p" "p_end p = None" "p_handler p = HDone" "p_mask p = [SIGINT, SIGUSR2]" "\<And>sig. \<not> x sig"
    and "\<forall>e \<in> set es. \<forall>i. e \<noteq> ListenerFails i" "\<forall>sig. Deliver sig \<in> set es \<longrightarrow> sig = SIGINT \<or> sig = SIGUSR2 \<or> sig = SIGTERM"
  shows "p_end (p_run x es p) = None"
proof -
  let ?I = "\<lambda>p. undisturbed p \<and> p_end p = None \<and> p_handler p = HDone \<and> p_mask p = [SIGINT, SIGUSR2]"
  have "?I (p_run x es p)"
  proof (rule p_run_inv [where I = ?I])
    fix e and p' :: bus_process
    assume I: "?I p'" and e: "e \<in> set es"
    have u: "undisturbed (p_step x e p') \<and> p_handler (p_step x e p') = HDone"
      using undisturbed_step [of p' e x] I e assms(6) by blast
    have "p_mask (p_step x e p') = p_mask p' \<and> p_end (p_step x e p') = None"
      using I e assms(5,7)
      by (cases e) (auto simp: undisturbed_def p_step_def deliver_def initDiscovery_def signalHandler_def discovery_turn_def
          Gateway_Serve_returns_def AdminServer_returns_def second_passes_def main_wait_def split: list.split)
    with u I show "?I (p_step x e p')" by simp
  qed (use assms in simp)
  then show ?thesis by blast
qed

end
