(* ===== verification/AdminJson.thy ===== *)
theory AdminJson
  imports Admin Setting "HOL-Library.Char_ord" "HOL-Library.List_Lexorder"
begin

text \<open>
  The JSON the administration service answers with (\<open>renderJSON\<close> in \<open>admin.go\<close>): the responses of the actions with
  the struct tags of the records they carry, and Go maps in the order of their keys.

  The lemmas show that the configuration the service prints is decoded again to the configuration it has:
  an operator can edit what \<open>QueueConfigAction\<close> shows and feed it back.

  An empty map is written \<open>{}\<close>; a nil one would be \<open>null\<close>, which is decoded to the same map. A nil slice is \<open>null\<close>.
\<close>

subsection \<open>Structs and maps\<close>

abbreviation JInt :: "int \<Rightarrow> json" where
  "JInt n \<equiv> JNum (show_int n)"

definition sorted_map :: "(string, 'v) gomap \<Rightarrow> (string, 'v) gomap" where
  "sorted_map m = sort_key fst m"

definition map_json :: "('v \<Rightarrow> json) \<Rightarrow> (string, 'v) gomap \<Rightarrow> json" where
  "map_json f m = JObj (map (\<lambda>(k, v). (k, f v)) (sorted_map m))"

definition slice_json :: "('v \<Rightarrow> json) \<Rightarrow> 'v list \<Rightarrow> json" where
  "slice_json f xs = (if xs = [] then JNull else JArr (map f xs))"

definition StorageConfig_json :: "StorageConfig \<Rightarrow> json" where
  "StorageConfig_json c = JObj
     [(''type'', JStr (sc_Type c)), (''address'', JStr (sc_Address c)), (''auth'', JStr (sc_Auth c)),
      (''max_conn_num'', JInt (sc_MaxConnNum c)), (''max_idle_num'', JInt (sc_MaxIdleNum c)),
      (''max_idle_seconds'', JInt (sc_MaxIdleSeconds c))]"

text \<open>The fields of the embedded \<open>WorkerConfig\<close> stand in its place, and are left out when it is nil.\<close>

definition worker_fields :: "WorkerConfig option \<Rightarrow> (string \<times> json) list" where
  "worker_fields wc =
     (case wc of
        None \<Rightarrow> []
      | Some c \<Rightarrow> [(''script'', JStr (Script c)), (''entry'', JStr (Entry c)), (''max_children'', JInt (MaxChildren c)),
                  (''max_task'', JInt (MaxTask c))])"

definition TopicConfig_json :: "TopicConfig \<Rightarrow> json" where
  "TopicConfig_json c = JObj
     ([(''name'', JStr (tc_Name c)), (''password'', JStr (tc_Password c)), (''retry_times'', JInt (tc_RetryTimes c)),
       (''max_queue_length'', JInt (tc_MaxQueueLength c)), (''run_type'', JInt (tc_RunType c)),
       (''storage'', case tc_Storage c of None \<Rightarrow> JNull | Some s \<Rightarrow> StorageConfig_json s),
       (''num_of_workers'', JNum (show_nat (tc_NumOfWorkers c))), (''script_entry'', JStr (tc_ScriptEntry c)),
       (''cgi_config_key'', JStr (tc_CgiConfigKey c)), (''http_config'', JStr (tc_HttpConfig c))]
      @ worker_fields (tc_WorkerConfig c)
      @ [(''is_retry'', JBool (tc_IsRetry c)), (''retry_time'', JInt (tc_RetryTime c))])"

definition QueueConfig_json :: "QueueConfig \<Rightarrow> json" where
  "QueueConfig_json c = JObj
     [(''queue_name'', JStr (qc_QueueName c)), (''password'', JStr (qc_Password c)),
      (''topic'', map_json TopicConfig_json (qc_Topic c))]"

subsection \<open>Responses\<close>

definition strings_json :: "(string \<times> string) list \<Rightarrow> json" where
  "strings_json kvs = JObj (map (\<lambda>(k, s). (k, JStr s)) kvs)"

definition ErrorCollectionData_json :: "ErrorCollectionData \<Rightarrow> json" where
  "ErrorCollectionData_json d = strings_json
     [(''Time'', ec_Time d), (''Jobs'', ec_Jobs d), (''SysCode'', SysCode d), (''SysError'', SysError d), (''UserCode'', UserCode d),
      (''UserMsg'', UserMsg d)]"

definition TaskDebugData_json :: "TaskDebugData \<Rightarrow> json" where
  "TaskDebugData_json d = strings_json [(''Time'', td_Time d), (''Jobs'', td_Jobs d)]"

definition WorkerResponse_json :: "WorkerResponse \<Rightarrow> json" where
  "WorkerResponse_json r = strings_json
     [(''Code'', Code r), (''ErrorCode'', ErrorCode r), (''ConsumeTopics'', ConsumeTopics r), (''Msg'', Msg r)]"

definition MuxStatsData_json :: "MuxStatsData \<Rightarrow> json" where
  "MuxStatsData_json d = JObj
     [(''TimePeriod'', JInt (ms_TimePeriod d)), (''SuccessCount'', JInt (ms_SuccessCount d)), (''FailCount'', JInt (ms_FailCount d)),
      (''MaxTime'', JInt (MaxTime d)), (''MinTime'', JInt (MinTime d)), (''TotalTime'', JInt (TotalTime d))]"

definition GatewayStatsData_json :: "GatewayStatsData \<Rightarrow> json" where
  "GatewayStatsData_json d = JObj
     [(''TimePeriod'', JInt (gs_TimePeriod d)), (''SuccessCount'', JInt (gs_SuccessCount d)), (''FailCount'', JInt (gs_FailCount d))]"

definition BusId_json :: "BusId \<Rightarrow> json" where
  "BusId_json i = JObj
     [(''createTime'', JInt (CreateTime i)), (''gatewayIp'', JStr (BusGatewayIp i)), (''gatewayPort'', JStr (BusGatewayPort i))]"

definition CGIStatus_json :: "CGIStatus \<Rightarrow> json" where
  "CGIStatus_json s = strings_json
     [(''Pool'', st_Pool s), (''ProcessManager'', st_ProcessManager s), (''StartTime'', st_StartTime s), (''StartSince'', st_StartSince s),
      (''AcceptedConn'', st_AcceptedConn s), (''ListenQueue'', st_ListenQueue s), (''MaxListenQueue'', st_MaxListenQueue s),
      (''ListenQueueLen'', st_ListenQueueLen s), (''IdleProcesses'', st_IdleProcesses s), (''ActiveProcesses'', st_ActiveProcesses s),
      (''TotalProcesses'', st_TotalProcesses s), (''MaxActiveProcesses'', st_MaxActiveProcesses s),
      (''MaxChildrenReached'', st_MaxChildrenReached s), (''SlowRequests'', st_SlowRequests s)]"

text \<open>The lengths are a map with its keys in order; the process id is in a struct without tags.\<close>

definition resp_data_json :: "resp_data \<Rightarrow> json" where
  "resp_data_json d =
     (case d of
        NoData \<Rightarrow> JNull
      | DText s \<Rightarrow> JStr s
      | DCount n \<Rightarrow> JInt n
      | DLengths normal retry timeout \<Rightarrow> JObj [(''normal'', JInt normal), (''retry'', JInt retry), (''timeout'', JInt timeout)]
      | DErrors es \<Rightarrow> slice_json ErrorCollectionData_json es
      | DTasks ts \<Rightarrow> slice_json TaskDebugData_json ts
      | DResponse r \<Rightarrow> (case r of None \<Rightarrow> JNull | Some x \<Rightarrow> WorkerResponse_json x)
      | DConfs c \<Rightarrow> map_json QueueConfig_json c
      | DMuxStats m \<Rightarrow> map_json (map_json MuxStatsData_json) m
      | DGatewayStats m \<Rightarrow> map_json GatewayStatsData_json m
      | DBusId i \<Rightarrow> BusId_json i
      | DResult pid res \<Rightarrow> JObj [(''Pid'', JInt pid), (''Result'', JStr res)]
      | DStatus s \<Rightarrow> CGIStatus_json s)"

definition Resp_json :: "Resp \<Rightarrow> json" where
  "Resp_json r = JObj
     [(''error_code'', JInt (ErrorCode_resp r)), (''error'', JStr (Error_resp r)), (''data'', resp_data_json (Data_resp r))]"

text \<open>None of these values makes \<open>json.Marshal\<close> fail, so the second attempt of the code is not taken.\<close>

definition renderJSON :: "Resp \<Rightarrow> string" where
  "renderJSON r = json_marshal (Resp_json r)"

subsection \<open>What is printed is JSON text of the value\<close>

definition storage_printable :: "StorageConfig \<Rightarrow> bool" where
  "storage_printable c \<longleftrightarrow> valid_utf8 (sc_Type c) \<and> valid_utf8 (sc_Address c) \<and> valid_utf8 (sc_Auth c)
     \<and> in_i64 (sc_MaxConnNum c) \<and> in_i64 (sc_MaxIdleNum c) \<and> in_i64 (sc_MaxIdleSeconds c)"

definition worker_printable :: "WorkerConfig \<Rightarrow> bool" where
  "worker_printable c \<longleftrightarrow> valid_utf8 (Script c) \<and> valid_utf8 (Entry c) \<and> in_i64 (MaxChildren c) \<and> in_i64 (MaxTask c)"

definition topic_printable :: "TopicConfig \<Rightarrow> bool" where
  "topic_printable c \<longleftrightarrow> valid_utf8 (tc_Name c) \<and> valid_utf8 (tc_Password c) \<and> valid_utf8 (tc_ScriptEntry c) \<and> valid_utf8 (tc_CgiConfigKey c)
     \<and> valid_utf8 (tc_HttpConfig c) \<and> in_i64 (tc_RetryTimes c) \<and> in_i64 (tc_MaxQueueLength c) \<and> in_i64 (tc_RunType c)
     \<and> in_i64 (tc_RetryTime c) \<and> tc_NumOfWorkers c \<le> maxUint64 \<and> pred_option storage_printable (tc_Storage c)
     \<and> pred_option worker_printable (tc_WorkerConfig c)"

definition queue_printable :: "QueueConfig \<Rightarrow> bool" where
  "queue_printable c \<longleftrightarrow> valid_utf8 (qc_QueueName c) \<and> valid_utf8 (qc_Password c) \<and> wf_map (qc_Topic c)
     \<and> list_all (\<lambda>(t, tc). valid_utf8 t \<and> topic_printable tc) (qc_Topic c)"

definition confs_printable :: "QueueConfs \<Rightarrow> bool" where
  "confs_printable confs \<longleftrightarrow> wf_map confs \<and> list_all (\<lambda>(q, qc). valid_utf8 q \<and> queue_printable qc) confs"

lemma set_sorted_map [simp]: "set (sorted_map m) = set m"
  by (simp add: sorted_map_def)

lemma distinct_insort: "distinct (map fst (insort_key fst x xs)) \<longleftrightarrow> distinct (map fst (x # xs))"
  by (induction xs) (auto simp: set_insort_key)

lemma wf_sorted_map [simp]: "wf_map (sorted_map m) \<longleftrightarrow> wf_map m"
  unfolding wf_map_def sorted_map_def by (induction m) (simp_all add: distinct_insort)

lemma map_json_ok:
  assumes "\<forall>(k, v) \<in> set m. valid_utf8 k \<and> json_ok (f v)"
  shows "json_ok (map_json f m)"
  using assms by (auto simp: map_json_def list_all_iff)

lemma show_nat_scalar [simp]: "\<exists>i. show_nat n = show_int i"
  by (rule exI [of _ "int n"]) (simp add: show_int_def)

lemma valid_config_keys [simp]:
  "valid_utf8 ''type''" "valid_utf8 ''address''" "valid_utf8 ''auth''" "valid_utf8 ''max_conn_num''" "valid_utf8 ''max_idle_num''"
  "valid_utf8 ''max_idle_seconds''" "valid_utf8 ''script''" "valid_utf8 ''entry''" "valid_utf8 ''max_children''" "valid_utf8 ''max_task''"
  "valid_utf8 ''name''" "valid_utf8 ''password''" "valid_utf8 ''retry_times''" "valid_utf8 ''max_queue_length''" "valid_utf8 ''run_type''"
  "valid_utf8 ''storage''" "valid_utf8 ''num_of_workers''" "valid_utf8 ''script_entry''" "valid_utf8 ''cgi_config_key''"
  "valid_utf8 ''http_config''" "valid_utf8 ''is_retry''" "valid_utf8 ''retry_time''" "valid_utf8 ''queue_name''" "valid_utf8 ''topic''"
  "valid_utf8 ''error_code''" "valid_utf8 ''error''" "valid_utf8 ''data''"
  by (simp_all add: valid_utf8_ascii)

lemma StorageConfig_json_ok: "storage_printable c \<Longrightarrow> json_ok (StorageConfig_json c)"
  by (auto simp: StorageConfig_json_def storage_printable_def)

lemma TopicConfig_json_ok: "topic_printable c \<Longrightarrow> json_ok (TopicConfig_json c)"
  by (auto simp: TopicConfig_json_def topic_printable_def worker_fields_def worker_printable_def StorageConfig_json_ok split: option.splits)

lemma QueueConfig_json_ok: "queue_printable c \<Longrightarrow> json_ok (QueueConfig_json c)"
  using map_json_ok [of "qc_Topic c" TopicConfig_json] TopicConfig_json_ok
  by (auto simp: QueueConfig_json_def queue_printable_def list_all_iff)

lemma confs_json_ok: "confs_printable confs \<Longrightarrow> json_ok (map_json QueueConfig_json confs)"
  by (rule map_json_ok) (auto simp: confs_printable_def list_all_iff QueueConfig_json_ok)

subsection \<open>The configuration is decoded to what it was\<close>

lemma AList_update_new: "k \<notin> set (map fst m) \<Longrightarrow> AList.update k v m = m @ [(k, v)]"
  by (induction m) auto

lemma decode_entries_map:
  assumes "distinct (map fst kvs)" "set (map fst m) \<inter> set (map fst kvs) = {}" "\<forall>(k, v) \<in> set kvs. d (f v) = Some (g v)"
  shows "decode_entries d (map (\<lambda>(k, v). (k, f v)) kvs) m = Some (m @ map (\<lambda>(k, v). (k, g v)) kvs)"
  using assms
proof (induction kvs arbitrary: m)
  case (Cons kv kvs)
  obtain k v where kv: "kv = (k, v)" by (cases kv)
  have new: "AList.update k (g v) m = m @ [(k, g v)]" using Cons.prems(2) kv by (intro AList_update_new) auto
  have "decode_entries d (map (\<lambda>(k, v). (k, f v)) kvs) (m @ [(k, g v)]) = Some ((m @ [(k, g v)]) @ map (\<lambda>(k, v). (k, g v)) kvs)"
    using Cons.prems kv by (intro Cons.IH) auto
  then show ?case using Cons.prems(3) kv new by simp
qed simp

lemma decode_map_json:
  assumes "wf_map m" "\<forall>(k, v) \<in> set m. d (f v) = Some (g v)"
  shows "decode_map d [] (map_json f m) = Some (map (\<lambda>(k, v). (k, g v)) (sorted_map m))"
  using decode_entries_map [of "sorted_map m" "[]" d f g] assms wf_sorted_map [of m]
  by (simp add: decode_map_def map_json_def wf_map_def)

lemma fold_config_keys [simp]:
  "fold_key ''type'' = ''type''" "fold_key ''address'' = ''address''" "fold_key ''auth'' = ''auth''"
  "fold_key ''max_conn_num'' = ''max_conn_num''" "fold_key ''max_idle_num'' = ''max_idle_num''"
  "fold_key ''max_idle_seconds'' = ''max_idle_seconds''" "fold_key ''script'' = ''script''" "fold_key ''entry'' = ''entry''"
  "fold_key ''max_children'' = ''max_children''" "fold_key ''max_task'' = ''max_task''" "fold_key ''name'' = ''name''"
  "fold_key ''password'' = ''password''" "fold_key ''retry_times'' = ''retry_times''"
  "fold_key ''max_queue_length'' = ''max_queue_length''" "fold_key ''run_type'' = ''run_type''" "fold_key ''storage'' = ''storage''"
  "fold_key ''num_of_workers'' = ''num_of_workers''" "fold_key ''script_entry'' = ''script_entry''"
  "fold_key ''cgi_config_key'' = ''cgi_config_key''" "fold_key ''http_config'' = ''http_config''" "fold_key ''is_retry'' = ''is_retry''"
  "fold_key ''retry_time'' = ''retry_time''" "fold_key ''queue_name'' = ''queue_name''" "fold_key ''topic'' = ''topic''"
  by code_simp+

lemma StorageConfig_fields:
  "StorageConfig_set c (''type'', JStr s) = (c\<lparr>sc_Type := s\<rparr>, True)"
  "StorageConfig_set c (''address'', JStr s) = (c\<lparr>sc_Address := s\<rparr>, True)"
  "StorageConfig_set c (''auth'', JStr s) = (c\<lparr>sc_Auth := s\<rparr>, True)"
  "in_i64 n \<Longrightarrow> StorageConfig_set c (''max_conn_num'', JInt n) = (c\<lparr>sc_MaxConnNum := n\<rparr>, True)"
  "in_i64 n \<Longrightarrow> StorageConfig_set c (''max_idle_num'', JInt n) = (c\<lparr>sc_MaxIdleNum := n\<rparr>, True)"
  "in_i64 n \<Longrightarrow> StorageConfig_set c (''max_idle_seconds'', JInt n) = (c\<lparr>sc_MaxIdleSeconds := n\<rparr>, True)"
  unfolding StorageConfig_set_def fst_conv snd_conv fold_config_keys Let_def by simp_all

lemma decode_StorageConfig: "storage_printable c \<Longrightarrow> decode_struct StorageConfig_set c0 (StorageConfig_json c) = Some c"
  by (simp add: storage_printable_def decode_struct_def StorageConfig_json_def StorageConfig_fields)

lemma store_uint_show [simp]: "n \<le> maxUint64 \<Longrightarrow> store_uint (JNum (show_nat n)) old = (n, True)"
  by (simp add: store_uint_def)

lemma TopicConfig_fields:
  "TopicConfig_set c (''name'', JStr s) = (c\<lparr>tc_Name := s\<rparr>, True)"
  "TopicConfig_set c (''password'', JStr s) = (c\<lparr>tc_Password := s\<rparr>, True)"
  "in_i64 n \<Longrightarrow> TopicConfig_set c (''retry_times'', JInt n) = (c\<lparr>tc_RetryTimes := n\<rparr>, True)"
  "in_i64 n \<Longrightarrow> TopicConfig_set c (''max_queue_length'', JInt n) = (c\<lparr>tc_MaxQueueLength := n\<rparr>, True)"
  "in_i64 n \<Longrightarrow> TopicConfig_set c (''run_type'', JInt n) = (c\<lparr>tc_RunType := n\<rparr>, True)"
  "TopicConfig_set c (''storage'', v) =
     (let (x, ok) = store_ptr StorageConfig_set new_StorageConfig v (tc_Storage c) in (c\<lparr>tc_Storage := x\<rparr>, ok))"
  "k \<le> maxUint64 \<Longrightarrow> TopicConfig_set c (''num_of_workers'', JNum (show_nat k)) = (c\<lparr>tc_NumOfWorkers := k\<rparr>, True)"
  "TopicConfig_set c (''script_entry'', JStr s) = (c\<lparr>tc_ScriptEntry := s\<rparr>, True)"
  "TopicConfig_set c (''cgi_config_key'', JStr s) = (c\<lparr>tc_CgiConfigKey := s\<rparr>, True)"
  "TopicConfig_set c (''http_config'', JStr s) = (c\<lparr>tc_HttpConfig := s\<rparr>, True)"
  "TopicConfig_set c (''is_retry'', JBool b) = (c\<lparr>tc_IsRetry := b\<rparr>, True)"
  "in_i64 n \<Longrightarrow> TopicConfig_set c (''retry_time'', JInt n) = (c\<lparr>tc_RetryTime := n\<rparr>, True)"
  unfolding TopicConfig_set_def fst_conv snd_conv fold_config_keys Let_def by simp_all

lemma worker_set:
  "TopicConfig_set c (''script'', JStr s) = (c\<lparr>tc_WorkerConfig := Some ((worker_of c)\<lparr>Script := s\<rparr>)\<rparr>, True)"
  "TopicConfig_set c (''entry'', JStr s) = (c\<lparr>tc_WorkerConfig := Some ((worker_of c)\<lparr>Entry := s\<rparr>)\<rparr>, True)"
  "in_i64 n \<Longrightarrow> TopicConfig_set c (''max_children'', JInt n) = (c\<lparr>tc_WorkerConfig := Some ((worker_of c)\<lparr>MaxChildren := n\<rparr>)\<rparr>, True)"
  "in_i64 n \<Longrightarrow> TopicConfig_set c (''max_task'', JInt n) = (c\<lparr>tc_WorkerConfig := Some ((worker_of c)\<lparr>MaxTask := n\<rparr>)\<rparr>, True)"
  unfolding TopicConfig_set_def fst_conv snd_conv fold_config_keys Let_def by simp_all

lemma set_fields_append:
  "set_fields f r (xs @ ys) = Option.bind (set_fields f r xs) (\<lambda>r'. set_fields f r' ys)"
  by (induction xs arbitrary: r) (auto split: prod.split)

lemma set_worker_fields:
  assumes "tc_WorkerConfig c = None" "pred_option worker_printable wc"
  shows "set_fields TopicConfig_set c (worker_fields wc) = Some (c\<lparr>tc_WorkerConfig := wc\<rparr>)"
  using assms by (cases wc) (auto simp: worker_fields_def worker_printable_def worker_set worker_of_def)

lemma store_ptr_struct:
  "decode_struct f zero v = Some r \<Longrightarrow> store_ptr f zero v None = (Some r, True)"
  by (cases v) (simp_all add: store_ptr_def decode_struct_def)

lemma store_storage:
  "pred_option storage_printable s \<Longrightarrow>
   store_ptr StorageConfig_set new_StorageConfig (case s of None \<Rightarrow> JNull | Some c \<Rightarrow> StorageConfig_json c) None = (s, True)"
  by (cases s) (simp_all add: store_ptr_def [of _ _ JNull] store_ptr_struct decode_StorageConfig)

lemma decode_TopicConfig:
  assumes "topic_printable c"
  shows "decode_struct TopicConfig_set new_TopicConfig (TopicConfig_json c) = Some (strip_topic c)"
proof -
  have ok: "in_i64 (tc_RetryTimes c)" "in_i64 (tc_MaxQueueLength c)" "in_i64 (tc_RunType c)" "in_i64 (tc_RetryTime c)"
    "tc_NumOfWorkers c \<le> maxUint64" "pred_option storage_printable (tc_Storage c)" "pred_option worker_printable (tc_WorkerConfig c)"
    using assms by (simp_all add: topic_printable_def)
  show ?thesis
    by (simp add: decode_struct_def TopicConfig_json_def set_fields_append set_worker_fields new_TopicConfig_def
        TopicConfig_fields ok store_storage strip_topic_def)
qed

text \<open>The configuration in the order in which it is printed; the flags set from the tags are not printed.\<close>

definition printed_queue :: "QueueConfig \<Rightarrow> QueueConfig" where
  "printed_queue qc = (strip_queue qc)\<lparr>qc_Topic := sorted_map (qc_Topic (strip_queue qc))\<rparr>"

definition printed_confs :: "QueueConfs \<Rightarrow> QueueConfs" where
  "printed_confs confs = map (\<lambda>(q, qc). (q, printed_queue qc)) (sorted_map confs)"

lemma sorted_map_map: "map (\<lambda>(k, v). (k, g v)) (sorted_map m) = sorted_map (map (\<lambda>(k, v). (k, g v)) m)"
proof -
  have s: "map (\<lambda>(k, v). (k, g v)) (insort_key fst x m) = insort_key fst (case x of (k, v) \<Rightarrow> (k, g v)) (map (\<lambda>(k, v). (k, g v)) m)" for x m
    by (induction m) (auto split: prod.splits)
  show ?thesis unfolding sorted_map_def by (induction m) (simp_all add: s)
qed

lemma QueueConfig_fields:
  "QueueConfig_set q (''queue_name'', JStr s) = (q\<lparr>qc_QueueName := s\<rparr>, True)"
  "QueueConfig_set q (''password'', JStr s) = (q\<lparr>qc_Password := s\<rparr>, True)"
  "QueueConfig_set q (''topic'', v) =
     (case decode_map (decode_struct TopicConfig_set new_TopicConfig) (qc_Topic q) v of
        None \<Rightarrow> (q, False) | Some ts \<Rightarrow> (q\<lparr>qc_Topic := ts\<rparr>, True))"
  unfolding QueueConfig_set_def fst_conv snd_conv fold_config_keys Let_def by simp_all

lemma decode_QueueConfig:
  assumes "queue_printable c"
  shows "decode_struct QueueConfig_set new_QueueConfig (QueueConfig_json c) = Some (printed_queue c)"
proof -
  have t: "decode_map (decode_struct TopicConfig_set new_TopicConfig) [] (map_json TopicConfig_json (qc_Topic c))
      = Some (map (\<lambda>(k, v). (k, strip_topic v)) (sorted_map (qc_Topic c)))"
    using assms by (intro decode_map_json) (auto simp: queue_printable_def list_all_iff decode_TopicConfig)
  show ?thesis
    by (simp add: decode_struct_def QueueConfig_json_def QueueConfig_fields new_QueueConfig_def t printed_queue_def strip_queue_def sorted_map_map)
qed

lemma decode_printed:
  assumes "confs_printable confs"
  shows "decode_QueueConfs (json_marshal (map_json QueueConfig_json confs)) = Some (printed_confs confs)"
proof -
  have "decode_map (decode_struct QueueConfig_set new_QueueConfig) [] (map_json QueueConfig_json confs) = Some (printed_confs confs)"
    unfolding printed_confs_def using assms
    by (intro decode_map_json) (auto simp: confs_printable_def list_all_iff decode_QueueConfig)
  then show ?thesis by (simp add: decode_QueueConfs_def json_round_trip [OF confs_json_ok [OF assms]])
qed

text \<open>It is the same configuration: looked up by name, only the flags are gone.\<close>

lemma map_of_sorted_map: "wf_map m \<Longrightarrow> map_of (sorted_map m) = map_of m"
  using wf_sorted_map [of m] by (intro map_of_inject_set [THEN iffD2]) (simp_all add: wf_map_def)

lemma printed_queues:
  assumes "confs_printable confs"
  shows "rel_option DeepEqual (map_of (printed_confs confs) q) (map_option strip_queue (map_of confs q))"
proof (cases "map_of confs q")
  case (Some qc)
  then have "wf_map (qc_Topic qc)" using assms map_of_SomeD [OF Some] by (fastforce simp: confs_printable_def list_all_iff queue_printable_def)
  then have "wf_map (qc_Topic (strip_queue qc))" by (simp add: strip_queue_def wf_map_def comp_def case_prod_beta)
  then have "DeepEqual (printed_queue qc) (strip_queue qc)"
    by (simp add: DeepEqual_def printed_queue_def map_eq_iff map_of_sorted_map)
  with Some assms show ?thesis by (simp add: printed_confs_def map_of_map map_of_sorted_map confs_printable_def)
qed (use assms in \<open>simp add: printed_confs_def map_of_map map_of_sorted_map confs_printable_def\<close>)

lemma printed_same:
  assumes "confs_printable confs"
  shows "topic_conf (printed_confs confs) q t = map_option strip_topic (topic_conf confs q t)"
proof (cases "map_of confs q")
  case (Some qc)
  then have "wf_map (qc_Topic qc)" using assms map_of_SomeD [OF Some] by (fastforce simp: confs_printable_def list_all_iff queue_printable_def)
  then have "wf_map (qc_Topic (strip_queue qc))" by (simp add: strip_queue_def wf_map_def comp_def case_prod_beta)
  with Some assms show ?thesis
    by (simp add: topic_conf_def printed_confs_def map_of_map map_of_sorted_map confs_printable_def printed_queue_def)
       (simp add: strip_queue_def map_of_map)
qed (use assms in \<open>simp add: topic_conf_def printed_confs_def map_of_map map_of_sorted_map confs_printable_def\<close>)

text \<open>The response of \<open>QueueConfigAction\<close> as a client reads it.\<close>

lemma QueueConfigAction_read:
  assumes "confs_printable (current_QueueConfs st)"
  shows "json_parse (renderJSON (QueueConfigAction st)) =
     Some (JObj [(''error_code'', JInt 0), (''error'', JStr []), (''data'', map_json QueueConfig_json (current_QueueConfs st))])"
proof -
  have "Resp_json (QueueConfigAction st) =
      JObj [(''error_code'', JInt 0), (''error'', JStr []), (''data'', map_json QueueConfig_json (current_QueueConfs st))]"
    by (simp add: Resp_json_def QueueConfigAction_def ok_def resp_data_json_def)
  moreover have "json_ok (Resp_json (QueueConfigAction st))"
    unfolding calculation using confs_json_ok [OF assms] by auto
  ultimately show ?thesis unfolding renderJSON_def by (metis json_round_trip)
qed

end
