(* ===== verification/BenConfig.thy ===== *)
theory BenConfig
  imports AdminJson
begin

text \<open>
  The configuration generator of the benchmark (\<open>script/genconfig_ben.go\<close>): a hundred queues with three topics
  each, printed as the JSON text the bus reads its queues from. The structs of the script are an older version of
  those in \<open>setting.go\<close>: the transport is embedded in the topic instead of being named by a key, and the
  number of workers is missing.

  The lemmas show what the bus decodes from the generated text.
\<close>

subsection \<open>The records of the script\<close>

record ben_CgiConfig =
  bc_Address :: string
  bc_ConnectTimeout :: int
  bc_ReadTimeout :: int
  bc_WriteTimeout :: int
  bc_ScriptEntry :: string

record ben_TopicConfig =
  bt_Name :: string
  bt_Password :: string
  bt_RetryTimes :: int
  bt_MaxQueueLength :: int
  bt_RunType :: int
  bt_Storage :: StorageConfig
  bt_CgiConfig :: ben_CgiConfig

record ben_QueueConfig =
  bq_QueueName :: string
  bq_Password :: string
  bq_Topic :: "(TopicName, ben_TopicConfig) gomap"

text \<open>The fields of the embedded transport stand behind the storage; the embedded \<open>WorkerConfig\<close> is nil.\<close>

definition ben_TopicConfig_json :: "ben_TopicConfig \<Rightarrow> json" where
  "ben_TopicConfig_json c = JObj
     [(''name'', JStr (bt_Name c)), (''password'', JStr (bt_Password c)), (''retry_times'', JInt (bt_RetryTimes c)),
      (''max_queue_length'', JInt (bt_MaxQueueLength c)), (''run_type'', JInt (bt_RunType c)),
      (''storage'', StorageConfig_json (bt_Storage c)), (''address'', JStr (bc_Address (bt_CgiConfig c))),
      (''connect_timeout'', JInt (bc_ConnectTimeout (bt_CgiConfig c))), (''read_timeout'', JInt (bc_ReadTimeout (bt_CgiConfig c))),
      (''write_timeout'', JInt (bc_WriteTimeout (bt_CgiConfig c))), (''script_entry'', JStr (bc_ScriptEntry (bt_CgiConfig c)))]"

definition ben_QueueConfig_json :: "ben_QueueConfig \<Rightarrow> json" where
  "ben_QueueConfig_json c = JObj
     [(''queue_name'', JStr (bq_QueueName c)), (''password'', JStr (bq_Password c)),
      (''topic'', map_json ben_TopicConfig_json (bq_Topic c))]"

subsection \<open>The generated configuration\<close>

definition ben_storage :: StorageConfig where
  "ben_storage = \<lparr>sc_Type = ''redis'', sc_Address = ''10.208.255.222:5814'', sc_Auth = [], sc_MaxConnNum = 30, sc_MaxIdleNum = 10,
     sc_MaxIdleSeconds = 300\<rparr>"

definition ben_topic :: "string \<Rightarrow> ben_TopicConfig" where
  "ben_topic name = \<lparr>bt_Name = name, bt_Password = ''783ab0ce'', bt_RetryTimes = 3, bt_MaxQueueLength = 1000, bt_RunType = 0,
     bt_Storage = ben_storage,
     bt_CgiConfig = \<lparr>bc_Address = ''127.0.0.1:9000'', bc_ConnectTimeout = 3000000000, bc_ReadTimeout = 3000000000,
       bc_WriteTimeout = 3000000000, bc_ScriptEntry = ''/data/example/php/consume.php''\<rparr>\<rparr>"

definition ben_topics :: "(TopicName, ben_TopicConfig) gomap" where
  "ben_topics = map (\<lambda>i. let name = ''BenTestTopic'' @ show_nat i in (name, ben_topic name)) [0..<3]"

definition ben_queue :: "string \<Rightarrow> ben_QueueConfig" where
  "ben_queue name = \<lparr>bq_QueueName = name, bq_Password = ''783ab0ce'', bq_Topic = ben_topics\<rparr>"

definition ben_queues :: "(QueueName, ben_QueueConfig) gomap" where
  "ben_queues = map (\<lambda>i. let name = ''BenTestQueue'' @ show_nat i in (name, ben_queue name)) [0..<100]"

definition ben_text :: string where
  "ben_text = json_marshal (map_json ben_QueueConfig_json ben_queues)"

subsection \<open>What the bus reads\<close>

definition read_topic :: "ben_TopicConfig \<Rightarrow> TopicConfig" where
  "read_topic c = new_TopicConfig\<lparr>tc_Name := bt_Name c, tc_Password := bt_Password c, tc_RetryTimes := bt_RetryTimes c,
     tc_MaxQueueLength := bt_MaxQueueLength c, tc_RunType := bt_RunType c, tc_Storage := Some (bt_Storage c),
     tc_ScriptEntry := bc_ScriptEntry (bt_CgiConfig c)\<rparr>"

definition read_queue :: "ben_QueueConfig \<Rightarrow> QueueConfig" where
  "read_queue c = new_QueueConfig\<lparr>qc_QueueName := bq_QueueName c, qc_Password := bq_Password c,
     qc_Topic := map (\<lambda>(t, tc). (t, read_topic tc)) (sorted_map (bq_Topic c))\<rparr>"

lemma skipped_fields:
  "TopicConfig_set c (''address'', v) = (c, True)" "TopicConfig_set c (''connect_timeout'', v) = (c, True)"
  "TopicConfig_set c (''read_timeout'', v) = (c, True)" "TopicConfig_set c (''write_timeout'', v) = (c, True)"
proof -
  have "fold_key ''connect_timeout'' = ''connect_timeout''" "fold_key ''read_timeout'' = ''read_timeout''"
    "fold_key ''write_timeout'' = ''write_timeout''" by code_simp+
  then show "TopicConfig_set c (''address'', v) = (c, True)" "TopicConfig_set c (''connect_timeout'', v) = (c, True)"
    "TopicConfig_set c (''read_timeout'', v) = (c, True)" "TopicConfig_set c (''write_timeout'', v) = (c, True)"
    unfolding TopicConfig_set_def fst_conv snd_conv fold_config_keys Let_def by simp_all
qed

lemma store_storage_new:
  "storage_printable s \<Longrightarrow> store_ptr StorageConfig_set new_StorageConfig (StorageConfig_json s) None = (Some s, True)"
  by (simp add: store_ptr_struct decode_StorageConfig)

lemma ben_storage_printable: "storage_printable ben_storage"
  by (simp add: storage_printable_def ben_storage_def in_i64_def valid_utf8_ascii)

lemma decode_ben_topic:
  "decode_struct TopicConfig_set new_TopicConfig (ben_TopicConfig_json (ben_topic name)) = Some (read_topic (ben_topic name))"
  by (simp add: decode_struct_def ben_TopicConfig_json_def skipped_fields TopicConfig_fields store_storage_new ben_topic_def
      ben_storage_printable read_topic_def new_TopicConfig_def in_i64_def)

lemma valid_show_nat: "valid_utf8 (show_nat n)"
proof (rule valid_utf8_ascii)
  have "digit_val c \<noteq> None \<Longrightarrow> byte_of c < 128" for c by (auto simp: digit_val_def split: if_splits)
  then show "list_all (\<lambda>c. byte_of c < 128) (show_nat n)"
    using show_nat_digits [of n] by (auto simp: all_digits_def list_all_iff)
qed

lemma ben_names_valid: "valid_utf8 (''BenTestTopic'' @ show_nat n)" "valid_utf8 (''BenTestQueue'' @ show_nat n)"
  using valid_show_nat [of n] valid_utf8_append_ascii by (simp_all add: valid_utf8_append_ascii)

lemma ben_wf: "wf_map ben_topics" "wf_map ben_queues"
  by (auto simp: wf_map_def ben_topics_def ben_queues_def Let_def comp_def distinct_map inj_on_def)

lemma in_ben_topics: "(t, tc) \<in> set ben_topics \<Longrightarrow> tc = ben_topic t \<and> valid_utf8 t"
  using ben_names_valid(1) by (auto simp: ben_topics_def Let_def)

lemma in_ben_queues: "(q, qc) \<in> set ben_queues \<Longrightarrow> qc = ben_queue q \<and> valid_utf8 q"
  using ben_names_valid(2) by (auto simp: ben_queues_def Let_def)

lemma decode_ben_queue:
  "decode_struct QueueConfig_set new_QueueConfig (ben_QueueConfig_json (ben_queue name)) = Some (read_queue (ben_queue name))"
proof -
  have t: "decode_map (decode_struct TopicConfig_set new_TopicConfig) [] (map_json ben_TopicConfig_json ben_topics)
      = Some (map (\<lambda>(k, v). (k, read_topic v)) (sorted_map ben_topics))"
    using decode_ben_topic by (intro decode_map_json ben_wf) (auto dest: in_ben_topics)
  show ?thesis
    by (simp add: decode_struct_def ben_QueueConfig_json_def QueueConfig_fields ben_queue_def new_QueueConfig_def read_queue_def t)
qed

lemma ben_json_ok: "json_ok (map_json ben_QueueConfig_json ben_queues)"
proof (rule map_json_ok)
  have keys_ok: "valid_utf8 ''connect_timeout''" "valid_utf8 ''read_timeout''" "valid_utf8 ''write_timeout''"
    by (simp_all add: valid_utf8_ascii)
  have "json_ok (ben_TopicConfig_json (ben_topic t))" if "valid_utf8 t" for t
    using that StorageConfig_json_ok [OF ben_storage_printable] keys_ok
    by (auto simp: ben_TopicConfig_json_def ben_topic_def valid_utf8_ascii)
  then have "json_ok (map_json ben_TopicConfig_json ben_topics)"
    by (intro map_json_ok) (auto dest: in_ben_topics)
  then show "\<forall>(k, v) \<in> set ben_queues. valid_utf8 k \<and> json_ok (ben_QueueConfig_json v)"
    by (auto dest!: in_ben_queues simp: ben_QueueConfig_json_def ben_queue_def valid_utf8_ascii)
qed

lemma decode_ben_text:
  "decode_QueueConfs ben_text = Some (map (\<lambda>(q, qc). (q, read_queue qc)) (sorted_map ben_queues))"
proof -
  have "decode_map (decode_struct QueueConfig_set new_QueueConfig) [] (map_json ben_QueueConfig_json ben_queues)
      = Some (map (\<lambda>(q, qc). (q, read_queue qc)) (sorted_map ben_queues))"
    using decode_ben_queue by (intro decode_map_json ben_wf) (auto dest: in_ben_queues)
  then show ?thesis by (simp add: decode_QueueConfs_def ben_text_def json_round_trip [OF ben_json_ok])
qed

text \<open>
  A hundred queues, every one with the three topics in a Redis storage, but without a transport key,
  without retries and with no worker.
\<close>

lemma ben_topic_read:
  assumes "decode_QueueConfs ben_text = Some confs"
  shows "length confs = 100 \<and> proper_queues d confs
     \<and> (\<forall>i < 100. \<forall>j < 3. \<exists>tc. topic_conf confs (''BenTestQueue'' @ show_nat i) (''BenTestTopic'' @ show_nat j) = Some tc
          \<and> tc_Storage tc = Some ben_storage \<and> tc_RetryTimes tc = 3 \<and> tc_NumOfWorkers tc = 0 \<and> tc_CgiConfigKey tc = [] \<and> \<not> tc_IsRetry tc)"
proof (intro conjI allI impI)
  have confs: "confs = map (\<lambda>(q, qc). (q, read_queue qc)) (sorted_map ben_queues)" using assms decode_ben_text by simp
  show "length confs = 100" by (simp add: confs sorted_map_def ben_queues_def)
  have "NewStorage ben_storage \<noteq> Panic" using NewStorage_total [of ben_storage] by (auto simp: ben_storage_def chan_size_ok_def)
  then show "proper_queues d confs"
    by (auto simp: proper_queues_def topic_ok_def confs list_all_iff read_queue_def read_topic_def ben_queue_def ben_topics_def
        ben_topic_def RunTypeHttp_def Let_def new_TopicConfig_def dest!: in_ben_queues)
  fix i j :: nat
  assume i: "i < 100" and j: "j < 3"
  have q: "map_of ben_queues (''BenTestQueue'' @ show_nat i) = Some (ben_queue (''BenTestQueue'' @ show_nat i))"
    using i ben_wf(2) by (intro map_of_is_SomeI) (auto simp: wf_map_def ben_queues_def Let_def)
  have t: "map_of ben_topics (''BenTestTopic'' @ show_nat j) = Some (ben_topic (''BenTestTopic'' @ show_nat j))"
    using j ben_wf(1) by (intro map_of_is_SomeI) (auto simp: wf_map_def ben_topics_def Let_def)
  show "\<exists>tc. topic_conf confs (''BenTestQueue'' @ show_nat i) (''BenTestTopic'' @ show_nat j) = Some tc
      \<and> tc_Storage tc = Some ben_storage \<and> tc_RetryTimes tc = 3 \<and> tc_NumOfWorkers tc = 0 \<and> tc_CgiConfigKey tc = [] \<and> \<not> tc_IsRetry tc"
    using q t
    by (simp add: confs topic_conf_def map_of_map map_of_sorted_map ben_wf read_queue_def ben_queue_def)
       (simp add: read_topic_def ben_topic_def new_TopicConfig_def)
qed

end
