(* ===== verification/ServeStart.thy ===== *)
theory ServeStart
  imports Setting BenConfig
begin

text \<open>
  What \<open>Serve\<close> of a worker starts (\<open>mux.go\<close>, \<open>http_worker.go\<close>): the goroutines that deliver jobs and what
  becomes of the goroutine of \<open>Serve\<close> itself, which runs the retry loop, waits, or returns. Both read the
  configuration of the whole process, not the one their worker was made from.

  The lemmas show when that reading panics, that two updates in a row reach such a state, and that
  the configuration of the benchmark starts no delivery.
\<close>

datatype retry_part = Returns | WaitsUntilDone | RetryLoops

text \<open>\<open>conf[queue]\<close> is a nil pointer when the queue is gone; \<open>.Topic\<close> dereferences it.\<close>

definition Serve_retry :: "QueueConfs \<Rightarrow> QueueName \<Rightarrow> TopicName \<Rightarrow> retry_part go" where
  "Serve_retry conf q t =
     (if conf = [] then Ret Returns
      else
        (case map_of conf q of
           None \<Rightarrow> Panic
         | Some qc \<Rightarrow>
             (case map_of (qc_Topic qc) t of
                None \<Rightarrow> Ret Returns
              | Some tc \<Rightarrow> Ret (if tc_IsRetry tc then RetryLoops else WaitsUntilDone))))"

text \<open>The number of delivering goroutines is converted to a signed integer.\<close>

definition Mux_Serve :: "QueueConfs \<Rightarrow> 'w Mux \<Rightarrow> (nat \<times> retry_part) go" where
  "Mux_Serve conf m =
     go_bind (Serve_retry conf (mux_queue m) (mux_topic m)) (\<lambda>r. Ret (nat (i64 (int (numOfWorkers m))), r))"

definition HttpWorker_Serve :: "QueueConfs \<Rightarrow> 'w HttpWorker \<Rightarrow> retry_part go" where
  "HttpWorker_Serve conf hw = Serve_retry conf (hw_queue hw) (hw_topic hw)"

lemma Serve_retry_panics: "Serve_retry conf q t = Panic \<longleftrightarrow> conf \<noteq> [] \<and> map_of conf q = None"
  by (auto simp: Serve_retry_def split: option.split)

lemma Mux_Serve_panics: "Mux_Serve conf m = Panic \<longleftrightarrow> conf \<noteq> [] \<and> map_of conf (mux_queue m) = None"
  using Serve_retry_panics [of conf "mux_queue m" "mux_topic m"] by (cases "Serve_retry conf (mux_queue m) (mux_topic m)") (auto simp: Mux_Serve_def)

text \<open>
  The goroutine the registry starts for a worker of a kind that delivers jobs; \<open>None\<close> for a command worker, which
  does not read the configuration of the process.
\<close>

definition muxer_Serve :: "QueueConfs \<Rightarrow> 'w RemoteSender \<Rightarrow> Muxer \<Rightarrow> retry_part go option" where
  "muxer_Serve conf sndr mx =
     (case mx_kind mx of
        CgiKind key entry n \<Rightarrow>
          Some (go_bind (Mux_Serve conf (NewMux (mx_queue mx) (mx_topic mx) sndr (mx_storager mx) n)) (\<lambda>(_, r). Ret r))
      | HttpKind hcm n \<Rightarrow>
          Some (HttpWorker_Serve conf (NewHttpWorker (mx_queue mx) (mx_topic mx) (i64 (int n)) (mx_storager mx) sndr))
      | CmdKind tc \<Rightarrow> None)"

definition delivers :: "TopicConfig \<Rightarrow> bool" where
  "delivers tc \<longleftrightarrow> tc_RunType tc = RunTypeCGI \<or> tc_RunType tc = RunTypeHttp"

lemma new_muxer_Serve:
  assumes "new_muxer d qc q t tc = Ret r" "delivers tc" "conf \<noteq> []" "map_of conf q = None"
  shows "\<exists>mx. r = Some mx \<and> (mx_serving mx \<longleftrightarrow> \<not> nd_ConsumerDisable d \<and> (qc_ConsumerEnable qc \<or> tc_ConsumerEnable tc))
     \<and> muxer_Serve conf sndr mx = Some Panic"
proof -
  have cgi: "go_bind (Mux_Serve conf (NewMux q t sndr s n)) (\<lambda>(_, r). Ret r) = Panic" for s n
    using assms(3,4) Mux_Serve_panics [of conf "NewMux q t sndr s n"] by (simp add: NewMux_def)
  have http: "HttpWorker_Serve conf (NewHttpWorker q t n s sndr) = Panic" for s n
    using assms(3,4) by (simp add: HttpWorker_Serve_def NewHttpWorker_def Serve_retry_panics)
  show ?thesis using assms(1,2)
    by (auto simp: new_muxer_def Let_def delivers_def muxer_Serve_def cgi http split: option.splits if_splits)
qed

text \<open>
  An update is compared with the queues the registry serves, not with the commands that are still waiting. A
  queue that one update adds and the next one removes before the registry has executed the first is added for good.
\<close>

lemma overlapping:
  assumes inv: "ms_inv ms" "cmdC ms = []" and confs: "named_confs d confs1" "named_confs d confs2"
    and up: "UpdateConfigs confs1 ms = Some ms1" "UpdateConfigs confs2 ms1 = Some ms2"
    and q: "map_of (queueConfig ms) q = None" "map_of confs1 q = Some qc" "map_of confs2 q = None"
  shows "\<exists>ms3. Serve_turns d (length (cmdC ms2)) ms2 = Ret ms3 \<and> cmdC ms3 = [] \<and> map_of (queueConfig ms3) q = Some qc \<and> made d ms3 q"
proof -
  let ?c = "queueConfig ms"
  let ?cmds = "news_cmds ?c confs1 @ olds_cmds confs1 ?c @ news_cmds ?c confs2 @ olds_cmds confs2 ?c"
  have ms1: "ms1 = ms\<lparr>cmdC := news_cmds ?c confs1 @ olds_cmds confs1 ?c\<rparr>" using UpdateConfigs_cmds [OF up(1)] inv(2) by simp
  have ms2: "queueConfig ms2 = ?c" "cmdC ms2 = ?cmds" using UpdateConfigs_cmds [OF up(2)] by (simp_all add: ms1)
  have names: "distinct (map fst c)" "\<forall>(q, qc) \<in> set c. qc_QueueName qc = q" "\<forall>(q, qc) \<in> set c. wf_conf d qc"
    if "named_confs d c" for c
    using that by (auto simp: named_confs_def wf_map_def list_all_iff)
  have "\<forall>c \<in> set (cmdC ms2). cmd_op c = CmdQueueAdd \<longrightarrow> wf_conf d (cmd_conf c)"
    using names(3) [OF confs(1)] names(3) [OF confs(2)] unfolding ms2 by (auto dest!: news_cmds_mem olds_cmds_mem)
  then obtain ms3 where ms3: "Serve_turns d (length (cmdC ms2)) ms2 = Ret ms3" using Serve_turns_total by blast
  note olds = fold_olds [OF ms_inv_names [OF inv(1)]] and news = fold_news [OF names(1,2)]
  have out: "q \<notin> fst ` set ?c" using q(1) by (simp add: map_of_eq_None_iff)
  have "fold cfg_step ?cmds (map_of ?c) q = Some qc"
    using q out by (simp add: olds news [OF confs(1) confs(1)] news [OF confs(2) confs(2)])
  moreover have "made d ms3 q" using Serve_turns_made [OF ms3] q(1) by (simp add: made_def ms2(1))
  ultimately show ?thesis using ms3 Serve_turns_cfg [OF ms3] by (auto simp: ms2)
qed

text \<open>The workers made for a queue that the configuration of the process does not have.\<close>

lemma made_Serve:
  assumes "made d ms q" "map_of (queueConfig ms) q = Some qc" "wf_map (qc_Topic qc)" "conf \<noteq> []" "map_of conf q = None"
  shows "\<exists>ts. map_of (mux ms) q = Some ts
     \<and> (\<forall>t tc. map_of (qc_Topic qc) t = Some tc \<and> delivers tc \<longrightarrow>
          (\<exists>mx. map_of ts t = Some mx \<and> (mx_serving mx \<longleftrightarrow> \<not> nd_ConsumerDisable d \<and> (qc_ConsumerEnable qc \<or> tc_ConsumerEnable tc))
            \<and> muxer_Serve conf sndr mx = Some Panic))"
proof -
  obtain ts where ts: "map_of (mux ms) q = Some ts" "new_muxers d qc q (qc_Topic qc) [] = Ret ts"
    using assms(1,2) by (auto simp: made_def split: option.splits)
  have m: "map_of ts t = (case map_of (qc_Topic qc) t of None \<Rightarrow> None
      | Some tc \<Rightarrow> (case new_muxer d qc q t tc of Ret (Some m) \<Rightarrow> Some m | _ \<Rightarrow> None))" for t
    using new_muxers_map [OF _ ts(2)] assms(3) by (auto simp: wf_map_def split: option.splits go.splits)
  have ret: "\<exists>r. new_muxer d qc q t tc = Ret r" if "map_of (qc_Topic qc) t = Some tc" for t tc
    using that new_muxers_ret [OF ts(2)] by (auto dest: map_of_SomeD)
  show ?thesis
  proof (intro exI [of _ ts] conjI allI impI)
    fix t tc
    assume t: "map_of (qc_Topic qc) t = Some tc \<and> delivers tc"
    then obtain r where r: "new_muxer d qc q t tc = Ret r" using ret by blast
    then obtain mx where "r = Some mx" "mx_serving mx \<longleftrightarrow> \<not> nd_ConsumerDisable d \<and> (qc_ConsumerEnable qc \<or> tc_ConsumerEnable tc)"
      "muxer_Serve conf sndr mx = Some Panic" using new_muxer_Serve [OF r _ assms(4,5)] t by blast
    then show "\<exists>mx. map_of ts t = Some mx \<and> (mx_serving mx \<longleftrightarrow> \<not> nd_ConsumerDisable d \<and> (qc_ConsumerEnable qc \<or> tc_ConsumerEnable tc))
        \<and> muxer_Serve conf sndr mx = Some Panic" using m [of t] r t by simp
  qed (rule ts(1))
qed

text \<open>The benchmark configuration: every topic waits, no goroutine delivers.\<close>

lemma ben_delivers_nothing:
  assumes "decode_QueueConfs ben_text = Some confs" "i < 100" "j < 3"
    and "q = ''BenTestQueue'' @ show_nat i" "t = ''BenTestTopic'' @ show_nat j" "topic_conf confs q t = Some tc"
  shows "Mux_Serve confs (NewMux q t cgi s (tc_NumOfWorkers tc)) = Ret (0, WaitsUntilDone)"
proof -
  obtain tc' where tc': "topic_conf confs q t = Some tc'" "tc_NumOfWorkers tc' = 0" "\<not> tc_IsRetry tc'"
    using ben_topic_read [OF assms(1)] assms(2-5) by blast
  have ne: "confs \<noteq> []" using tc'(1) by (auto simp: topic_conf_def)
  with tc' assms(6) show ?thesis
    by (auto simp: Mux_Serve_def Serve_retry_def NewMux_def topic_conf_def i64_def split: option.splits)
qed

end
