(* ===== verification/DevClient.thy ===== *)
theory DevClient
  imports Cgi
begin

text \<open>
  The FastCGI test client of the developers (\<open>tester/dev/cgiclient/dev_cgi.go\<close>): one reused connection, opened anew
  after five idle seconds, after 40 requests or after an error, and a test that sends the same job three
  times. The FastCGI client and the clock are the device of the CGI pool.

  The lemmas show how long a connection is reused, that one error ends reuse for good, and that
  the test panics when a request fails.
\<close>

record dev_Job =
  dj_Id :: string
  dj_InTraceId :: string
  dj_Content :: string
  dj_Retry :: int

definition dev_Job_json :: "dev_Job \<Rightarrow> json" where
  "dev_Job_json j = JObj [(''id'', JStr (dj_Id j)), (''inTraceId'', JStr (dj_InTraceId j)), (''content'', JStr (dj_Content j)),
     (''retrying'', JNum (show_int (dj_Retry j)))]"

record CgiResponse =
  cr_Code :: string
  cr_ErrorCode :: string
  cr_Msg :: string

definition ConnReuseLife :: int where "ConnReuseLife = 5 * CgiPool.second"
definition ConnReuseCounts :: int where "ConnReuseCounts = 40"

record CgiClients =
  dc_cgi :: "nat option"
  dc_exeCounter :: int
  dc_lastUsedTime :: int
  dc_cgiError :: "cgi_err option"
  dc_address :: string

definition NewCgiClients :: "string \<Rightarrow> CgiClients" where
  "NewCgiClients addr = \<lparr>dc_cgi = None, dc_exeCounter = 0, dc_lastUsedTime = 0, dc_cgiError = None, dc_address = addr\<rparr>"

text \<open>\<open>newConn\<close> inside \<open>getConn\<close>: a failed dial leaves a nil client.\<close>

definition dev_newConn :: "'w cgi_dev \<Rightarrow> CgiClients \<Rightarrow> 'w \<Rightarrow> (cgi_err + nat) \<times> CgiClients \<times> 'w" where
  "dev_newConn dev c w =
     (case cd_dial dev (dc_address c) True w of
        (Inl e, w1) \<Rightarrow> (Inl e, c\<lparr>dc_cgi := None\<rparr>, w1)
      | (Inr cgi, w1) \<Rightarrow> (Inr cgi, c\<lparr>dc_cgi := Some cgi, dc_lastUsedTime := cd_now dev w1, dc_exeCounter := 1\<rparr>, w1))"

definition dev_getConn :: "'w cgi_dev \<Rightarrow> CgiClients \<Rightarrow> 'w \<Rightarrow> (cgi_err + nat) \<times> CgiClients \<times> 'w" where
  "dev_getConn dev c w =
     (case dc_cgi c of
        None \<Rightarrow> dev_newConn dev c w
      | Some cgi \<Rightarrow>
          if ConnReuseLife \<le> cd_now dev w - dc_lastUsedTime c \<or> ConnReuseCounts < dc_exeCounter c \<or> dc_cgiError c \<noteq> None
          then dev_newConn dev c (cd_close dev cgi w)
          else (Inr cgi, c\<lparr>dc_lastUsedTime := cd_now dev w, dc_exeCounter := dc_exeCounter c + 1\<rparr>, w))"

text \<open>
  \<open>sendToCgi\<close>: the response (nil when there is none), the error, the client, the parameters, to which the call adds
  its mark, and the world. The deferred function stores an error and never clears one.
\<close>

definition dev_exchange :: "'w cgi_dev \<Rightarrow> (string, string) gomap \<Rightarrow> url_Values \<Rightarrow> nat \<Rightarrow> 'w \<Rightarrow> (CgiResponse option \<times> cgi_err option) \<times> 'w" where
  "dev_exchange dev cgi_env params cgi w =
     (case cd_post dev cgi cgi_env params w of
        (Inl e, w1) \<Rightarrow> ((None, Some e), w1)
      | (Inr resp, w1) \<Rightarrow>
          (let cr = \<lparr>cr_Code = (if Header_Get resp ''Code'' = [] then InnerError else Header_Get resp ''Code''),
                     cr_ErrorCode = Header_Get resp ''Error-Code'', cr_Msg = []\<rparr> in
           case ht_Body resp of
             Inl t \<Rightarrow> ((Some (cr\<lparr>cr_Msg := t\<rparr>), Some (CErr t)), w1)
           | Inr body \<Rightarrow> ((Some (cr\<lparr>cr_Msg := body\<rparr>), None), w1)))"

definition sendToCgi :: "'w cgi_dev \<Rightarrow> (string, string) gomap \<Rightarrow> CgiClients \<times> url_Values \<times> 'w \<Rightarrow>
    (CgiResponse option \<times> cgi_err option) \<times> CgiClients \<times> url_Values \<times> 'w" where
  "sendToCgi dev cgi_env s =
     (case s of (c, params0, w) \<Rightarrow>
        let params = Values_Add params0 ''IS_PEPPER_BUS_REQUEST'' ''true'' in
        case dev_getConn dev c w of
          (Inl e, c1, w1) \<Rightarrow> ((None, Some e), c1\<lparr>dc_cgiError := Some e\<rparr>, params, w1)
        | (Inr cgi, c1, w1) \<Rightarrow>
            (case dev_exchange dev cgi_env params cgi w1 of
               ((cr, err), w2) \<Rightarrow>
                 ((cr, err), (case err of None \<Rightarrow> c1 | Some e \<Rightarrow> c1\<lparr>dc_cgiError := Some e\<rparr>), params, w2)))"

text \<open>The closure \<open>test\<close> of \<open>main\<close>: what it prints; \<open>res.Msg\<close> dereferences the response.\<close>

fun dev_sends :: "'w cgi_dev \<Rightarrow> (string, string) gomap \<Rightarrow> nat \<Rightarrow> CgiClients \<times> url_Values \<times> 'w \<Rightarrow> (string list \<times> 'w) go" where
  "dev_sends dev cgi_env 0 s = Ret ([], snd (snd s))"
| "dev_sends dev cgi_env (Suc n) s =
     (case sendToCgi dev cgi_env s of
        ((None, err), s1) \<Rightarrow> Panic
      | ((Some res, err), s1) \<Rightarrow> go_bind (dev_sends dev cgi_env n s1) (\<lambda>(out, w). Ret (cr_Msg res # out, w)))"

definition dev_test :: "'w cgi_dev \<Rightarrow> string \<Rightarrow> string \<Rightarrow> string \<Rightarrow> string \<Rightarrow> 'w \<Rightarrow> (string list \<times> 'w) go" where
  "dev_test dev addr scriptFile q t w =
     (let cgi_env = [(''SCRIPT_FILENAME'', scriptFile), (''SERVER_SOFTWARE'', ''go/fastcgi''), (''REMOTE_ADDR'', addr), (''key'', show_nat 0)];
          jbs = json_marshal (JArr [dev_Job_json \<lparr>dj_Id = ''123'', dj_InTraceId = ''111111'', dj_Content = ''hello world'', dj_Retry = 0\<rparr>]);
          vs = [(''type'', [RequestTypeData]), (''outTraceId'', [''222222'']), (''queue'', [q]), (''topic'', [t]), (''jobs'', [jbs])]
      in dev_sends dev cgi_env 3 (NewCgiClients addr, vs, w))"

subsection \<open>Reuse\<close>

text \<open>No connection is used for more than 41 requests.\<close>

lemma sendToCgi_counts:
  assumes "sendToCgi dev cgi_env (c, params, w) = (r, c', params', w')" "dc_exeCounter c \<le> ConnReuseCounts + 1"
  shows "dc_exeCounter c' \<le> ConnReuseCounts + 1"
proof -
  obtain x c1 w1 where g: "dev_getConn dev c w = (x, c1, w1)" by (cases "dev_getConn dev c w")
  have "dc_exeCounter c1 \<le> ConnReuseCounts + 1"
    using g assms(2) by (cases x)
      (auto simp: dev_getConn_def dev_newConn_def ConnReuseCounts_def split: option.splits sum.splits prod.splits if_splits)
  then show ?thesis using assms(1) g by (auto simp: sendToCgi_def Let_def split: sum.splits prod.splits option.splits)
qed

text \<open>After one error no connection is reused: every call closes the connection it has and dials.\<close>

lemma error_is_sticky:
  assumes "dc_cgiError c \<noteq> None" "sendToCgi dev cgi_env (c, params, w) = (r, c', params', w')"
  shows "dc_cgiError c' \<noteq> None \<and> dev_getConn dev c w = dev_newConn dev c (case dc_cgi c of None \<Rightarrow> w | Some k \<Rightarrow> cd_close dev k w)"
proof
  show "dev_getConn dev c w = dev_newConn dev c (case dc_cgi c of None \<Rightarrow> w | Some k \<Rightarrow> cd_close dev k w)"
    using assms(1) by (auto simp: dev_getConn_def split: option.split)
  obtain x c1 w1 where g: "dev_getConn dev c w = (x, c1, w1)" by (cases "dev_getConn dev c w")
  then have "dc_cgiError c1 = dc_cgiError c"
    by (auto simp: dev_getConn_def dev_newConn_def split: option.splits sum.splits prod.splits if_splits)
  then show "dc_cgiError c' \<noteq> None"
    using assms g by (auto simp: sendToCgi_def Let_def split: sum.splits prod.splits option.splits)
qed

lemma dev_test_panics:
  assumes "fst (cd_dial dev addr True w) = Inl e"
  shows "dev_test dev addr scriptFile q t w = Panic"
proof -
  obtain w1 where "cd_dial dev addr True w = (Inl e, w1)" using assms by (cases "cd_dial dev addr True w") auto
  then show ?thesis
    by (simp add: dev_test_def numeral_3_eq_3 sendToCgi_def dev_getConn_def dev_newConn_def NewCgiClients_def)
qed

end
