(* ===== verification/Machine.thy ===== *)
theory Machine
  imports AdminJson
begin

text \<open>
  The statistics of the machine (\<open>machine_stats.go\<close>), the gauges that show them and the registries behind the
  metrics (\<open>prometheus.go\<close>), and the holder of the configuration structs (\<open>logic/data\<close>). Floating point
  numbers are only copied: their type is a parameter, as are the measurements of \<open>gopsutil\<close>.

  The lemmas show when collecting panics, and what a scrape of the metrics can see.
\<close>

subsection \<open>Collecting\<close>

record 'f MachineStats =
  mc_CPU :: 'f
  mc_Load :: 'f
  mc_Memory :: 'f

text \<open>What \<open>gopsutil\<close> returns: percentages (empty on an error), load and memory (nil on an error).\<close>

record 'f measured =
  cpu_Percent :: "'f list"
  load_Avg :: "'f option"
  mem_VirtualMemory :: "'f option"

text \<open>One turn of \<open>Run\<close>; the errors are ignored and the results dereferenced.\<close>

definition MachineStats_Run :: "'f measured \<Rightarrow> 'f MachineStats \<Rightarrow> 'f MachineStats go" where
  "MachineStats_Run m s =
     (case cpu_Percent m of
        [] \<Rightarrow> Panic
      | c # _ \<Rightarrow>
          (case load_Avg m of
             None \<Rightarrow> Panic
           | Some l \<Rightarrow>
               (case mem_VirtualMemory m of
                  None \<Rightarrow> Panic
                | Some u \<Rightarrow> Ret (s\<lparr>mc_CPU := c, mc_Load := l, mc_Memory := u\<rparr>))))"

subsection \<open>Metrics\<close>

datatype metric =
    topicLen | topicRetryLen | topicTimeoutLen | cpuUsage | memUsage | loadAverage
  | queueAdds | jobSuccesses | jobFails | jobDurations

text \<open>The registries after \<open>init\<close>: the global one and the default one.\<close>

definition globalRegistry :: "metric list" where
  "globalRegistry = [topicLen, topicRetryLen]"

definition DefaultRegistry :: "metric list" where
  "DefaultRegistry = [cpuUsage, memUsage, loadAverage, queueAdds, jobSuccesses, jobFails, jobDurations]"

record 'f machine_gauges =
  g_cpuUsage :: 'f
  g_memUsage :: 'f
  g_loadAverage :: 'f

definition updateCurrentStats :: "'f MachineStats \<Rightarrow> 'f machine_gauges \<Rightarrow> 'f machine_gauges" where
  "updateCurrentStats s g = g\<lparr>g_cpuUsage := mc_CPU s, g_memUsage := mc_Memory s, g_loadAverage := mc_Load s\<rparr>"

text \<open>\<open>/metrics\<close>: the gauges are brought up to date, then the default registry is rendered.\<close>

definition PrometheusHandler :: "'f MachineStats \<Rightarrow> 'f machine_gauges \<Rightarrow> 'f machine_gauges \<times> metric list" where
  "PrometheusHandler s g = (updateCurrentStats s g, DefaultRegistry)"

text \<open>\<open>/global/metrics\<close>: the lengths of the topics are read, then the global registry is rendered.\<close>

definition GlobalPrometheusHandler ::
  "('w, 'g) env \<Rightarrow> QueueConfs \<Rightarrow> MuxServer \<Rightarrow> gauges \<Rightarrow> 'w \<Rightarrow> ((gauges \<times> metric list) \<times> 'w) go" where
  "GlobalPrometheusHandler env confs ms gs w =
     go_bind (updateTopicLength env confs ms gs w) (\<lambda>(gs', w'). Ret ((gs', globalRegistry), w'))"

text \<open>
  \<open>GetMachineStatsAction\<close>; \<open>float_json\<close> is the text of a float, \<open>None\<close> for a value JSON cannot express. Then the response of
  \<open>renderJSON\<close> carries the error.
\<close>

definition GetMachineStatsAction :: "('f \<Rightarrow> json option) \<Rightarrow> string \<Rightarrow> 'f MachineStats \<Rightarrow> json" where
  "GetMachineStatsAction float_json err_text s =
     (case (float_json (mc_CPU s), float_json (mc_Load s), float_json (mc_Memory s)) of
        (Some c, Some l, Some m) \<Rightarrow>
          JObj [(''error_code'', JInt 0), (''error'', JStr []), (''data'', JObj [(''CPU'', c), (''Load'', l), (''Memory'', m)])]
      | _ \<Rightarrow> JObj [(''error_code'', JInt (-1)), (''error'', JStr err_text), (''data'', JNull)])"

text \<open>\<open>GetPidAction\<close>: \<open>duration\<close> is the result of \<open>time.ParseDuration\<close>, \<open>now\<close> the text of the time after sleeping.\<close>

definition GetPidAction :: "string + int \<Rightarrow> int \<Rightarrow> string \<Rightarrow> json \<times> int" where
  "GetPidAction duration pid now =
     (case duration of
        Inl e \<Rightarrow> (Resp_json (fails_with 400 e), 0)
      | Inr d \<Rightarrow>
          (JObj [(''error_code'', JInt 0), (''error'', JStr []), (''data'', JObj [(''Pid'', JInt pid), (''Now'', JStr now)])], d))"

subsection \<open>The configuration structs\<close>

text \<open>The two pointers that are replaced atomically, and the update by name the configuration service calls.\<close>

record data_pointers =
  GlobalPtr :: data_Global
  QueuePtr :: data_Queue

definition CurrentGlobal :: "data_pointers \<Rightarrow> data_Global" where "CurrentGlobal d = GlobalPtr d"
definition CurrentQueue :: "data_pointers \<Rightarrow> data_Queue" where "CurrentQueue d = QueuePtr d"
definition UpdateGlobal :: "data_Global \<Rightarrow> data_pointers \<Rightarrow> data_pointers" where "UpdateGlobal v d = d\<lparr>GlobalPtr := v\<rparr>"
definition UpdateQueue :: "data_Queue \<Rightarrow> data_pointers \<Rightarrow> data_pointers" where "UpdateQueue v d = d\<lparr>QueuePtr := v\<rparr>"

datatype data_struct = GlobalStruct data_Global | QueueStruct data_Queue

text \<open>\<open>container.Update\<close>: an unknown name panics, and so does the type assertion on the wrong struct.\<close>

definition container_Update :: "string \<Rightarrow> data_struct \<Rightarrow> data_pointers \<Rightarrow> data_pointers go" where
  "container_Update name st d =
     (if name = ''Queue'' then (case st of QueueStruct v \<Rightarrow> Ret (UpdateQueue v d) | _ \<Rightarrow> Panic)
      else if name = ''Global'' then (case st of GlobalStruct v \<Rightarrow> Ret (UpdateGlobal v d) | _ \<Rightarrow> Panic)
      else Panic)"

definition GetStructs :: "string list" where
  "GetStructs = [''Queue'', ''Global'']"

subsection \<open>Lemmas\<close>

lemma Run_panics_iff:
  "MachineStats_Run m s = Panic \<longleftrightarrow> cpu_Percent m = [] \<or> load_Avg m = None \<or> mem_VirtualMemory m = None"
  by (auto simp: MachineStats_Run_def split: list.split option.split)

lemma scrape_shows_last_turn:
  "MachineStats_Run m s = Ret s' \<Longrightarrow>
   (\<exists>c l u cs. cpu_Percent m = c # cs \<and> load_Avg m = Some l \<and> mem_VirtualMemory m = Some u
     \<and> fst (PrometheusHandler s' g) = \<lparr>g_cpuUsage = c, g_memUsage = u, g_loadAverage = l\<rparr>)"
  by (auto simp: MachineStats_Run_def PrometheusHandler_def updateCurrentStats_def split: list.splits option.splits)

text \<open>The gauge of the timeout lists is set and never exposed; no metric is registered twice, so \<open>MustRegister\<close> does not panic.\<close>

lemma timeout_gauge_hidden: "topicTimeoutLen \<notin> set globalRegistry \<union> set DefaultRegistry" "distinct (globalRegistry @ DefaultRegistry)"
  by (simp_all add: globalRegistry_def DefaultRegistry_def)

text \<open>Updates by name: each replaces its own struct, in either order, and every name of \<open>GetStructs\<close> is accepted.\<close>

lemma container_updates:
  "go_bind (container_Update ''Queue'' (QueueStruct q) d) (container_Update ''Global'' (GlobalStruct g)) = Ret \<lparr>GlobalPtr = g, QueuePtr = q\<rparr>"
  "go_bind (container_Update ''Global'' (GlobalStruct g) d) (container_Update ''Queue'' (QueueStruct q)) = Ret \<lparr>GlobalPtr = g, QueuePtr = q\<rparr>"
  by (cases d; simp add: container_Update_def UpdateQueue_def UpdateGlobal_def)+

lemma container_names: "name \<in> set GetStructs \<longleftrightarrow> (\<exists>st d'. container_Update name st d = Ret d')"
proof
  assume "name \<in> set GetStructs"
  then consider "name = ''Queue''" | "name = ''Global''" by (auto simp: GetStructs_def)
  then show "\<exists>st d'. container_Update name st d = Ret d'"
  proof cases
    case 1
    then show ?thesis by (intro exI [of _ "QueueStruct (QueuePtr d)"]) (simp add: container_Update_def)
  next
    case 2
    then show ?thesis by (intro exI [of _ "GlobalStruct (GlobalPtr d)"]) (simp add: container_Update_def)
  qed
qed (auto simp: container_Update_def GetStructs_def split: if_splits)

end
