(* ===== verification/SdkServe.thy ===== *)
theory SdkServe
  imports Sdk
begin

text \<open>
  \<open>Serve\<close> of the Go SDK (\<open>sdk/golang/server.go\<close>): the patterns of the worker routers and of other handlers are
  registered with the request multiplexer of \<open>net/http\<close>, which then chooses the handler of a request by its path. Of the
  multiplexer the model has what the code uses: patterns that are paths, the panic on an empty pattern and on
  a pattern that is registered twice, the exact match, the longest pattern that ends in a slash, and the
  redirection to such a pattern. Paths are those of clean URLs, with which the multiplexer does nothing else.

  The lemmas show which handlers \<open>Serve\<close> accepts and that a request of a worker reaches the router of its path.
\<close>

subsection \<open>The multiplexer\<close>

type_synonym 'h ServeMux = "(string, 'h) gomap"

definition HandleFunc :: "string \<Rightarrow> 'h \<Rightarrow> 'h ServeMux \<Rightarrow> 'h ServeMux go" where
  "HandleFunc pattern h m =
     (if pattern = [] \<or> map_of m pattern \<noteq> None then Panic else Ret (AList.update pattern h m))"

fun longer :: "(string \<times> 'h) option \<Rightarrow> (string \<times> 'h) option \<Rightarrow> (string \<times> 'h) option" where
  "longer None y = y"
| "longer x None = x"
| "longer (Some x) (Some y) = (if length (fst x) < length (fst y) then Some y else Some x)"

definition tree_match :: "string \<Rightarrow> 'h ServeMux \<Rightarrow> (string \<times> 'h) option" where
  "tree_match path m = fold longer (map Some (filter (\<lambda>(p, h). last p = CHR ''/'' \<and> has_prefix p path) m)) None"

datatype 'h choice = Chosen 'h | Redirect string | NoHandler

definition mux_Handler :: "'h ServeMux \<Rightarrow> string \<Rightarrow> 'h choice" where
  "mux_Handler m path =
     (case map_of m path of
        Some h \<Rightarrow> Chosen h
      | None \<Rightarrow>
          if path \<noteq> [] \<and> last path \<noteq> CHR ''/'' \<and> map_of m (path @ ''/'') \<noteq> None then Redirect (path @ ''/'')
          else (case tree_match path m of None \<Rightarrow> NoHandler | Some (p, h) \<Rightarrow> Chosen h))"

subsection \<open>Serve\<close>

type_synonym 'w http_handler = "http_request \<Rightarrow> 'w \<Rightarrow> http_response option \<times> 'w"
type_synonym 'w HandlerFunc = "http_request \<Rightarrow> 'w \<Rightarrow> string \<times> 'w"

definition RegisterHttpHandler :: "string \<Rightarrow> 'w HandlerFunc \<Rightarrow> (string, 'w HandlerFunc) gomap \<Rightarrow> (string, 'w HandlerFunc) gomap" where
  "RegisterHttpHandler pattern handlerFunc hs = AList.update pattern handlerFunc hs"

definition NotFound :: "'w HandlerFunc" where
  "NotFound req w = (NotFound_body, w)"

fun register_all :: "('a \<Rightarrow> 'h) \<Rightarrow> (string \<times> 'a) list \<Rightarrow> 'h ServeMux \<Rightarrow> 'h ServeMux go" where
  "register_all f [] m = Ret m"
| "register_all f ((pattern, x) # rs) m = go_bind (HandleFunc pattern (f x) m) (register_all f rs)"

text \<open>A handler of the second kind always answers.\<close>

definition answered :: "'w HandlerFunc \<Rightarrow> 'w http_handler" where
  "answered handler req w = (case other_serve handler req w of (resp, w') \<Rightarrow> (Some resp, w'))"

text \<open>The multiplexer the server is started with.\<close>

definition sdk_Serve :: "'w Router \<Rightarrow> (string, 'w HandlerFunc) gomap \<Rightarrow> 'w http_handler ServeMux go" where
  "sdk_Serve rs hs =
     go_bind (register_all worker_serve rs []) (\<lambda>m.
     let hs1 = (if map_of hs ''/'' = None then RegisterHttpHandler ''/'' NotFound hs else hs) in
     register_all answered hs1 m)"

text \<open>
  A request as the server answers it; \<open>url_path\<close> is the path of a URL. A panic of a handler closes the connection, after
  what the handler did. A client that follows redirections sends a second request.
\<close>

definition mux_do :: "(string \<Rightarrow> string) \<Rightarrow> 'w http_handler ServeMux \<Rightarrow> 'w client_do" where
  "mux_do url_path m req w =
     (case mux_Handler m (url_path (hr_path req)) of
        NoHandler \<Rightarrow> (Inr \<lparr>ht_Header = [], ht_Body = Inr (''404 page not found'' @ [CHR 0x0A])\<rparr>, w)
      | Redirect p \<Rightarrow> (Inr \<lparr>ht_Header = [(''Location'', p)], ht_Body = Inr []\<rparr>, w)
      | Chosen h \<Rightarrow> (case h req w of (None, w') \<Rightarrow> (Inl ''EOF'', w') | (Some resp, w') \<Rightarrow> (Inr resp, w')))"

subsection \<open>Which patterns are accepted\<close>

lemma register_all_iff:
  "(\<exists>m'. register_all f rs m = Ret m') \<longleftrightarrow> [] \<notin> set (map fst rs) \<and> distinct (map fst rs) \<and> (\<forall>p \<in> set (map fst rs). map_of m p = None)"
proof (induction rs arbitrary: m)
  case (Cons r rs)
  obtain p x where r: "r = (p, x)" by (cases r)
  show ?case
  proof (cases "p = [] \<or> map_of m p \<noteq> None")
    case False
    then have "register_all f (r # rs) m = register_all f rs (AList.update p (f x) m)" by (simp add: r HandleFunc_def)
    with False Cons.IH [of "AList.update p (f x) m"] show ?thesis by (auto simp: r update_conv' split: if_splits)
  qed (auto simp: r HandleFunc_def)
qed simp

lemma register_all_map:
  "register_all f rs m = Ret m' \<Longrightarrow> map_of m' p = (case map_of rs p of None \<Rightarrow> map_of m p | Some x \<Rightarrow> Some (f x))"
proof (induction rs arbitrary: m)
  case (Cons r rs)
  obtain k x where r: "r = (k, x)" by (cases r)
  have ok: "\<exists>m'. register_all f (r # rs) m = Ret m'" using Cons.prems by blast
  then have k: "k \<notin> set (map fst rs)" unfolding register_all_iff by (simp add: r)
  have "register_all f rs (AList.update k (f x) m) = Ret m'"
    using Cons.prems by (auto simp: r HandleFunc_def split: if_splits)
  then have "map_of m' p = (case map_of rs p of None \<Rightarrow> map_of (AList.update k (f x) m) p | Some x \<Rightarrow> Some (f x))" by (rule Cons.IH)
  moreover have "map_of rs k = None" using k by (simp add: map_of_eq_None_iff)
  ultimately show ?case by (cases "p = k") (simp_all add: r update_conv' split: option.split)
qed simp

text \<open>
  \<open>Serve\<close> starts if and only if no pattern is empty and no router shares its pattern with another handler or with
  the default one: a router for the path \<open>/\<close> needs no other handler to be refused.
\<close>

lemma sdk_Serve_iff:
  assumes "wf_map rs" "wf_map hs"
  shows "(\<exists>m. sdk_Serve rs hs = Ret m) \<longleftrightarrow>
     [] \<notin> set (keys rs) \<and> [] \<notin> set (keys hs) \<and> ''/'' \<notin> set (keys rs) \<and> set (keys rs) \<inter> set (keys hs) = {}"
proof -
  define hs1 where "hs1 = (if map_of hs ''/'' = None then RegisterHttpHandler ''/'' NotFound hs else hs)"
  have k1: "set (keys hs1) = insert ''/'' (set (keys hs))" "distinct (keys hs1)"
    using assms(2) map_of_eq_None_iff [of hs "''/''"]
    by (auto simp: hs1_def RegisterHttpHandler_def wf_map_def dom_update distinct_update split: if_splits)
  have reg: "(\<exists>m. register_all worker_serve rs [] = Ret m) \<longleftrightarrow> [] \<notin> set (keys rs)"
    unfolding register_all_iff using assms(1) by (simp add: wf_map_def)
  show ?thesis
  proof (cases "register_all worker_serve rs []")
    case Panic
    then show ?thesis using reg by (simp add: sdk_Serve_def)
  next
    case (Ret m)
    have dom: "map_of m p = None \<longleftrightarrow> p \<notin> set (keys rs)" for p
      using register_all_map [OF Ret, of p] map_of_eq_None_iff [of rs p] by (cases "map_of rs p") auto
    have "(\<exists>m'. register_all answered hs1 m = Ret m') \<longleftrightarrow>
        [] \<notin> insert ''/'' (set (keys hs)) \<and> (\<forall>p \<in> insert ''/'' (set (keys hs)). p \<notin> set (keys rs))"
      unfolding register_all_iff dom k1(1) using k1(2) by simp
    moreover have "[] \<notin> set (keys rs)" using reg Ret by blast
    moreover have "sdk_Serve rs hs = register_all answered hs1 m"
      using Ret by (simp add: sdk_Serve_def hs1_def)
    ultimately show ?thesis by (simp del: set_map) blast
  qed
qed

subsection \<open>Which handler is chosen\<close>

lemma sdk_Serve_routes:
  assumes "sdk_Serve rs hs = Ret m" "map_of rs p = Some router"
  shows "mux_Handler m p = Chosen (worker_serve router)"
proof -
  obtain m0 hs1 where m0: "register_all worker_serve rs [] = Ret m0"
    and hs1: "register_all answered hs1 m0 = Ret m"
    using assms(1) by (cases "register_all worker_serve rs []") (auto simp: sdk_Serve_def Let_def)
  have p0: "map_of m0 p = Some (worker_serve router)" using register_all_map [OF m0, of p] assms(2) by simp
  have "\<forall>p \<in> set (map fst hs1). map_of m0 p = None"
    using register_all_iff [of answered hs1 m0] hs1 by blast
  then have "p \<notin> set (map fst hs1)" using p0 by force
  then have "map_of hs1 p = None" by (simp add: map_of_eq_None_iff)
  then have "map_of m p = Some (worker_serve router)" using register_all_map [OF hs1, of p] p0 by simp
  then show ?thesis by (simp add: mux_Handler_def)
qed

text \<open>The whole server answers a worker as the router of its path does.\<close>

lemma mux_do_routes:
  assumes "sdk_Serve rs hs = Ret m" "map_of rs (url_path (hr_path req)) = Some router"
  shows "mux_do url_path m req w = serve_do router req w"
  using sdk_Serve_routes [OF assms] by (simp add: mux_do_def serve_do_def)

lemma hcm_request_routes:
  assumes "sdk_Serve rs hs = Ret m" "map_of rs (url_path path) = Some router"
  shows "hcm_request path_ok (mux_do url_path m) hcm path v w = hcm_request path_ok (serve_do router) hcm path v w"
  unfolding hcm_request_def using assms by (simp add: mux_do_routes cong: if_cong option.case_cong)

lemma hcm_routes:
  assumes "sdk_Serve rs hs = Ret m" "map_of rs (url_path (hcm_path hcm)) = Some router"
  shows "hcm_SendJobs path_ok (mux_do url_path m) hcm jobs w = hcm_SendJobs path_ok (serve_do router) hcm jobs w"
    and "hcm_sender path_ok (mux_do url_path m) hcm = hcm_sender path_ok (serve_do router) hcm"
  using hcm_request_routes [where hcm = hcm and url_path = url_path and path = "hcm_path hcm", OF assms]
  by (simp_all add: hcm_SendJobs_def hcm_sender_def hcm_SendPing_def fun_eq_iff)

end
