(* ===== verification/HttpServe.thy ===== *)
theory HttpServe
  imports HttpWorker
begin

text \<open>
  The goroutines of an HTTP worker (\<open>HttpWorker.Serve\<close> of \<open>http_worker.go\<close>) and the loop that starts them. The loop
  compares its index with \<open>numOfChildren\<close>, the variable that the goroutines raise while a job is on its way.

  The state holds the worker with that variable, the index of the loop, what every started goroutine is about
  to do, and the bus. One event is a round of the start loop or a step of a goroutine: one ping, taking a job, or
  delivering it; \<open>http_run\<close> executes any interleaving. Sleeping is left out.

  The lemma shows that the configured number does not bound the goroutines: as many can be started, and be busy at
  the same time, as there are jobs waiting.
\<close>

datatype child = Pinging | Looping | Sending Jobs int | Gone

record ('w, 'g) http_serve =
  hs_worker :: "'w HttpWorker"
  hs_i :: int
  hs_spawning :: bool
  hs_children :: "child list"
  hs_bus :: "('w, 'g) bus"

datatype http_event = SpawnLoop | Child nat

definition http_start :: "'w HttpWorker \<Rightarrow> ('w, 'g) bus \<Rightarrow> ('w, 'g) http_serve" where
  "http_start hw b = \<lparr>hs_worker = hw, hs_i = 0, hs_spawning = True, hs_children = [], hs_bus = b\<rparr>"

text \<open>\<open>for i := 0; i < int(hw.numOfChildren); i++\<close>, with a 64-bit \<open>int\<close>.\<close>

definition spawn_step :: "('w, 'g) http_serve \<Rightarrow> ('w, 'g) http_serve" where
  "spawn_step s =
     (if \<not> hs_spawning s then s
      else if hs_i s < numOfChildren (hs_worker s)
      then s\<lparr>hs_i := i64 (hs_i s + 1), hs_children := hs_children s @ [Pinging]\<rparr>
      else s\<lparr>hs_spawning := False\<rparr>)"

definition child_step ::
  "('w, 'g) env \<Rightarrow> QueueConfs \<Rightarrow> bool \<Rightarrow> 'w HttpWorker \<Rightarrow> child \<Rightarrow> ('w, 'g) bus \<Rightarrow>
   (child \<times> 'w HttpWorker \<times> ('w, 'g) bus) go" where
  "child_step env conf isDone hw c b =
     (case c of
        Pinging \<Rightarrow>
          if isDone then Ret (Looping, hw, b)
          else (case HttpWorker_SendPing hw (wld b) of
                  (None, w) \<Rightarrow> Ret (Looping, hw, b\<lparr>wld := w\<rparr>)
                | (Some e, w) \<Rightarrow> Ret (Pinging, hw, b\<lparr>wld := w\<rparr>))
      | Looping \<Rightarrow>
          if isDone then Ret (Gone, hw, b)
          else go_bind (HttpWorker_take env conf hw b) (\<lambda>(got, hw1, b1).
               case got of
                 None \<Rightarrow> Ret (Looping, hw1, b1)
               | Some (jobs, start) \<Rightarrow> Ret (Sending jobs start, hw1, b1))
      | Sending jobs start \<Rightarrow>
          go_bind (HttpWorker_deliver env hw jobs start b) (\<lambda>(t, hw1, b1).
          Ret (case t of Begin \<Rightarrow> Pinging | Again \<Rightarrow> Looping | Return \<Rightarrow> Gone, hw1, b1))
      | Gone \<Rightarrow> Ret (Gone, hw, b))"

fun http_event_step ::
  "('w, 'g) env \<Rightarrow> QueueConfs \<Rightarrow> bool \<Rightarrow> http_event \<Rightarrow> ('w, 'g) http_serve \<Rightarrow> ('w, 'g) http_serve go" where
  "http_event_step env conf isDone SpawnLoop s = Ret (spawn_step s)"
| "http_event_step env conf isDone (Child k) s =
     (if k < length (hs_children s)
      then go_bind (child_step env conf isDone (hs_worker s) (hs_children s ! k) (hs_bus s)) (\<lambda>(c, hw, b).
           Ret (s\<lparr>hs_worker := hw, hs_children := (hs_children s)[k := c], hs_bus := b\<rparr>))
      else Ret s)"

fun http_run ::
  "('w, 'g) env \<Rightarrow> QueueConfs \<Rightarrow> bool \<Rightarrow> http_event list \<Rightarrow> ('w, 'g) http_serve \<Rightarrow> ('w, 'g) http_serve go" where
  "http_run env conf isDone [] s = Ret s"
| "http_run env conf isDone (e # es) s = go_bind (http_event_step env conf isDone e s) (http_run env conf isDone es)"

lemma http_run_append:
  "http_run env conf d (es @ fs) s = go_bind (http_run env conf d es s) (http_run env conf d fs)"
proof (induction es arbitrary: s)
  case (Cons e es)
  then show ?case by (cases "http_event_step env conf d e s") simp_all
qed simp

subsection \<open>As many busy goroutines as jobs\<close>

fun sending :: "child \<Rightarrow> bool" where
  "sending (Sending jobs start) = True"
| "sending c = False"

context served_topic
begin

lemma take_sends:
  assumes "m = as_mux hw" "up (wld b)" "topic_conf conf (hw_queue hw) (hw_topic hw) = Some tc"
    and "running (view (wld b)) = j # js"
  shows "\<exists>jobs start b'. HttpWorker_take env conf (hw\<lparr>numOfChildren := n\<rparr>) b
       = Ret (Some (jobs, start), hw\<lparr>numOfChildren := i64 (n + 1)\<rparr>, b')
     \<and> up (wld b') \<and> running (view (wld b')) = js"
proof -
  have q: "queued (lst (wld b)) (mux_storager m) (mux_queue m) (mux_topic m) CommonQueue = j # js"
    using assms(4) by (simp add: view_def)
  obtain tid b' where b': "Mux_GetJobsFromQueue env m (mux_queue m) (mux_topic m) CommonQueue b
       = Ret ((Some (batch (mux_queue m) (mux_topic m) tid j), None), b')" "up (wld b')"
    "view (wld b') = (view (wld b))\<lparr>running := js\<rparr>"
    using take_view [OF assms(2) q] by auto
  then have "HttpWorker_GetJobsFromQueue env hw (hw_queue hw) (hw_topic hw) CommonQueue b
       = Ret ((Some (batch (hw_queue hw) (hw_topic hw) tid j), None), b')"
    by (simp add: HttpWorker_ops assms(1))
  then show ?thesis using b'(2,3) assms(3) by (simp add: HttpWorker_take_def Let_def)
qed

lemma spawned_all_busy:
  assumes m: "m = as_mux hw" and b: "up (wld b)" and tc: "topic_conf conf (hw_queue hw) (hw_topic hw) = Some tc"
    and ping: "\<And>w. up w \<Longrightarrow> \<exists>w'. HttpWorker_SendPing hw w = (None, w') \<and> up w' \<and> lst w' = lst w"
    and n: "1 \<le> numOfChildren hw" "numOfChildren hw + int k < 2 ^ 63"
    and jobs: "k \<le> length (running (view (wld b)))"
  shows "\<exists>es s. http_run env conf False es (http_start hw b) = Ret s \<and> hs_spawning s \<and> hs_i s = int k
     \<and> length (hs_children s) = k \<and> list_all sending (hs_children s)
     \<and> hs_worker s = hw\<lparr>numOfChildren := numOfChildren hw + int k\<rparr>
     \<and> up (wld (hs_bus s)) \<and> running (view (wld (hs_bus s))) = drop k (running (view (wld b)))"
  using n(2) jobs
proof (induction k)
  case 0
  show ?case by (rule exI [of _ "[]"]) (simp add: http_start_def b)
next
  case (Suc k)
  obtain es s where s: "http_run env conf False es (http_start hw b) = Ret s" "hs_spawning s" "hs_i s = int k"
    "length (hs_children s) = k" "list_all sending (hs_children s)"
    "hs_worker s = hw\<lparr>numOfChildren := numOfChildren hw + int k\<rparr>"
    "up (wld (hs_bus s))" "running (view (wld (hs_bus s))) = drop k (running (view (wld b)))"
    using Suc by auto
  obtain w' where w': "HttpWorker_SendPing hw (wld (hs_bus s)) = (None, w')" "up w'" "lst w' = lst (wld (hs_bus s))"
    using ping [OF s(7)] by blast
  define b1 where "b1 = (hs_bus s)\<lparr>wld := w'\<rparr>"
  obtain j js where j: "drop k (running (view (wld b))) = j # js"
    using Suc.prems(2) by (metis Suc_le_eq drop_eq_Nil2 list.exhaust not_le)
  have "running (view (wld b1)) = j # js" using s(8) j w'(3) by (simp add: b1_def view_def)
  then obtain jobs start b2 where b2: "HttpWorker_take env conf (hw\<lparr>numOfChildren := numOfChildren hw + int k\<rparr>) b1
      = Ret (Some (jobs, start), hw\<lparr>numOfChildren := i64 (numOfChildren hw + int k + 1)\<rparr>, b2)"
    "up (wld b2)" "running (view (wld b2)) = js"
    using take_sends [OF m _ tc, of b1 j js "numOfChildren hw + int k"] w'(2) by (auto simp: b1_def)
  have i: "i64 (int k + 1) = int (Suc k)" "i64 (numOfChildren hw + int k + 1) = numOfChildren hw + int (Suc k)"
    using Suc.prems(1) n(1) by (simp_all add: i64_id in_i64_def)
  define s' where "s' = s\<lparr>hs_i := int (Suc k), hs_worker := hw\<lparr>numOfChildren := numOfChildren hw + int (Suc k)\<rparr>,
      hs_children := hs_children s @ [Sending jobs start], hs_bus := b2\<rparr>"
  have "http_run env conf False [SpawnLoop, Child k, Child k] s = Ret s'"
    using s(2-4,6) w'(1) b2(1) i n(1)
    by (simp add: spawn_step_def child_step_def b1_def [symmetric] s'_def list_update_append nth_append)
  then have "http_run env conf False (es @ [SpawnLoop, Child k, Child k]) (http_start hw b) = Ret s'"
    using s(1) by (simp add: http_run_append)
  moreover have "js = drop (Suc k) (running (view (wld b)))" using j by (metis drop_Suc list.sel(3) tl_drop)
  ultimately show ?case using s(2,4,5) b2(2,3) by (intro exI [of _ "es @ [SpawnLoop, Child k, Child k]"] exI [of _ s']) (simp add: s'_def)
qed

end

end
