(* ===== verification/Spec2Isabelle.thy ===== *)
theory Spec2Isabelle
  imports PooledRedis DemoCgi DemoConfig RedisDecoder Process ServeStart DevClient Machine SdkServe HttpServe
begin

text \<open>
  \<^bold>\<open>pepperbus\<close> is a message bus in Go. Producers submit jobs over the Redis protocol to the gateway; the
  bus stores them in Redis lists and workers deliver them, one at a time, to an application over FastCGI,
  HTTP or a child process. A job whose delivery fails waits in a retry list and ends in a timeout list when its
  budget is used up. This development models the program under \<open>src/\<close> as HOL functions over explicit states and
  proves what makes it correct; the properties are the numbered theorems of this theory.

  \<^bold>\<open>How the parts interact.\<close> \<open>Setting\<close> decodes the configuration and sends commands to the registry
  (\<open>MuxServer\<close>), which starts and stops one worker per topic. \<open>Gateway.lpush\<close> parses jobs and hands them to
  \<open>MuxServer.AddJobs\<close>, which adds them to the storage of every topic of the queue; \<open>Mux\<close> and \<open>HttpWorker\<close> take jobs from
  the storage, send them (\<open>Cgi\<close>, \<open>FastCgi\<close>, HTTP) and put failed ones back; \<open>Admin\<close> reads and repairs the lists. All
  of them reach Redis through the client \<open>msgRedis\<close>.

  \<^bold>\<open>Theories and sources.\<close>
  \<^item> \<open>Prelude\<close>: panics (\<open>'a go\<close>), 64-bit integers, \<open>strconv\<close>, \<open>strings\<close>, maps. \<open>Json\<close>: \<open>encoding/json\<close> as used here.
  \<^item> \<open>Job\<close> (\<open>job.go\<close>), \<open>Ids\<close> (\<open>id.go\<close>): jobs, batches, their JSON; trace ids.
  \<^item> \<open>RedisCommands\<close>, \<open>RedisCommandSet\<close> (\<open>msgRedis/commands.go\<close>): every command method over a call parameter;
    \<open>RedisConn\<close> (\<open>conn.go\<close>): requests, replies, pipelines; \<open>RedisPool\<close> (\<open>pool.go\<close>, \<open>once.go\<close>): connections and pools on a heap;
    \<open>RedisDecoder\<close> (\<open>codec/redis/decoder.go\<close>). \<open>MemRedis\<close> is a server in memory, the instance of the interface
    \<open>redis_lists\<close>; \<open>PooledRedis\<close> shows that the pooled client over it is that server.
  \<^item> \<open>Storage\<close> (\<open>storage.go\<close>): the lists of a topic, the interfaces \<open>redis_lists\<close> and \<open>topic_store\<close>.
  \<^item> \<open>Config\<close>, \<open>ConfigJson\<close>, \<open>Setting\<close> (\<open>setting.go\<close>, \<open>logic/data\<close>): records, decoding, tags, updates and start.
  \<^item> \<open>Collections\<close> (\<open>error_collection.go\<close>, \<open>task_debug.go\<close>), \<open>Stats\<close> (\<open>mux_stats.go\<close>, \<open>gateway_stats.go\<close>),
    \<open>Logging\<close> (\<open>utility/logger\<close>, \<open>utility/error_logger.go\<close>).
  \<^item> \<open>Mux\<close> (\<open>mux.go\<close>), \<open>HttpWorker\<close> and \<open>HttpServe\<close> (\<open>http_worker.go\<close>: the turns, and the goroutines with the loop that starts them), \<open>ShellWorker\<close> (\<open>shell_worker.go\<close>, \<open>proc.go\<close>): the workers; the interface
    \<open>served_topic\<close>. \<open>CgiPool\<close> (\<open>cgi_conn_pool.go\<close>), \<open>Cgi\<close> (\<open>cgi.go\<close>), \<open>FastCgi\<close> and \<open>FcgiResponse\<close>
    (\<open>codec/fastcgi/client.go\<close>): delivery over FastCGI.
  \<^item> \<open>MuxServer\<close> (\<open>mux_server.go\<close>), \<open>Gateway\<close> (\<open>gateway.go\<close>, interface \<open>gateway\<close>), \<open>Admin\<close> (\<open>admin.go\<close>, \<open>prometheus.go\<close>),
    \<open>Sdk\<close> and \<open>SdkServe\<close> (\<open>sdk/golang\<close>): the client, the handlers of the server and \<open>Serve\<close> with the multiplexer of \<open>net/http\<close>.
  \<^item> \<open>AdminJson\<close> (\<open>renderJSON\<close> and the struct tags): responses as JSON; \<open>Machine\<close> (\<open>machine_stats.go\<close>, the registries of
    \<open>prometheus.go\<close>, \<open>logic/data\<close>); \<open>Process\<close> (\<open>main.go\<close>, \<open>signal.go\<close>, \<open>Gateway.Serve\<close>): start, signals and end as events on one
    state; \<open>ServeStart\<close>: what \<open>Serve\<close> of a worker starts.
  \<^item> \<open>BenConfig\<close> (\<open>script/genconfig_ben.go\<close>), \<open>DevClient\<close> (\<open>tester/dev/cgiclient\<close>): the configuration of the benchmark and the
    FastCGI test client.
  \<^item> \<open>Demo\<close>, \<open>DemoCgi\<close>, \<open>DemoConfig\<close>: a small bus, the concrete input of the examples behind the theorems.

  \<^bold>\<open>State and effects.\<close> A struct is a record, an enumeration a datatype, a Go map an association list with
  distinct keys. A function that changes state takes and returns it; a panic is \<open>Panic\<close>, a call that blocks or does not
  return is \<open>None\<close>, an error is a value. Loops of goroutines are split into turns; an interleaving is a
  list of turns (\<open>run_turns\<close>, \<open>http_run\<close>, \<open>log_run\<close>, \<open>p_run\<close>) or a step relation (\<open>ms_reach\<close>, \<open>p_reach\<close>). The bus state holds the
  world of the Redis server, the id generator and the statistics.

  \<^bold>\<open>What is shown.\<close> Jobs and lists: C1--C5 (round trip of the JSON, for bytes that are not UTF-8 too, separation of keys, first in first out,
  adding, also when it fails unnoticed, and moving jobs). Workers: C6--C14 (one turn, conservation and identity
  of jobs under any interleaving, bounded retries, end of waiting and pinging, equality of the HTTP and
  the CGI worker, the unbounded start loop). Registry: C15--C18 (invariant, convergence, overlapping updates, adding jobs).
  Gateway: C19--C22 (authentication, whole sessions without a password, lpush, rpop). Statistics, tags,
  task log: C23--C25. Redis client: C26--C28 (requests and both readers, the pooled client as the server, no
  leaks and termination). Ids: C29. CGI: C30--C33 (attempts, connections, an application behind FastCGI, the kept connection).
  Configuration and administration: C34--C36 (updates, actions, the printed configuration). SDK: C37. Logging: C38. The
  process: C39--C40 (which signals stop it, and that they do).

  \<^bold>\<open>Bounds and fuel.\<close> No operation is cut off by fuel except \<open>DefaultMaxConnsWaitTimes\<close> and the six attempts, which
  are the code's own. Loops whose end is not structural are functions with a termination proof or
  \<open>partial_function (option)\<close>, and their return is proved (C5, C12, C28, C31). The channel capacities (1000 commands,
  the statistics, 50000 log buffers) and memory limits of \<open>make\<close> are the code's and appear as hypotheses where they matter.

  \<^bold>\<open>Parameters.\<close> Code outside the repository is a parameter: the Redis server behind a call (law: \<open>redis_lists\<close>),
  \<open>http.Client.Do\<close>, sockets, the id generator, clocks, local addresses, the configuration service, the form decoder
  of the administration, the lookup of command names and the error texts of the Redis server library, operating system calls on processes, listeners and
  the start of a successor (\<open>gracenet\<close>), the service discovery client, the measurements of \<open>gopsutil\<close>, floats and times as text.

  \<^bold>\<open>Not modelled.\<close> Command line flags, multipart uploads of the FastCGI client and socket write errors there, errors of
  the file system in the logger, the keeper's list of nodes (a file that does not compile): these are calls
  into the operating system or other packages with no logic of the program's own. The three command methods with empty
  bodies (\<open>QUIT\<close>, \<open>SORT\<close>, \<open>BITPOS\<close>) and the functional tests and load generators under \<open>tester/\<close>, which send fixed sequences of
  requests to a running installation and print the answers, are left out too.
\<close>

section \<open>Jobs and their storage\<close>

text \<open>
  C1. Encoding a job and decoding the text into any job value, without error, gives the job back with every byte
  of its texts that is not part of well-formed UTF-8 replaced by U+FFFD. So the JSON a job is stored as in
  Redis loses nothing if and only if its id, its trace id and its content are well-formed UTF-8; the counters and times
  are 64-bit integers.
\<close>

theorem job_round_trip:
  assumes "counters_ok j"
  shows "\<exists>s. Job_Encode j = Inr s \<and> Job_Decode j0 s = (clean_job j, True)
     \<and> (clean_job j = j \<longleftrightarrow> valid_utf8 (JobId j) \<and> valid_utf8 (InTraceId j) \<and> valid_utf8 (Content j))"
  using Job_Decode_Encode_clean [OF assms] wf_job_clean [of j] assms by (auto simp: wf_job_def counters_ok_def)

theorem job_round_trip_witness:
  "(\<exists>s. Job_Encode demo_tried = Inr s \<and> Job_Decode new_Job s = (demo_tried, True))
   \<and> (\<exists>s. Job_Encode (demo_tried\<lparr>Content := [CHR 0xFF]\<rparr>) = Inr s
        \<and> Job_Decode new_Job s = (demo_tried\<lparr>Content := [CHR 0xEF, CHR 0xBF, CHR 0xBD]\<rparr>, True))"
proof -
  have content: "clean_job (j\<lparr>Content := c\<rparr>) = (clean_job j)\<lparr>Content := to_valid c\<rparr>" for j c by (simp add: clean_job_def)
  have "clean_job demo_tried = demo_tried" "counters_ok demo_tried" "counters_ok (demo_tried\<lparr>Content := [CHR 0xFF]\<rparr>)"
    using demo_jobs_wf(2) by (simp_all add: wf_job_clean) (simp add: counters_ok_def)
  moreover from this(1) have "clean_job (demo_tried\<lparr>Content := [CHR 0xFF]\<rparr>) = demo_tried\<lparr>Content := to_valid [CHR 0xFF]\<rparr>"
    by (simp add: content)
  moreover have "to_valid [CHR 0xFF] = [CHR 0xEF, CHR 0xBF, CHR 0xBD]"
    by (simp add: to_valid.simps(2) decode_rune_def encode_rune_def RuneError_def char_of_def bit_0)
  ultimately show ?thesis
    using job_round_trip [of demo_tried new_Job] job_round_trip [of "demo_tried\<lparr>Content := [CHR 0xFF]\<rparr>" new_Job] by auto
qed

text \<open>
  C2. The Redis keys of two lists are equal if and only if the queue, the topic and the kind of list agree,
  provided no name contains a colon: topics cannot receive each other's jobs.
\<close>

theorem keys_separate_topics:
  assumes "plain_name q" "plain_name t" "plain_name q'" "plain_name t'"
  shows "GetKey q t a = GetKey q' t' b \<longleftrightarrow> q = q' \<and> t = t' \<and> a = b"
  using GetKey_inj [OF assms] by blast

theorem keys_separate_topics_witness:
  "plain_name ''q'' \<and> plain_name ''list'' \<and> GetKey ''q'' ''list'' RetryQueue \<noteq> GetKey ''q'' ''list_retry'' CommonQueue
   \<and> GetKey ''q'' ''list'' RetryQueue \<noteq> GetKey ''q'' ''list'' TimeoutQueue"
  using keys_separate_topics [of "''q''" "''list''" "''q''" "''list_retry''" RetryQueue CommonQueue]
    keys_separate_topics [of "''q''" "''list''" "''q''" "''list''" RetryQueue TimeoutQueue]
  by (simp add: plain_name_def)

text \<open>
  C3. The storage is a queue: batches added to an empty topic come out again one job at a time, each
  exactly once, in the order of submission, and leave the topic empty.
\<close>

theorem storage_is_fifo:
  assumes "topic_store cl lst up s" "up w" "queued (lst w) s q t CommonQueue = []"
    and "\<forall>jobs \<in> set bs. queueName jobs = q \<and> topicName jobs = t \<and> \<not> retrying jobs \<and> Slice jobs \<noteq> []
           \<and> (\<forall>j \<in> set (Slice jobs). wf_job j)"
  shows "\<exists>w1 g2 w2. add_batches (\<lambda>jobs. AddQueue cl s jobs CommonQueue) bs w = Ret w1
     \<and> take_batches (GetJobsFromQueue cl gen sid s q t CommonQueue) (length (concat (map Slice bs))) g w1
         = Ret (concat (map Slice bs), g2, w2)
     \<and> up w2 \<and> queued (lst w2) s q t CommonQueue = []"
  using topic_store.common_fifo [OF assms(1-3), of bs _ gen sid g] assms(4) by auto

theorem storage_is_fifo_witness:
  "\<exists>w1 g2 w2. add_batches (\<lambda>jobs. AddQueue mem_exec demo_store jobs CommonQueue)
        [batch ''q'' ''t'' ''x'' demo_job, batch ''q'' ''t'' ''y'' demo_tried] (\<lambda>a k. []) = Ret w1
     \<and> take_batches (GetJobsFromQueue mem_exec demo_gen ''-1-2'' demo_store ''q'' ''t'' CommonQueue) 2 7 w1
         = Ret ([demo_job, demo_tried], g2, w2)
     \<and> mem_up w2 \<and> queued w2 demo_store ''q'' ''t'' CommonQueue = []"
  using storage_is_fifo [of mem_exec "\<lambda>w. w" mem_up demo_store "\<lambda>a k. []" "''q''" "''t''"
      "[batch ''q'' ''t'' ''x'' demo_job, batch ''q'' ''t'' ''y'' demo_tried]" demo_gen "''-1-2''" 7]
    demo_store.topic_store_axioms
  by (simp add: queued_def numeral_2_eq_2)

text \<open>
  C4. Adding a batch to a list of a topic appends its jobs to exactly that list, with the retry
  counter raised when the list is the retry list (or the batch is marked as retrying); every other
  list of every topic and storage stays as it was, and the caller gets no error. The caller gets no error
  either when the server refuses every command and nothing was stored.
\<close>

theorem add_queue_appends:
  assumes "redis_lists cl lst up" "up w" "redisCli s" "Slice jobs \<noteq> []" "\<forall>j \<in> set (Slice jobs). wf_job j"
  shows "\<exists>w'. AddQueue cl s jobs qt w = Ret (None, added jobs qt, w') \<and> up w'
     \<and> queued (lst w') s (queueName jobs) (topicName jobs) qt
       = queued (lst w) s (queueName jobs) (topicName jobs) qt
         @ map (bump (qt = RetryQueue \<or> retrying jobs)) (Slice jobs)
     \<and> (\<forall>s' q t qt'. GetKey q t qt' \<noteq> GetKey (queueName jobs) (topicName jobs) qt \<or> address s' \<noteq> address s
          \<longrightarrow> queued (lst w') s' q t qt' = queued (lst w) s' q t qt')
     \<and> AddQueue (\<lambda>a cmd args w. (Inl e, w)) s jobs qt w = Ret (None, added jobs qt, w)"
  using redis_lists.AddQueue_enqueues [OF assms, of qt] assms(3,4) by (simp only: added_simps AddQueue_cases LPUSH_def) auto

theorem add_queue_appends_witness:
  "\<exists>w'. AddQueue mem_exec demo_store (batch ''q'' ''t'' ''x'' demo_job) RetryQueue demo_mem
        = Ret (None, added (batch ''q'' ''t'' ''x'' demo_job) RetryQueue, w')
     \<and> queued w' demo_store ''q'' ''t'' RetryQueue = [demo_tried, bump True demo_job]
     \<and> queued w' demo_store ''q'' ''t'' CommonQueue = [demo_job]
     \<and> AddQueue (\<lambda>a cmd args w. (Inl (PlainErr ''EOF''), w)) demo_store (batch ''q'' ''t'' ''x'' demo_job) RetryQueue demo_mem
        = Ret (None, added (batch ''q'' ''t'' ''x'' demo_job) RetryQueue, demo_mem)"
  using add_queue_appends [OF mem.redis_lists_axioms, of demo_mem demo_store "batch ''q'' ''t'' ''x'' demo_job" RetryQueue "PlainErr ''EOF''"]
  by auto

text \<open>
  C5. \<open>RetryQueue\<close> of the storage returns: it moves the oldest jobs of the retry list, all of them or
  as many as asked for, behind the jobs of the common list in their order, and reports their number.
\<close>

theorem retry_queue_moves:
  assumes "redis_lists cl lst up" "up w" "redisCli s" "int (length (queued (lst w) s q t RetryQueue)) < 2 ^ 63"
  shows "\<exists>m w'. m = retry_moves count (length (queued (lst w) s q t RetryQueue))
     \<and> storage_RetryQueue cl s q t count w = Ret (Some ((int m, None), w')) \<and> up w'
     \<and> queued (lst w') s q t RetryQueue = drop m (queued (lst w) s q t RetryQueue)
     \<and> queued (lst w') s q t CommonQueue
       = queued (lst w) s q t CommonQueue @ take m (queued (lst w) s q t RetryQueue)
     \<and> queued (lst w') s q t TimeoutQueue = queued (lst w) s q t TimeoutQueue"
  using redis_lists.RetryQueue_moves [OF assms refl] by blast

theorem retry_queue_moves_witness:
  "\<exists>w'. storage_RetryQueue mem_exec demo_store ''q'' ''t'' 5 demo_mem = Ret (Some ((1, None), w'))
     \<and> queued w' demo_store ''q'' ''t'' CommonQueue = [demo_job, demo_tried]
     \<and> queued w' demo_store ''q'' ''t'' RetryQueue = []"
  using retry_queue_moves [OF mem.redis_lists_axioms, of demo_mem demo_store "''q''" "''t''" 5]
  by (simp add: retry_moves_def) blast

section \<open>Workers\<close>

text \<open>
  C6. A turn of a worker on a topic with jobs sends the oldest job, with its attempt recorded, to the
  remote side. When the answer is success the job is gone; on any other answer, and on a transport
  error, it is the newest job of the retry list. Nothing else of the topic changes, the statistics
  get one entry, and the turn tells whether to ping again.
\<close>

theorem worker_turn_moves_job:
  assumes "served_topic cl lst up env m" "up (wld b)"
    and "ls = lists_of (lst (wld b)) (mux_storager m) (mux_queue m) (mux_topic m)" "running ls = j # js"
    and "topic_conf conf (mux_queue m) (mux_topic m) = Some tc" "in_i64 (tc_RetryTime tc)"
  shows "\<exists>tid w1 r w2 b'. Mux_worker_turn env conf m False b = Ret (turn_after (sent r), b') \<and> up (wld b')
     \<and> rs_SendJobs (mux_sender m) (batch (mux_queue m) (mux_topic m) tid (prepare_job tc (unix env w1) j)) w1 = (r, w2)
     \<and> lists_of (lst (wld b')) (mux_storager m) (mux_queue m) (mux_topic m)
       = (if Code (sent r) = ResponseSuccess then ls\<lparr>running := js\<rparr>
          else ls\<lparr>running := js, waiting := waiting ls @ [bump True (prepare_job tc (unix env w1) j)]\<rparr>)
     \<and> MuxStat b' = MuxStats_Add (MuxStat b) (mux_queue m) (mux_topic m) (Code (sent r) = ResponseSuccess)
         (e_nanos env w2 - e_nanos env w1)"
  using served_topic.worker_turn_effect [OF assms(1,2) _ _ assms(5,6), of j js] queued_head_wf [OF assms(4) [unfolded assms(3) lists_of_sel]] assms(3,4)
  unfolding served_topic.view_def [OF assms(1)] worker_effect_def worker_stat_def by blast

theorem worker_turn_moves_job_witness:
  "\<exists>b'. Mux_worker_turn demo_env demo_confs (demo_mux ''500'') False demo_bus = Ret (Again, b')
     \<and> queued (wld b') demo_store ''q'' ''t'' CommonQueue = []
     \<and> queued (wld b') demo_store ''q'' ''t'' RetryQueue = [demo_tried, bump True (prepare_job demo_topic 1000 demo_job)]"
  using worker_turn_moves_job [OF demo.served_topic_axioms, of demo_bus _ "''500''" demo_job "[]" demo_confs demo_topic]
  by (auto simp: turn_after_def ResponseSuccess_def ResponseNotFound_def BadGateway_def lists_of_def)

text \<open>
  C7. A turn of the retry loop takes the oldest job of the retry list and puts it into exactly one
  list: back into the common list when its waiting time is over (its budget reduced by that time),
  to the end of the retry list when it is not, into the timeout list when its budget is used up or
  the topic does not retry.
\<close>

theorem retry_turn_moves_job:
  assumes "served_topic cl lst up env m" "up (wld b)"
    and "ls = lists_of (lst (wld b)) (mux_storager m) (mux_queue m) (mux_topic m)" "waiting ls = j # js"
  shows "\<exists>w1 b'. Mux_retry_turn env m False b = Ret (Again, b') \<and> up (wld b')
     \<and> lists_of (lst (wld b')) (mux_storager m) (mux_queue m) (mux_topic m)
       = (case retry_verdict (unix env w1) j of
            Expire \<Rightarrow> ls\<lparr>waiting := js, expired := expired ls @ [retry_mark (unix env w1) j]\<rparr>
          | Postpone \<Rightarrow> ls\<lparr>waiting := js @ [retry_mark (unix env w1) j]\<rparr>
          | Requeue dur \<Rightarrow> ls\<lparr>waiting := js, running := running ls @ [retry_mark (unix env w1) j]\<rparr>)"
  using served_topic.retry_turn_effect [OF assms(1,2), of j js] queued_head_wf [OF assms(4) [unfolded assms(3) lists_of_sel]] assms(3,4)
  unfolding served_topic.view_def [OF assms(1)] retry_effect_def by blast

theorem retry_turn_moves_job_witness:
  "\<exists>b'. Mux_retry_turn demo_env (demo_mux ''500'') False demo_bus = Ret (Again, b')
     \<and> queued (wld b') demo_store ''q'' ''t'' RetryQueue = []
     \<and> queued (wld b') demo_store ''q'' ''t'' CommonQueue = [demo_job, retry_mark 1000 demo_tried]"
proof -
  have "retry_verdict 1000 demo_tried = Requeue 0"
    by (simp add: retry_verdict_def demo_tried_def RetryDur_def Let_def i64_def)
  then show ?thesis
    using retry_turn_moves_job [OF demo.served_topic_axioms, of demo_bus _ "''500''" demo_tried "[]"]
    by (auto simp: lists_of_def)
qed

text \<open>
  C8. Jobs are neither lost nor multiplied: after any sequence of turns of workers and the retry
  loop, in any order, the jobs in the three lists of the topic and the deliveries the statistics
  count as successful add up to what they were before, and no turn panics.
\<close>

theorem turns_conserve_jobs:
  assumes "served_topic cl lst up env m" "up (wld b)"
    and "topic_conf conf (mux_queue m) (mux_topic m) = Some tc" "in_i64 (tc_RetryTime tc)"
    and "mux_queue m \<noteq> []" "mux_topic m \<noteq> []"
    and "length (ms_itemChan (MuxStat b)) + length acts \<le> MuxStatsChannelBuff"
  shows "\<exists>b'. run_turns env conf m acts b = Ret b' \<and> up (wld b')
     \<and> stored (lists_of (lst (wld b')) (mux_storager m) (mux_queue m) (mux_topic m)) + delivered (MuxStat b')
       = stored (lists_of (lst (wld b)) (mux_storager m) (mux_queue m) (mux_topic m)) + delivered (MuxStat b)"
  using served_topic.run_turns_conserves [OF assms(1,2) _ assms(3-7)] lists_of_wf
  unfolding served_topic.view_def [OF assms(1)] by blast

theorem turns_conserve_jobs_witness:
  "\<exists>b'. run_turns demo_env demo_confs (demo_mux ''200'') [Worker, Retrier, Worker, Worker] demo_bus = Ret b'
     \<and> stored (lists_of (wld b') demo_store ''q'' ''t'') + delivered (MuxStat b') = 2"
  using turns_conserve_jobs [OF demo.served_topic_axioms [of "''200''"], where b = demo_bus and conf = demo_confs and tc = demo_topic
      and acts = "[Worker, Retrier, Worker, Worker]"]
  by (simp add: lists_wf_def stored_def delivered_def successes_def demo_bus_def NewMuxStats_def MuxStatsChannelBuff_def)
     (auto simp: lists_of_def)

text \<open>
  C9. A job keeps its identity: when the ids of the jobs of a topic are distinct, then after any sequence of turns of
  workers and the retry loop they still are, and every job in one of the three lists has the id, the trace
  id and the content of a job that was there before. So no turn copies a job or mixes up two of them.
\<close>

theorem turns_keep_identity:
  assumes "served_topic cl lst up env m" "up (wld b)"
    and "topic_conf conf (mux_queue m) (mux_topic m) = Some tc" "in_i64 (tc_RetryTime tc)"
    and "ls = lists_of (lst (wld b)) (mux_storager m) (mux_queue m) (mux_topic m)" "distinct (map JobId (all_jobs ls))"
  shows "\<exists>b' ls'. run_turns env conf m acts b = Ret b' \<and> ls' = lists_of (lst (wld b')) (mux_storager m) (mux_queue m) (mux_topic m)
     \<and> distinct (map JobId (all_jobs ls'))
     \<and> (\<forall>j \<in> set (all_jobs ls'). \<exists>j0 \<in> set (all_jobs ls). JobId j = JobId j0 \<and> InTraceId j = InTraceId j0 \<and> Content j = Content j0)"
proof -
  have "from_jobs (all_jobs ls) ls" using assms(6) by (auto simp: from_jobs_def same_job_def)
  then obtain b' where "run_turns env conf m acts b = Ret b'"
    "from_jobs (all_jobs ls) (lists_of (lst (wld b')) (mux_storager m) (mux_queue m) (mux_topic m))"
    using served_topic.run_turns_from [OF assms(1,2) _ _ assms(3,4), of "all_jobs ls" acts] lists_of_wf
    unfolding served_topic.view_def [OF assms(1)] assms(5) by blast
  then show ?thesis unfolding from_jobs_def same_job_def by blast
qed

theorem turns_keep_identity_witness:
  "\<exists>b' ls'. run_turns demo_env demo_confs (demo_mux ''500'') [Worker, Retrier, Worker] (demo_fresh 1) = Ret b'
     \<and> ls' = lists_of (wld b') demo_store ''q'' ''t''
     \<and> (\<forall>j \<in> set (all_jobs ls'). JobId j = ''1'' \<and> Content j = ''hello'')"
  using turns_keep_identity [OF demo.served_topic_axioms [of "''500''"], where b = "demo_fresh 1" and conf = demo_confs and tc = demo_topic
      and acts = "[Worker, Retrier, Worker]", OF _ _ _ refl]
  by (auto simp: all_jobs_def demo_job_def new_Job_def)

text \<open>
  C10. A job whose deliveries fail leaves the cycle: in a topic whose jobs had not been delivered yet, after
  any sequence of turns of workers and the retry loop, the number of deliveries that a job counts is bounded by the retry time
  of the topic (the k-th retry costs 30(k-1) seconds of it), whatever the clock and the remote side do. The count is right: when
  the remote side never succeeds, the statistics got an item for every delivery counted, as long as their channel had room.
\<close>

theorem retries_bounded:
  assumes "served_topic cl lst up env m" "up (wld b)"
    and "topic_conf conf (mux_queue m) (mux_topic m) = Some tc" "0 \<le> tc_RetryTime tc" "tc_RetryTime tc < 2 ^ 60"
    and "fresh_topic (lists_of (lst (wld b)) (mux_storager m) (mux_queue m) (mux_topic m))"
  shows "\<exists>b' js. run_turns env conf m acts b = Ret b'
     \<and> js = all_jobs (lists_of (lst (wld b')) (mux_storager m) (mux_queue m) (mux_topic m))
     \<and> (\<forall>j \<in> set js. 3 \<le> RetryTimes j \<longrightarrow> 15 * ((RetryTimes j - 2) * (RetryTimes j - 3)) < tc_RetryTime tc)
     \<and> ((\<forall>jobs w. Code (sent (fst (rs_SendJobs (mux_sender m) jobs w))) \<noteq> ResponseSuccess) \<and> mux_queue m \<noteq> [] \<and> mux_topic m \<noteq> []
          \<and> length (ms_itemChan (MuxStat b)) \<le> MuxStatsChannelBuff \<longrightarrow>
         int (length (ms_itemChan (MuxStat b')))
           = min (int MuxStatsChannelBuff) (int (length (ms_itemChan (MuxStat b))) + sum_list (map RetryTimes js)))"
proof -
  note view = served_topic.view_def [OF assms(1)]
  obtain b' where b': "run_turns env conf m acts b = Ret b'"
    "alive tc (lists_of (lst (wld b')) (mux_storager m) (mux_queue m) (mux_topic m))"
    using served_topic.run_turns_alive [OF assms(1,2) _ _ assms(3-5), of acts] lists_of_wf fresh_alive [OF assms(6)]
    unfolding view by blast
  let ?js = "all_jobs (lists_of (lst (wld b')) (mux_storager m) (mux_queue m) (mux_topic m))"
  have "int (length (ms_itemChan (MuxStat b'))) = min (int MuxStatsChannelBuff) (int (length (ms_itemChan (MuxStat b))) + sum_list (map RetryTimes ?js))"
    if "\<forall>jobs w. Code (sent (fst (rs_SendJobs (mux_sender m) jobs w))) \<noteq> ResponseSuccess" "mux_queue m \<noteq> []" "mux_topic m \<noteq> []"
      "length (ms_itemChan (MuxStat b)) \<le> MuxStatsChannelBuff"
    using served_topic.run_turns_attempts [OF assms(1,2) _ _ assms(3-5) that(2-4) _ b'(1)] that(1) lists_of_wf assms(6)
    by (simp add: view attempts_def)
  moreover have "\<forall>j \<in> set ?js. 3 \<le> RetryTimes j \<longrightarrow> 15 * ((RetryTimes j - 2) * (RetryTimes j - 3)) < tc_RetryTime tc"
    using alive_bounded [OF b'(2)] unfolding all_jobs_def by blast
  ultimately show ?thesis using b'(1) by (intro exI [of _ b'] exI [of _ ?js]) simp
qed

theorem retries_bounded_witness:
  "\<exists>b' js. run_turns demo_env demo_confs (demo_mux ''500'') (concat (replicate 50 [Worker, Retrier])) (demo_fresh 2) = Ret b'
     \<and> js = all_jobs (lists_of (wld b') demo_store ''q'' ''t'')
     \<and> (\<forall>j \<in> set js. 3 \<le> RetryTimes j \<longrightarrow> 15 * ((RetryTimes j - 2) * (RetryTimes j - 3)) < 100)
     \<and> int (length (ms_itemChan (MuxStat b'))) = min (int MuxStatsChannelBuff) (sum_list (map RetryTimes js))"
proof -
  have "fresh_topic (lists_of (wld (demo_fresh 2)) demo_store ''q'' ''t'')" "tc_RetryTime demo_topic = 100"
    by (simp_all add: fresh_topic_def fresh_job_def demo_job_def new_Job_def demo_topic_def)
  moreover have "ms_itemChan (MuxStat (demo_fresh 2)) = []" by (simp add: demo_fresh_def demo_bus_def NewMuxStats_def)
  ultimately show ?thesis
    using retries_bounded [OF demo.served_topic_axioms [of "''500''"], where b = "demo_fresh 2" and conf = demo_confs and tc = demo_topic
        and acts = "concat (replicate 50 [Worker, Retrier])"]
    by (simp add: ResponseSuccess_def)
qed

text \<open>
  C11. A waiting job does not wait for ever: in a state reached from fresh jobs by any sequence of turns, when the
  oldest waiting job is taken at a time that is 30 seconds per earlier retry behind its last delivery, the turn of the retry loop
  moves it out of the retry list: back to the jobs to run if its topic retries and its budget is not used up, otherwise
  to the timed out ones; everything else stays.
\<close>

theorem waiting_ends:
  assumes "served_topic cl lst up env m" "up (wld b0)"
    and "topic_conf conf (mux_queue m) (mux_topic m) = Some tc" "0 \<le> tc_RetryTime tc" "tc_RetryTime tc < 2 ^ 60"
    and "fresh_topic (lists_of (lst (wld b0)) (mux_storager m) (mux_queue m) (mux_topic m))" "run_turns env conf m acts b0 = Ret b"
    and "ls = lists_of (lst (wld b)) (mux_storager m) (mux_queue m) (mux_topic m)" "waiting ls = j # js"
    and "Mux_GetJobsFromQueue env m (mux_queue m) (mux_topic m) RetryQueue b = Ret (r, b1)"
    and "0 < RetryTime j" "RetryTime j \<le> 2 ^ 61" "RetryTime j + 30 * (RetryTimes j - 1) \<le> unix env (wld b1)"
  shows "\<exists>j' b'. Mux_retry_turn env m False b = Ret (Again, b') \<and> JobId j' = JobId j \<and> Content j' = Content j
     \<and> lists_of (lst (wld b')) (mux_storager m) (mux_queue m) (mux_topic m)
       = (if IsRetry j \<and> 0 < RetryResidueTime j then ls\<lparr>waiting := js, running := running ls @ [j']\<rparr>
          else ls\<lparr>waiting := js, expired := expired ls @ [j']\<rparr>)"
proof -
  note view = served_topic.view_def [OF assms(1)]
  have b: "up (wld b)" "alive tc ls"
    using served_topic.run_turns_alive [OF assms(1,2) _ _ assms(3-5), of acts] assms(7,8) lists_of_wf fresh_alive [OF assms(6)]
    unfolding view by auto
  have "wf_job j" using queued_head_wf assms(8,9) by fastforce
  with served_topic.retry_turn_due [OF assms(1) b(1) _ _ _ assms(4,5,10-13)] b(2) assms(8,9) show ?thesis
    unfolding view by (auto simp: same_job_def)
qed

theorem waiting_ends_witness:
  "\<exists>b j' b'. run_turns demo_env demo_confs (demo_mux ''500'') [Worker] (demo_fresh 1) = Ret b
     \<and> Mux_retry_turn demo_env (demo_mux ''500'') False b = Ret (Again, b') \<and> JobId j' = ''1''
     \<and> queued (wld b') demo_store ''q'' ''t'' RetryQueue = [] \<and> queued (wld b') demo_store ''q'' ''t'' CommonQueue = [j']"
proof -
  let ?m = "demo_mux ''500''" and ?j = "bump True (prepare_job demo_topic 1000 demo_job)"
  obtain b tn where b: "Mux_worker_turn demo_env demo_confs ?m False (demo_fresh 1) = Ret (tn, b)"
    "lists_of (wld b) demo_store ''q'' ''t'' = \<lparr>running = [], waiting = [?j], expired = []\<rparr>"
    using demo.worker_turn_effect [of "demo_fresh 1" "''500''" demo_job "[]" demo_confs demo_topic]
    by (auto simp: demo.view_def worker_effect_def ResponseSuccess_def lists_of_def)
  then have run: "run_turns demo_env demo_confs ?m [Worker] (demo_fresh 1) = Ret b" by simp
  have "queued (wld b) demo_store ''q'' ''t'' RetryQueue = [?j]" using arg_cong [OF b(2), of waiting] by simp
  then obtain r b1 where g: "Mux_GetJobsFromQueue demo_env ?m (mux_queue ?m) (mux_topic ?m) RetryQueue b = Ret (r, b1)"
    using demo.take_view [of b "''500''" RetryQueue ?j "[]"] by auto
  have f: "fresh_topic (lists_of (wld (demo_fresh 1)) (mux_storager ?m) (mux_queue ?m) (mux_topic ?m))"
    by (simp add: fresh_topic_def fresh_job_def demo_job_def new_Job_def)
  have j: "JobId ?j = ''1''" "IsRetry ?j" "RetryResidueTime ?j = 100" "RetryTime ?j = 1000" "RetryTimes ?j = 1" "JobId demo_job = ''1''"
    by (simp_all add: demo_job_def new_Job_def demo_topic_def prepare_job_def bump_def Let_def i64_def)
  have "0 \<le> tc_RetryTime demo_topic" "tc_RetryTime demo_topic < 2 ^ 60" by (simp_all add: demo_topic_def)
  from waiting_ends [OF demo.served_topic_axioms _ _ this f run refl _ g, of ?j "[]"]
  obtain j' b' where b': "Mux_retry_turn demo_env ?m False b = Ret (Again, b')" "JobId j' = ''1''"
    "lists_of (wld b') demo_store ''q'' ''t'' = \<lparr>running = [j'], waiting = [], expired = []\<rparr>"
    by (auto simp: b(2) j)
  from b'(3) have "queued (wld b') demo_store ''q'' ''t'' RetryQueue = []" "queued (wld b') demo_store ''q'' ''t'' CommonQueue = [j']"
    by (simp_all add: lists_of_def)
  with run b'(1,2) show ?thesis by blast
qed

text \<open>
  C12. The loop that pings the remote side returns as soon as a ping succeeds or the context is done,
  after exactly as many sleeps as pings failed; the sleeps grow from three seconds and never exceed a
  minute.
\<close>

theorem ping_loop_returns:
  assumes "\<forall>i < n. \<not> isDone (pinged (Mux_SendPing m) i w) \<and> fst (Mux_SendPing m (pinged (Mux_SendPing m) i w)) \<noteq> None"
    and "isDone (pinged (Mux_SendPing m) n w) \<or> fst (Mux_SendPing m (pinged (Mux_SendPing m) n w)) = None"
  shows "\<exists>ss w'. loopPingCGI m isDone w = Some (ss, w') \<and> length ss = n
     \<and> (\<forall>s \<in> set ss. 3 \<le> s \<and> s \<le> 60) \<and> sorted (rev ss)"
  using loopPing_stops [OF assms, of 3 "[]"] by (simp add: loopPingCGI_def PingSleepDuration_def)

theorem ping_loop_returns_witness:
  "\<exists>ss w'. loopPingCGI (NewMux ''q'' ''t''
        \<lparr>rs_SendPing = (\<lambda>n :: nat. (if n < 2 then Inl ''refused''
           else Inr \<lparr>Code = ResponseSuccess, ErrorCode = [], ConsumeTopics = ''q/t'', Msg = []\<rparr>, Suc n)),
         rs_SendJobs = (\<lambda>jobs n. (Inl [], n))\<rparr> demo_store 1) (\<lambda>n. False) 0 = Some (ss, w')
     \<and> length ss = 2 \<and> (\<forall>s \<in> set ss. 3 \<le> s \<and> s \<le> 60) \<and> sorted (rev ss)"
proof -
  obtain m where m: "m = NewMux ''q'' ''t''
        \<lparr>rs_SendPing = (\<lambda>n :: nat. (if n < 2 then Inl ''refused''
           else Inr \<lparr>Code = ResponseSuccess, ErrorCode = [], ConsumeTopics = ''q/t'', Msg = []\<rparr>, Suc n)),
         rs_SendJobs = (\<lambda>jobs n. (Inl [], n))\<rparr> demo_store 1" by blast
  have ping: "Mux_SendPing m n = (if n < 2 then Some ''refused'' else None, Suc n)" for n
    by (simp add: m Mux_SendPing_def NewMux_def IsSuccess_def InArray_set strings_Split_no_sep)
  have "pinged (Mux_SendPing m) 1 0 = 1" "pinged (Mux_SendPing m) 2 0 = 2" by (simp_all add: numeral_2_eq_2 ping)
  then show ?thesis unfolding m [symmetric] using ping_loop_returns [of 2 "\<lambda>n. False" m 0] by (simp add: ping less_2_cases_iff)
qed

text \<open>
  C13. The worker for topics served over HTTP and the worker for topics served over CGI, which are written out
  separately, make the same turns: given the same storage and the same remote side, they do the same to the bus. The
  HTTP worker moreover raises its 64-bit counter of children when it takes a job and has its old value again when
  the turn is over.
\<close>

theorem http_turns_are_cgi_turns:
  assumes "in_i64 (numOfChildren hw)"
  shows "HttpWorker_worker_turn env conf hw d b = go_bind (Mux_worker_turn env conf (as_mux hw) d b) (\<lambda>(t, b'). Ret (t, hw, b'))
   \<and> HttpWorker_retry_turn env hw d b = Mux_retry_turn env (as_mux hw) d b
   \<and> (HttpWorker_take env conf hw b = Ret (Some got, hw1, b1) \<longrightarrow> hw1 = hw\<lparr>numOfChildren := i64 (numOfChildren hw + 1)\<rparr>)"
  using HttpWorker_worker_turn_Mux [OF assms, of env conf d b] HttpWorker_retry_turn_Mux [of env hw d b]
  by (auto simp: HttpWorker_take_def Let_def split: option.splits prod.splits)

theorem http_turns_are_cgi_turns_witness:
  "\<exists>b'. HttpWorker_worker_turn demo_env demo_confs (demo_worker ''500'') False demo_bus = Ret (Again, demo_worker ''500'', b')
     \<and> queued (wld b') demo_store ''q'' ''t'' CommonQueue = []"
proof -
  have "in_i64 (numOfChildren (demo_worker ''500''))" by (simp add: demo_worker_def NewHttpWorker_def in_i64_def)
  from conjunct1 [OF http_turns_are_cgi_turns [OF this, of demo_env demo_confs False demo_bus]]
    demo.worker_turn_effect [of demo_bus "''500''" demo_job "[]" demo_confs demo_topic]
  show ?thesis
    by (auto simp: demo.view_def worker_effect_def ResponseSuccess_def turn_after_def ResponseNotFound_def BadGateway_def lists_of_def
        demo_mux_def [symmetric])
qed

text \<open>
  C14. The start loop of the HTTP worker reads its bound from the counter that its goroutines raise
  while they work. So with at least one configured child, a remote side that answers the pings and k waiting jobs there is
  a schedule in which k goroutines are started and all of them are delivering a job, for every k up to where the counter
  would overflow: the configured number bounds nothing but the first of them.
\<close>

theorem http_children_unbounded:
  assumes "served_topic cl lst up env (as_mux hw)" "up (wld b)" "topic_conf conf (hw_queue hw) (hw_topic hw) = Some tc"
    and "\<forall>w. up w \<longrightarrow> (\<exists>w'. HttpWorker_SendPing hw w = (None, w') \<and> up w' \<and> lst w' = lst w)"
    and "1 \<le> numOfChildren hw" "numOfChildren hw + int k < 2 ^ 63"
    and "k \<le> length (queued (lst (wld b)) (hw_storager hw) (hw_queue hw) (hw_topic hw) CommonQueue)"
  shows "\<exists>es s. http_run env conf False es (http_start hw b) = Ret s \<and> length (hs_children s) = k
     \<and> list_all sending (hs_children s) \<and> numOfChildren (hs_worker s) = numOfChildren hw + int k"
proof -
  have "k \<le> length (running (served_topic.view lst (as_mux hw) (wld b)))" using assms(7) by (simp add: served_topic.view_def [OF assms(1)])
  from served_topic.spawned_all_busy [OF assms(1) refl assms(2,3) _ assms(5,6) this] assms(4) show ?thesis by fastforce
qed

theorem http_children_unbounded_witness:
  "\<exists>es s. http_run demo_env demo_confs False es (http_start (demo_worker ''200'') (demo_fresh 7)) = Ret s
     \<and> length (hs_children s) = 7 \<and> list_all sending (hs_children s) \<and> numOfChildren (hs_worker s) = 8"
proof -
  have hw: "hw_queue (demo_worker ''200'') = ''q''" "hw_topic (demo_worker ''200'') = ''t''" "hw_storager (demo_worker ''200'') = demo_store"
    "numOfChildren (demo_worker ''200'') = 1"
    by (simp_all add: demo_worker_def NewHttpWorker_def)
  have ping: "HttpWorker_SendPing (demo_worker ''200'') w = (None, w)" for w
    by (simp add: HttpWorker_SendPing_def demo_worker_def NewHttpWorker_def hcm_sender_def hcm_SendPing_def hcm_request_def demo_do_def
        demo_topic_def Header_Get_def IsSuccess_def ResponseSuccess_def strings_Split_no_sep InArray_set)
  show ?thesis
    using http_children_unbounded [OF demo.served_topic_axioms [of "''200''", unfolded demo_mux_def], of "demo_fresh 7" demo_confs demo_topic 7]
    by (simp add: hw ping)
qed

section \<open>The registry of workers\<close>

text \<open>
  C15. In every state the server can reach by configuration updates and executed commands, workers
  and configurations fit together: a queue has workers if and only if it is configured, every worker
  carries the names and the storage of its topic, every topic with a known run type has a worker,
  and a worker consumes only if its queue or topic is enabled.
\<close>

theorem registry_consistent:
  assumes "ms_reach ms"
  shows "ms_inv ms"
  using ms_reach_inv [OF assms] by simp

theorem registry_consistent_witness:
  "\<exists>ms. ms_reach ms \<and> map_of (queueConfig ms) ''q'' = Some demo_queue \<and> ms_inv ms"
proof -
  obtain ms1 where ms1: "UpdateConfigs demo_confs NewMuxServer = Some ms1"
    using UpdateConfigs_room [of NewMuxServer demo_confs] by (auto simp: NewMuxServer_def demo_confs_def cmdC_cap_def)
  then have "ms_reach ms1" by (intro ms_reach.update [OF ms_reach.init, of demo_confs]) (simp_all add: demo_confs_def demo_queue_def wf_map_def)
  moreover have cmd: "cmdC ms1 = [\<lparr>cmd_conf = demo_queue, cmd_op = CmdQueueAdd\<rparr>]"
    using UpdateConfigs_cmds [OF ms1] by (simp add: NewMuxServer_def demo_confs_def news_cmds_def olds_cmds_def)
  moreover obtain ms2 where ms2: "Serve_cmd demo_node (ms1\<lparr>cmdC := []\<rparr>) \<lparr>cmd_conf = demo_queue, cmd_op = CmdQueueAdd\<rparr> = Ret ms2"
    using Serve_cmd_total [of demo_node "\<lparr>cmd_conf = demo_queue, cmd_op = CmdQueueAdd\<rparr>"] by auto
  ultimately have "ms_reach ms2" using ms_reach.serve [of ms1 demo_node ms2] by (simp add: Serve_turn_def)
  moreover have "queueConfig ms1 = []" using UpdateConfigs_cmds [OF ms1] by (simp add: NewMuxServer_def)
  then have "map_of (queueConfig ms2) ''q'' = Some demo_queue"
    using Serve_cmd_cfg [OF ms2] by (simp add: cfg_step_def demo_queue_def)
  ultimately show ?thesis using registry_consistent by blast
qed

text \<open>
  C16. \<open>UpdateConfigs\<close> converges: for configurations whose queues stand under their names and whose topics have a
  storage that can be created (and, for HTTP topics, when the node has an HTTP configuration), no command of the
  update panics, and when the server has executed them the stored
  configurations are those of the update (as \<open>reflect.DeepEqual\<close> compares them) and no others. The workers of a queue whose
  configuration did not change were not touched; those of every other queue are the ones made from its new configuration.
\<close>

theorem update_configs_converges:
  assumes "ms_inv ms" "cmdC ms = []" "named_confs d confs" "UpdateConfigs confs ms = Some ms1"
  shows "\<exists>ms2. Serve_turns d (length (cmdC ms1)) ms1 = Ret ms2 \<and> cmdC ms2 = []
     \<and> (\<forall>q. rel_option DeepEqual (map_of confs q) (map_of (queueConfig ms2) q))
     \<and> (\<forall>q conf old. map_of confs q = Some conf \<longrightarrow> map_of (queueConfig ms) q = Some old \<longrightarrow> DeepEqual conf old
          \<longrightarrow> map_of (mux ms2) q = map_of (mux ms) q)
     \<and> (\<forall>q. \<not> (\<exists>conf old. map_of confs q = Some conf \<and> map_of (queueConfig ms) q = Some old \<and> DeepEqual conf old)
          \<longrightarrow> made d ms2 q)"
  using assms by (rule UpdateConfigs_converges)

theorem update_configs_converges_witness:
  "\<exists>ms1 ms2. UpdateConfigs demo_confs NewMuxServer = Some ms1 \<and> Serve_turns demo_node (length (cmdC ms1)) ms1 = Ret ms2
     \<and> cmdC ms2 = [] \<and> rel_option DeepEqual (Some demo_queue) (map_of (queueConfig ms2) ''q'') \<and> made demo_node ms2 ''q''"
proof -
  obtain ms1 where ms1: "UpdateConfigs demo_confs NewMuxServer = Some ms1"
    using UpdateConfigs_room [of NewMuxServer demo_confs] by (auto simp: NewMuxServer_def demo_confs_def cmdC_cap_def)
  have ok: "ms_inv NewMuxServer" "cmdC NewMuxServer = []" "named_confs demo_node demo_confs" "queueConfig NewMuxServer = []"
    by (simp_all add: ms_inv_def NewMuxServer_def named_confs_def demo_confs_def wf_map_def) (simp add: demo_queue_def)
  from update_configs_converges [OF ok(1-3) ms1] obtain ms2 where ms2:
    "Serve_turns demo_node (length (cmdC ms1)) ms1 = Ret ms2" "cmdC ms2 = []"
    "\<forall>q. rel_option DeepEqual (map_of demo_confs q) (map_of (queueConfig ms2) q)" "made demo_node ms2 ''q''"
    using ok(4) by force
  have "map_of demo_confs ''q'' = Some demo_queue" by (simp add: demo_confs_def)
  with ms1 ms2 show ?thesis by metis
qed



text \<open>
  C18. Adding a batch to a queue hands it to every topic of the queue exactly once: the common list
  of each topic grows by the jobs of the batch, their retry fields set from the topic's
  configuration, and every other list stays as it was. There is no error and no panic.
\<close>

theorem add_jobs_reaches_topics:
  assumes "redis_lists cl lst up" "e_redis env = cl" "up (wld b)" "ms_inv ms"
    and "map_of (mux ms) (queueName jobs) = Some ts" "ts \<noteq> []" "topics_ready (queueConfig ms) (queueName jobs) ts"
    and "Slice jobs \<noteq> []" "\<forall>j \<in> set (Slice jobs). wf_job j" "\<not> retrying jobs"
  shows "\<exists>jobs' b'. MuxServer_AddJobs env ms jobs b = Ret (None, jobs', b') \<and> up (wld b')
     \<and> (\<forall>(t, mx) \<in> set ts. queued (lst (wld b')) (mx_storager mx) (queueName jobs) t CommonQueue
          = queued (lst (wld b)) (mx_storager mx) (queueName jobs) t CommonQueue
            @ jobs_for (queueConfig ms) (queueName jobs) t (Slice jobs))
     \<and> (\<forall>s q' t' qt. (\<forall>(t, mx) \<in> set ts. GetKey q' t' qt \<noteq> GetKey (queueName jobs) t CommonQueue \<or> address s \<noteq> address (mx_storager mx))
          \<longrightarrow> queued (lst (wld b')) s q' t' qt = queued (lst (wld b)) s q' t' qt)"
proof -
  have "distinct (map fst ts)" using ms_inv_workers [OF assms(4,5)] by (simp add: wf_map_def)
  from redis_lists.AddJobs_loop_fanout [OF assms(1-3) this assms(7-10), of None] show ?thesis
    unfolding MuxServer_AddJobs_loop [OF assms(5,6)] by blast
qed

theorem add_jobs_reaches_topics_witness:
  "\<exists>jobs' b'. MuxServer_AddJobs demo_env demo_server (batch ''q'' [] ''x'' demo_job) demo_bus = Ret (None, jobs', b')
     \<and> queued (wld b') demo_store ''q'' ''t'' CommonQueue = [demo_job, init_retry demo_topic demo_job]"
  using add_jobs_reaches_topics [OF mem.redis_lists_axioms, of demo_env demo_bus demo_server "batch ''q'' [] ''x'' demo_job"
      "[(''t'', demo_muxer)]"]
  by (simp add: topics_ready_def jobs_for_def demo_muxer_def) blast

section \<open>The gateway\<close>

text \<open>
  C19. Authentication: after \<open>auth\<close> with an argument, the client is known under a name if and only if
  the argument is that name, a colon and the right password (up to a further colon); otherwise the
  client is no longer authenticated, whatever it was before. The right password is the queue's for a name
  without slash, the topic's for \<open>queue/topic\<close>, and again the queue's for a name with two slashes, although
  the client is then known under a name that \<open>rpop\<close> accepts for the topic behind the first slash.
\<close>

theorem auth_checks_password:
  assumes "CHR ''/'' \<notin> set q" "CHR ''/'' \<notin> set t" "CHR ''/'' \<notin> set u" "t \<noteq> []"
  shows "(snd (gw_auth wrong confs n (a # rest) auth) = AuthName v \<longleftrightarrow>
        (\<exists>pw more. strings_Split a '':'' = v # pw # more \<and> password_ok confs v pw))
     \<and> (snd (gw_auth wrong confs n (a # rest) auth) = AuthFalse \<or> (\<exists>u. snd (gw_auth wrong confs n (a # rest) auth) = AuthName u))
     \<and> (password_ok confs q pw \<longleftrightarrow> (\<exists>qc. map_of confs q = Some qc \<and> qc_Password qc = pw))
     \<and> (password_ok confs (q @ ''/'' @ t) pw \<longleftrightarrow>
         (\<exists>qc tc. map_of confs q = Some qc \<and> map_of (qc_Topic qc) t = Some tc \<and> tc_Password tc = pw))
     \<and> (password_ok confs (q @ ''/'' @ t @ ''/'' @ u) pw \<longleftrightarrow> (\<exists>qc. map_of confs q = Some qc \<and> qc_Password qc = pw))
     \<and> checkAuth (AuthName (q @ ''/'' @ t @ ''/'' @ u)) q (t @ ''/'' @ u) = None"
  using gw_auth_cases [of wrong confs n a rest auth v] gw_auth_fail [of wrong confs n a rest auth]
    password_ok_queue [OF assms(1), of confs pw] password_ok_topic [OF assms(1,2,4), of confs pw]
    password_ok_deep [OF assms(1-3), of confs pw] checkAuth_iff [of "AuthName (q @ ''/'' @ t @ ''/'' @ u)" q "t @ ''/'' @ u"]
  by simp blast

theorem auth_checks_password_witness:
  "snd (gw_auth (\<lambda>n. n) demo_confs ''auth'' [''q:pq''] NoAuth) = AuthName ''q'' \<and> password_ok demo_confs ''q'' ''pq''
   \<and> password_ok demo_confs ''q/t'' ''pt'' \<and> password_ok demo_confs ''q/t/u'' ''pq''
   \<and> checkAuth (AuthName ''q/t/u'') ''q'' ''t/u'' = None"
proof -
  have sp: "strings_Split ''q:pq'' '':'' = [''q'', ''pq'']" by code_simp
  show ?thesis
    using auth_checks_password [of "''q''" "''t''" "''u''" "\<lambda>n. n" demo_confs "''auth''" "''q:pq''" "[]" NoAuth "''q''" "''pq''"]
      auth_checks_password [of "''q''" "''t''" "''u''" "\<lambda>n. n" demo_confs "''auth''" "''q:pq''" "[]" NoAuth "''q''" "''pt''"] sp
    by (simp add: demo_confs_def demo_queue_def demo_topic_def)
qed

text \<open>
  C20. A client without authority changes nothing: one that is not authenticated for the queue gets
  the authentication error from \<open>lpush\<close>, one that is not authenticated for the topic gets it from
  \<open>rpop\<close>; the stored jobs, the logs and the statistics stay as they were. (A request whose queue name is
  empty is let through for every authenticated client.) So a whole session of a new client, whatever
  commands it sends, in whatever letter case, as long as no \<open>auth\<close> carries a right password, is answered command by command and
  leaves the jobs, the logs and the statistics as they were.
\<close>

theorem unauthorised_denied:
  assumes "strings_SplitN2 a (CHR ''/'') = q # t # r"
  shows "((\<nexists>v. auth = AuthName v \<and> (v = q \<or> (q = [] \<and> v \<noteq> []))) \<longrightarrow>
      (\<exists>tid g. gw_lpush env ms (a # cs) auth b
        = Ret ([gateway_resp [] tid (Some ''NOAUTH Authentication required.'')], b\<lparr>ids := g\<rparr>)))
    \<and> ((\<nexists>v. auth = AuthName v \<and> (v = (if t = [] then q else q @ ''/'' @ t) \<or> (q = [] \<and> v \<noteq> []))) \<longrightarrow>
      gw_rpop et env ms (a # cs) auth b = Ret ([RespError ''NOAUTH Authentication required.''], b))
    \<and> (list_all (\<lambda>cmd. \<not> right_password P cmd) cmds \<longrightarrow>
      (\<exists>rss auth' b'. gw_session P cmds (NoAuth, b) = Ret (rss, auth', b') \<and> length rss = length cmds
        \<and> wld b' = wld b \<and> MuxStat b' = MuxStat b \<and> GatewayStat b' = GatewayStat b))"
proof -
  have "\<exists>rss auth' b'. gw_session P cmds (NoAuth, b) = Ret (rss, auth', b') \<and> length rss = length cmds
      \<and> wld b' = wld b \<and> MuxStat b' = MuxStat b \<and> GatewayStat b' = GatewayStat b"
    if "list_all (\<lambda>cmd. \<not> right_password P cmd) cmds"
    using gw_session_unknown [OF _ that, of NoAuth b] by (auto dest: same_bus_fields)
  then show ?thesis using gw_lpush_unauthorised [OF assms] gw_rpop_unauthorised [OF assms] by blast
qed

theorem unauthorised_denied_witness:
  "(\<exists>tid g. gw_lpush demo_env demo_server [''q/t'', ''x''] AuthFalse demo_bus
      = Ret ([gateway_resp [] tid (Some ''NOAUTH Authentication required.'')], demo_bus\<lparr>ids := g\<rparr>))
   \<and> gw_rpop (\<lambda>e. []) demo_env demo_server [''q/t''] (AuthName ''q'') demo_bus
      = Ret ([RespError ''NOAUTH Authentication required.''], demo_bus)
   \<and> (\<exists>rss auth' b'. gw_session demo_gateway [(''LPUSH'', [''q/t'', ''x'']), (''AUTH'', [''q:no'']), (''rpop'', [''q/t''])] (NoAuth, demo_bus)
      = Ret (rss, auth', b') \<and> length rss = 3 \<and> wld b' = demo_mem)"
proof -
  have sp: "strings_SplitN2 ''q/t'' (CHR ''/'') = [''q'', ''t'']" using strings_SplitN2_sep [of "CHR ''/''" "''q''" "''t''"] by simp
  have "\<not> right_password demo_gateway (''AUTH'', [''q:no''])"
    using strings_Split_sep [of "CHR '':''" "''q''" "''no''"] password_ok_queue [of "''q''" demo_confs "''no''"]
    by (simp add: right_password_def demo_gateway_def strings_Split_no_sep demo_confs_def demo_queue_def)
  then obtain cmds where cmds: "cmds = [(''LPUSH'', [''q/t'', ''x'']), (''AUTH'', [''q:no'']), (''rpop'', [''q/t''])]"
    "list_all (\<lambda>cmd. \<not> right_password demo_gateway cmd) cmds" "length cmds = 3"
    by (simp add: right_password_def [of _ "(x, y)" for x y] demo_gateway_def lower_def)
  show ?thesis unfolding cmds(1) [symmetric]
    using unauthorised_denied [OF sp, of AuthFalse demo_env demo_server "[''x'']" demo_bus "\<lambda>e. []" demo_gateway cmds]
      unauthorised_denied [OF sp, of "AuthName ''q''" demo_env demo_server "[]" demo_bus "\<lambda>e. []" demo_gateway "[]"] cmds(2,3)
    by auto
qed

text \<open>
  C21. An accepted \<open>lpush\<close> stores one fresh job for every content argument in each topic of the
  queue, answers once with the ids of the jobs, and counts one successful submission.
\<close>

theorem lpush_stores_jobs:
  assumes "gateway cl lst up env" "up (wld b)" "ms_inv ms" "plain_name q"
    and "strings_SplitN2 a (CHR ''/'') = q # t # r" "checkAuth auth q [] = None"
    and "map_of (mux ms) q = Some ts" "ts \<noteq> []" "topics_ready (queueConfig ms) q ts"
    and "cs \<noteq> []" "\<forall>c \<in> set cs. valid_utf8 c"
  shows "\<exists>(jobs :: Jobs) b'. queueName jobs = q \<and> map Content (Slice jobs) = cs
     \<and> gw_lpush env ms (a # cs) auth b = Ret ([gateway_resp (map JobId (Slice jobs)) (inTraceId jobs) None], b')
     \<and> up (wld b') \<and> GatewayStat b' = GatewayStats_Add (GatewayStat b) q True
     \<and> (\<forall>(t', mx) \<in> set ts. queued (lst (wld b')) (mx_storager mx) q t' CommonQueue
          = queued (lst (wld b)) (mx_storager mx) q t' CommonQueue @ jobs_for (queueConfig ms) q t' (Slice jobs))"
  using gateway.lpush_stores [OF assms] pushed_simps [of env "ids b" q cs] by blast

theorem lpush_stores_jobs_witness:
  "\<exists>(jobs :: Jobs) b'. map Content (Slice jobs) = [''x'', ''y'']
     \<and> gw_lpush demo_env demo_server [''q/t'', ''x'', ''y''] (AuthName ''q'') demo_bus
         = Ret ([gateway_resp (map JobId (Slice jobs)) (inTraceId jobs) None], b')
     \<and> queued (wld b') demo_store ''q'' ''t'' CommonQueue = demo_job # map (init_retry demo_topic) (Slice jobs)"
  using lpush_stores_jobs [OF demo_gw.gateway_axioms, of demo_bus demo_server "''q''" "''q/t''" "''t''" "[]" "AuthName ''q''"
      "[(''t'', demo_muxer)]" "[''x'', ''y'']"] strings_SplitN2_sep [of "CHR ''/''" "''q''" "''t''"]
  by (simp add: topics_ready_def jobs_for_def demo_muxer_def plain_name_def checkAuth_def valid_utf8_ascii)
     (elim exE conjE, intro exI conjI, assumption+)

text \<open>
  C22. An accepted \<open>rpop\<close> on a topic with jobs answers with the oldest job and removes it; a client that
  parses the answer finds exactly that job.
\<close>

theorem rpop_takes_oldest_job:
  assumes "gateway cl lst up env" "up (wld b)"
    and "strings_SplitN2 a (CHR ''/'') = q # t # r" "checkAuth auth q t = None"
    and "GetMuxer ms q t = Inr mx" "redisCli (mx_storager mx)"
    and "queued (lst (wld b)) (mx_storager mx) q t CommonQueue = j # js"
  shows "\<exists>b' jobs. gw_rpop et env ms (a # cs) auth b = Ret ([RespBulk (Jobs_Encode jobs)], b') \<and> Slice jobs = [j]
     \<and> json_parse (Jobs_Encode jobs) = Some (JObj [(''jobs'', JArr [Job_json j])]) \<and> up (wld b') \<and> queued (lst (wld b')) (mx_storager mx) q t CommonQueue = js"
  using gateway.rpop_takes_oldest [OF assms] json_parse_Jobs
    queued_wf [of j "lst (wld b)" "mx_storager mx" q t CommonQueue] assms(7) by fastforce

theorem rpop_takes_oldest_job_witness:
  "\<exists>b' jobs. gw_rpop (\<lambda>e. []) demo_env demo_server [''q/t''] (AuthName ''q/t'') demo_bus = Ret ([RespBulk (Jobs_Encode jobs)], b')
     \<and> Slice jobs = [demo_job] \<and> queued (wld b') demo_store ''q'' ''t'' CommonQueue = []"
  using rpop_takes_oldest_job [OF demo_gw.gateway_axioms, of demo_bus "''q/t''" "''q''" "''t''" "[]" "AuthName ''q/t''"
      demo_server demo_muxer demo_job "[]" "\<lambda>e. []" "[]"] strings_SplitN2_sep [of "CHR ''/''" "''q''" "''t''"]
  by (auto simp: demo_muxer_def checkAuth_def GetMuxer_def)

section \<open>Statistics, configuration and logs\<close>

text \<open>
  C23. The statistics: when the collector of deliveries has processed the items in its channel, the
  counters of every topic are the number of successful and of failed deliveries among them, the sum of
  their durations (as 64-bit integers) and the longest duration; the counters of submissions are the
  numbers of successful and failed submissions of every queue since the last tick.
\<close>

theorem stats_count:
  assumes "ms_cur s = []" "s' = (MuxStats_Run_item ^^ length (ms_itemChan s)) s"
    and "mine = items_of q t (ms_itemChan s)"
  shows "ms_itemChan s' = []
     \<and> ms_SuccessCount (mux_stat (ms_cur s') q t) = i64 (int (successes mine))
     \<and> ms_FailCount (mux_stat (ms_cur s') q t) = i64 (int (failures mine))
     \<and> TotalTime (mux_stat (ms_cur s') q t) = i64 (sum_list (map consumerTC mine))
     \<and> MaxTime (mux_stat (ms_cur s') q t) = fold max (map consumerTC mine) 0
     \<and> gw_counts (fold GatewayStats_item items []) q =
         (i64 (int (length (filter (\<lambda>i. gsi_queue i = q \<and> success i) items))),
          i64 (int (length (filter (\<lambda>i. gsi_queue i = q \<and> \<not> success i) items))))"
  using mux_stat_counters [of new_MuxStatsData mine] gw_counts_fold [of "[]" q items] assms
  by (simp add: MuxStats_Run_items mux_stat_fold) (simp add: gw_counts_def)

theorem stats_count_witness:
  "ms_SuccessCount (mux_stat (ms_cur ((MuxStats_Run_item ^^ 2)
     (MuxStats_Add (MuxStats_Add NewMuxStats ''q'' ''t'' True 5) ''q'' ''t'' False 9))) ''q'' ''t'') = i64 1"
proof -
  define s where "s = MuxStats_Add (MuxStats_Add NewMuxStats ''q'' ''t'' True 5) ''q'' ''t'' False 9"
  have "ms_cur s = []" "length (ms_itemChan s) = 2" "successes (items_of ''q'' ''t'' (ms_itemChan s)) = 1"
    by (simp_all add: s_def MuxStats_Add_def NewMuxStats_def MuxStatsChannelBuff_def items_of_def successes_def)
  with stats_count [of s _ _ "''q''" "''t''", OF _ refl refl] show ?thesis by (simp add: s_def [symmetric])
qed

text \<open>
  C24. Which topics consume: after the tags of the machine have been applied, a topic consumes if and
  only if it did before, or it exists and some tag of the machine maps its queue to no topic list or
  to a list that contains it. Nothing but the consumer flags of the configuration changes.
\<close>

theorem tags_enable_consumers:
  assumes "load_queues net = Some confs"
  shows "\<exists>confs0 tags. decode_QueueConfs (QueueConfig_text net) = Some confs0 \<and> decode_TagsMapping (TagsMapping_text net) = Some tags
     \<and> strip confs = strip confs0
     \<and> (\<forall>q t. consumes confs q t \<longleftrightarrow> consumes confs0 q t \<or>
          (topic_conf confs0 q t \<noteq> None \<and> (\<exists>tag \<in> set (Tags net). \<exists>tm. map_of tags tag = Some tm \<and> selects tm q t)))"
  using assms strip_tags consumes_tags by (fastforce simp: load_queues_def parseQueueConfig_def split: option.splits)

theorem tags_enable_consumers_witness:
  "load_queues demo_config = Some demo_confs_loaded \<and> consumes demo_confs_loaded ''q'' ''t''"
  using tags_enable_consumers [OF demo_config_loaded]
  by (auto simp: demo_decoded_def topic_conf_def selects_def) (simp add: demo_config_def demo_net_def)

text \<open>
  C25. A recorded task without commas is the first entry the task log returns, with the time it was
  recorded at, and a log of fewer than a hundred entries still has fewer than a hundred afterwards.
\<close>

theorem task_log_round_trip:
  assumes "redis_lists cl lst up" "up w" "redisCli td" "TaskDebugEnable net" "plain_field task" "0 < len"
    and "length (lst w (address td) (TaskDebugKey q)) < 100"
  shows "\<exists>w1 more w2. AddTask cl clock net td q task w = Ret w1 \<and> length (lst w1 (address td) (TaskDebugKey q)) < 100
     \<and> GetTask cl net td q len w1 = Ret (\<lparr>td_Time = show_int (clock w), td_Jobs = task\<rparr> # more, w2)"
proof -
  obtain w1 where w1: "AddTask cl clock net td q task w = Ret w1" "up w1"
    "\<exists>more. lst w1 (address td) (TaskDebugKey q) = task_info (clock w) task # more"
    using redis_lists.AddTask_log [OF assms(1-4) refl refl, of clock q task] by (force split: if_splits)
  moreover have "length (lst w1 (address td) (TaskDebugKey q)) < 100"
    using redis_lists.AddTask_short [OF assms(1-4,7), of clock task] w1(1) by auto
  moreover have "\<exists>n. (if len \<le> 0 then 10 else nat len) = Suc n" using assms(6) by (intro exI [of _ "nat len - 1"]) simp
  ultimately show ?thesis
    using redis_lists.GetTask_entries [OF assms(1) w1(2) assms(3,4), of q len] task_data_info [OF assms(5)] by force
qed

theorem task_log_round_trip_witness:
  "\<exists>w1 more w2. AddTask mem_exec (\<lambda>w. 5) demo_net demo_store ''q'' ''x'' demo_mem = Ret w1
     \<and> GetTask mem_exec demo_net demo_store ''q'' 1 w1 = Ret (\<lparr>td_Time = show_int 5, td_Jobs = ''x''\<rparr> # more, w2)"
  using task_log_round_trip [OF mem.redis_lists_axioms, of demo_mem demo_store demo_net "''x''" 1 "''q''" "\<lambda>w. 5"]
  by (fastforce simp: demo_net_def plain_field_def demo_mem_def put_def TaskDebugKey_def)

section \<open>The Redis client\<close>

text \<open>
  C26. Every reply in the format of the protocol whose sizes fit into memory is read back exactly by
  both readers of the repository, the connection of \<open>msgRedis\<close> and the decoder of \<open>codec/redis\<close> (at any
  depth of nesting), and the bytes behind it stay in the buffer. The decoder's own integer parser agrees with
  \<open>strconv.ParseInt\<close> on every text. A request that fits into memory is written without a panic, and reading it as the
  protocol prescribes gives the command and the texts of its arguments, in order. A status line and an error line are read to the text
  in them, by the connection as a reply and as an error, by the decoder with the type of the line.
\<close>

theorem wire_round_trip:
  assumes "wf_reply r" "small_request cmd args" "LF \<notin> set p"
  shows "readResponse (resp_encode r @ rest) = (Ret (Inr r), rest)
     \<and> decodeResp resp_types depth (resp_encode r @ rest) = (Ret (Inr (as_dresp r)), rest)
     \<and> btoi b = (case ParseInt b of (_, Some e) \<Rightarrow> Inl (IntErr e) | (n, None) \<Rightarrow> Inr n)
     \<and> (\<exists>req. writeRequest cmd args = Ret req
          \<and> readResponse (req @ rest) = (Ret (Inr (RArr (map RBytes (cmd # map arg_text args)))), rest))
     \<and> readResponse (CHR ''+'' # p @ CRLF @ rest) = (Ret (Inr (RBytes p)), rest)
     \<and> readResponse (CHR ''-'' # p @ CRLF @ rest) = (Ret (Inl (CommonErr p)), rest)
     \<and> (\<forall>t \<in> {CHR ''+'', CHR ''-''}. decodeResp resp_types depth (t # p @ CRLF @ rest) = (Ret (Inr (DResp t (Some p) None)), rest))"
  using readResponse_status [OF assms(3)] readResponse_error [OF assms(3)] decodeResp_line [OF assms(3)] readResponse_encode [OF assms(1)] decodeResp_encode [OF assms(1)] btoi_ParseInt request_read_back [OF assms(2), of rest] by simp

theorem wire_round_trip_witness:
  "decodeResp resp_types 0 (resp_encode (RArr [RBytes ''ab'', RNil]) @ ''+OK'')
     = (Ret (Inr (DResp (CHR ''*'') None (Some [DResp (CHR ''$'') (Some ''ab'') None, DResp (CHR ''$'') None None]))), ''+OK'')
   \<and> (\<exists>req. writeRequest ''LPUSH'' [AStr ''k'', AInt 12] = Ret req
     \<and> readResponse (req @ ''+OK'') = (Ret (Inr (RArr (map RBytes [''LPUSH'', ''k'', show_int 12]))), ''+OK''))
   \<and> readResponse (CHR ''-'' # ''NOAUTH'' @ CRLF @ ''+OK'') = (Ret (Inl (CommonErr ''NOAUTH'')), ''+OK'')"
proof -
  have "length (show_int 12) = 2" by (simp add: show_int_def show_nat.simps)
  then show ?thesis
    using wire_round_trip [of "RArr [RBytes ''ab'', RNil]" "''LPUSH''" "[AStr ''k'', AInt 12]" "''NOAUTH''" "''+OK''" 0 "[]"]
    by (simp add: small_request_def arg_text_def maxAlloc_def in_i64_def)
qed

section \<open>The pooled Redis client\<close>

text \<open>
  C27. The pooled client implements the command call: on a pool with a free place, a command sent
  with \<open>MultiPool.Call(address)\<close> returns the server's answer (a reply or a server error), has exactly
  the effect of the command on the server, and leaves the pool ready for the next command.
\<close>

theorem pooled_call_is_server_call:
  assumes "map_of (mp_pools mp) addr = Some p" "pool_inv out p h" "ready p h" "int (card out) < p_MaxConnNum (h_pools h p)"
    and "small_request cmd args"
    and "exec cmd (map (\<lambda>a. AStr (arg_text a)) args) (sv_state (h_net h)) = (x, st')"
    and "(\<exists>r. x = Inr r \<and> wf_reply r) \<or> (\<exists>t. x = Inl (CommonErr t) \<and> LF \<notin> set t)"
  shows "\<exists>h'. once_call (server_dev exec) addr cmd args (mp, h) = Some (Ret (x, mp, h'))
     \<and> sv_state (h_net h') = st' \<and> pool_inv out p h' \<and> ready p h'"
proof -
  have "answers exec cmd args (sv_state (h_net h)) x st'"
    using assms(5-7) answers_ok [of cmd args exec] answers_err [of cmd args exec] by blast
  from once_call_server [OF assms(1-4) this] show ?thesis .
qed

theorem pooled_call_is_server_call_witness:
  "\<exists>h'. once_call (server_dev (mem_exec ''a'')) ''a:1'' ''LPUSH'' [AStr ''k'', AStr ''v''] (demo_multi, demo_heap)
        = Some (Ret (Inr (RInt 1), demo_multi, h'))
     \<and> sv_state (h_net h') ''a'' ''k'' = [''v'']"
  using pooled_call_is_server_call [of demo_multi "''a:1''" 0 "{}" demo_heap "''LPUSH''" "[AStr ''k'', AStr ''v'']" "mem_exec ''a''"
      "Inr (RInt 1)" "snd (mem_exec ''a'' ''LPUSH'' [AStr ''k'', AStr ''v''] (\<lambda>a k. []))"]
  by (auto simp: small_request_def maxAlloc_def arg_text_def put_def)

text \<open>
  C28. The pool leaks no connection: whatever the network does (errors on writing or
  reading, on dialling again, a pool at its limit), when a call has returned exactly the same
  connections are in use as before, the counters agree with them, and idle and used connections
  together do not exceed the maximum. And \<open>Pop\<close> returns, whatever connections the pool holds: it hands out a
  connection that is then counted as used and belongs to nobody else, or nil, or a connection it found dead
  (which a later \<open>Push\<close> ignores), if the pool may keep idle connections and a connection is not older than
  the idle limit when it has just been dialled.
\<close>

theorem pool_leaks_nothing:
  assumes "pool_inv out p h"
  shows "(once_call dev addr command args (mp, h) = Some (Ret (r, mp', h')) \<longrightarrow> map_of (mp_pools mp) addr = Some p \<longrightarrow>
        mp' = mp \<and> pool_inv out p h')
     \<and> (0 \<le> p_MaxIdleNum (h_pools h p) \<longrightarrow> prompt dev p (p_MaxIdleSeconds (h_pools h p)) \<longrightarrow>
        (\<exists>g. Pool_Pop dev p h = Some g \<and> (\<forall>r h'. g = Ret (r, h') \<longrightarrow> popped out p r h')))"
proof (intro conjI impI)
  show "mp' = mp" "pool_inv out p h'"
    if "once_call dev addr command args (mp, h) = Some (Ret (r, mp', h'))" "map_of (mp_pools mp) addr = Some p"
    using once_call_inv [OF that assms] by blast+
  assume "0 \<le> p_MaxIdleNum (h_pools h p)" "prompt dev p (p_MaxIdleSeconds (h_pools h p))"
  from Pop_loop_returns [OF assms this] show "\<exists>g. Pool_Pop dev p h = Some g \<and> (\<forall>r h'. g = Ret (r, h') \<longrightarrow> popped out p r h')"
    using Pool_Pop_inv [OF _ assms] unfolding Pool_Pop_def by blast
qed

theorem pool_leaks_nothing_witness:
  "(\<exists>h'. once_call ((server_dev (mem_exec ''a''))\<lparr>d_dial := \<lambda>a w. (Inl ''refused'', w)\<rparr>) ''a:1'' ''LLEN'' [AStr ''k'']
          (demo_multi, demo_heap)
        = Some (Ret (Inl (PlainErr ''get a nil conn address=a:1''), demo_multi, h'))
     \<and> pool_inv {} 0 h')
   \<and> (\<exists>g. Pool_Pop (server_dev (mem_exec ''a'')) 0 demo_heap = Some g)"
proof -
  let ?dev = "(server_dev (mem_exec ''a''))\<lparr>d_dial := \<lambda>a w. (Inl ''refused'', w)\<rparr>"
  have "Pool_Pop ?dev 0 demo_heap
      = Some (Ret (None, upd_pool 0 (\<lambda>P. P\<lparr>p_CreateFailedNum := p_CreateFailedNum P + 1\<rparr>) demo_heap))"
    by (simp add: Pool_Pop_def Pop_loop.simps Dial_def demo_heap_def demo_pool_def)
  then obtain h' where c: "once_call ?dev ''a:1'' ''LLEN'' [AStr ''k''] (demo_multi, demo_heap)
      = Some (Ret (Inl (PlainErr ''get a nil conn address=a:1''), demo_multi, h'))"
    by (simp add: once_call_def Once_def PopByAddr_def AddPool_def alloc_conn_def Conn_CallN_def)
  have inv: "pool_inv {} 0 demo_heap" by simp
  have "pool_inv {} 0 h'"
    using pool_leaks_nothing [OF inv, of ?dev "''a:1''" "''LLEN''" "[AStr ''k'']" demo_multi _ demo_multi h'] c by simp
  moreover have "\<exists>g. Pool_Pop (server_dev (mem_exec ''a'')) 0 demo_heap = Some g"
    using pool_leaks_nothing [OF inv, of "server_dev (mem_exec ''a'')" "[]" "[]" "[]" demo_multi]
      server_prompt [of 28 "mem_exec ''a''" 0] by (simp, blast)
  ultimately show ?thesis using c by blast
qed

section \<open>Ids\<close>

text \<open>
  C29. A trace id says where and when it was made: reading an id generated by a gateway whose address
  matched a configured prefix gives that address, its port, and the time of the generated number.
\<close>

theorem trace_id_names_gateway:
  assumes "updateServiceId ips pfs port = Ret sid" "GetInnerIP ips pfs = Ret (dotted a b c d)"
    and "a < 256" "b < 256" "c < 256" "d < 256" "CHR ''-'' \<notin> set port" "fst (gen g) < 2 ^ 63"
  shows "ParseTraceId tm (fst (GenTraceId gen sid g))
     = Inr \<lparr>CreateTime = tm (int (fst (gen g))), BusGatewayIp = dotted a b c d, BusGatewayPort = port\<rparr>"
  using assms by (rule ParseTraceId_GenTraceId)

theorem trace_id_names_gateway_witness:
  "\<exists>sid. updateServiceId [''127.0.0.1'', dotted 10 0 3 255] [''10.''] ''6379'' = Ret sid
     \<and> ParseTraceId (\<lambda>n. n) (fst (GenTraceId demo_gen sid 7))
       = Inr \<lparr>CreateTime = 7, BusGatewayIp = dotted 10 0 3 255, BusGatewayPort = ''6379''\<rparr>"
proof -
  have "show_nat 10 = ''10''" "show_nat 0 = ''0''" "show_nat 3 = ''3''" "show_nat 255 = ''255''"
    by (simp_all add: show_nat.simps) (code_simp+)
  then have ip: "GetInnerIP [''127.0.0.1'', dotted 10 0 3 255] [''10.''] = Ret (dotted 10 0 3 255)"
    by (simp add: dotted_def)
  then obtain sid where sid: "updateServiceId [''127.0.0.1'', dotted 10 0 3 255] [''10.''] ''6379'' = Ret sid"
    unfolding updateServiceId_def ip by simp
  with trace_id_names_gateway [OF sid ip, of demo_gen 7 "\<lambda>n. n"] show ?thesis by (auto simp: demo_gen_def)
qed

section \<open>Requests to CGI responders\<close>

text \<open>
  C30. A request to a responder ends in a known way and gives back what it took: when \<open>Request\<close> returns,
  the pool has as many connections in the hands of callers as before, its counter agrees and is within
  the limit; and if it returns an error, this is the error of the last of at most six attempts, all
  earlier ones failed with an error worth another attempt, and it stopped because the sixth failed or
  the error was not worth another attempt.
\<close>

theorem cgi_request_ends:
  assumes "cgi_Request dev cm cgi_env params isNew s = Some (r, s')" "cgi_held cm out (fst s)"
  shows "cgi_held cm out (fst s')
     \<and> (\<forall>e. r = Inl e \<longrightarrow> (\<exists>es. attempts dev cm cgi_env (Values_Add params ''IS_PEPPER_BUS_REQUEST'' ''true'') isNew s (es @ [e]) s'
          \<and> list_all retryable es \<and> length es \<le> 5 \<and> (length es = 5 \<or> \<not> retryable e)))"
  using Request_loop_held Request_loop_fails assms unfolding cgi_Request_def by blast

theorem cgi_request_ends_witness:
  "\<exists>e s'. cgi_Request (demo_cgi_dev (Inl (CErr ''timeout''))) demo_cgi [] [] True ([(''k'', demo_cgi_pool)], 0) = Some (Inl e, s')
     \<and> cgi_held demo_cgi 0 (fst s')"
proof -
  have five: "(5 :: nat) = Suc 4" by simp
  obtain s' where s: "cgi_Request (demo_cgi_dev (Inl (CErr ''timeout''))) demo_cgi [] [] True ([(''k'', demo_cgi_pool)], 0)
      = Some (Inl (CErr ''timeout''), s')"
    unfolding cgi_Request_def five Request_loop.simps
    by (simp add: cgi_request_def cm_newConnReal_def pm_Get_def newConnReal_def with_pool_def cgi_exchange_def CgiConn_Send_def
        retryable_def cgi_err_text_def has_prefix_def demo_cgi_defs)
  from cgi_request_ends [OF s, of 0] s show ?thesis by (auto simp: demo_cgi_defs cgi_held_def cgi_inv_def)
qed

text \<open>
  C31. \<open>GetConn\<close> returns a connection, which is then counted as in use, on every pool whose callers do
  not hold all connections, provided the responder accepts connections: broken, worn and abandoned
  connections are closed on the way and a new one is dialled.
\<close>

theorem get_conn_returns:
  assumes "cgi_inv out cp" "int out < cp_maxConnNum cp" "reachable_cgi dev cp"
  shows "\<exists>c cp' w'. GetConn dev cp w = Some (c, cp', w') \<and> cgi_inv (Suc out) cp'"
  using GetConn_loop_returns [OF assms, of NewConnRetryDuration w] GetConn_inv [OF _ assms(1), of dev w]
  unfolding GetConn_def by (metis prod_cases3)

theorem get_conn_returns_witness:
  "\<exists>c cp' w'. GetConn (demo_cgi_dev (Inl EOF)) demo_cgi_pool 0 = Some (c, cp', w') \<and> cgi_inv 1 cp'"
  using get_conn_returns [of 0 demo_cgi_pool "demo_cgi_dev (Inl EOF)" 0]
  by (simp add: cgi_inv_def reachable_cgi_def demo_cgi_defs second_def)

text \<open>
  C32. A call over FastCGI reaches the application: from the bytes \<open>Do\<close> writes, a responder decodes
  the begin record with the keep-alive flag, exactly the parameters, in order, and exactly the body,
  however many records the two streams take; and when it runs an application on them and sends its
  header fields and output, cut into records in any way, the sender returns the codes and the topics of
  these fields and exactly that output.
\<close>

theorem fastcgi_request_round_trip:
  assumes "f_reqId client < 2 ^ 16" "body = Values_Encode params"
    and "p = post_env cgi_env ''application/x-www-form-urlencoded'' (length body)" "list_all pair_fits p"
    and "app p body w = ((hs, out), w')" "list_all field_ok hs"
    and "chunks_ok (slices (header_text hs @ out))" "concat (slices (header_text hs @ out)) = header_text hs @ out"
  shows "(\<exists>bytes. fcgi_Do client p (Some body) = Ret bytes
       \<and> responder (bytes @ s) = Some ([byte 0, byte 1, byte (if f_keepAlive client then 1 else 0)] @ replicate 5 (byte 0), p, body, s))
     \<and> fst (cgi_exchange (over_fcgi (\<lambda>n. serve_fcgi slices app) client dev) cm cgi_env params c (pools, w))
       = Inr \<lparr>Code = (if field hs ''Code'' = [] then InnerError else field hs ''Code''), ErrorCode = field hs ''Error-Code'',
              ConsumeTopics = field hs ''Consume-Topics'', Msg = out\<rparr>"
  using responder_Do [OF assms(4,1)] cgi_exchange_app [of client body params p cgi_env app w hs out w' slices] assms by blast

theorem fastcgi_request_round_trip_witness:
  "fst (cgi_exchange (over_fcgi (\<lambda>n. serve_fcgi (\<lambda>t. [t]) demo_app) \<lparr>f_keepAlive = True, f_reqId = 1\<rparr> (demo_cgi_dev (Inl EOF)))
       demo_cgi (GetEnv demo_cgi) (GetParams ''ping'') demo_conn ([], 0))
     = Inr \<lparr>Code = ''200'', ErrorCode = [], ConsumeTopics = ''q/t'', Msg = ''q/t,''\<rparr>"
proof -
  define body where "body = Values_Encode (GetParams ''ping'')"
  define p where "p = post_env (GetEnv demo_cgi) ''application/x-www-form-urlencoded'' (length body)"
  let ?t = "header_text [(''Code'', ''200''), (''Consume-Topics'', ''q/t'')] @ ''q/t,''"
  have "length body = 36" unfolding body_def GetParams_def by code_simp
  moreover have "length (show_nat 36) = 2" by (simp add: show_nat.simps)
  ultimately have fits: "list_all pair_fits p"
    by (simp add: p_def post_env_def GetEnv_def demo_cgi_defs pair_fits_def maxWrite_def Let_def)
  have ok: "list_all field_ok [(''Code'', ''200''), (''Consume-Topics'', ''q/t'')]" by code_simp
  have cut: "chunks_ok [?t]" by (simp add: header_text_def field_line_def maxWrite_def)
  show ?thesis
    using fastcgi_request_round_trip [of "\<lparr>f_keepAlive = True, f_reqId = 1\<rparr>" body "GetParams ''ping''" p "GetEnv demo_cgi" demo_app 0
        "[(''Code'', ''200''), (''Consume-Topics'', ''q/t'')]" "''q/t,''" 0 "\<lambda>t. [t]" "[]" "demo_cgi_dev (Inl EOF)" demo_cgi demo_conn "[]"]
      fits ok cut by (simp add: body_def p_def demo_app_def field_def)
qed

text \<open>
  C33. A kept connection serves one response: the first is read completely, but the reader stops
  behind the header of the end record, so on the next request the content of that record is taken for
  a header and the read fails, whatever the responder sends.
\<close>

theorem fastcgi_kept_connection_breaks:
  assumes "i < 2 ^ 16" "chunks_ok cs" "status < 2 ^ 24"
  shows "\<exists>rest. read_stream (records FCGI_STDOUT i cs @ writeEndRequest i status p @ next) = (concat cs, EOF, rest)
     \<and> fst (record_read rest) = Inl (CErr ''fcgi: invalid header version'')"
  using read_stream_response [OF assms(1,2), of status p "next"] second_response_fails [OF assms(3), of p "next"] by simp

theorem fastcgi_kept_connection_breaks_witness:
  "\<exists>rest. read_stream (records FCGI_STDOUT 1 [''ok''] @ writeEndRequest 1 0 0 @ records FCGI_STDOUT 1 [''ok'']) = (''ok'', EOF, rest)
     \<and> fst (record_read rest) = Inl (CErr ''fcgi: invalid header version'')"
  using fastcgi_kept_connection_breaks [of 1 "[''ok'']" 0 0 "records FCGI_STDOUT 1 [''ok'']"] by (simp add: chunks_ok_def maxWrite_def)

section \<open>Configuration and administration\<close>

text \<open>
  C34. An update of the configuration takes effect: when the texts decode and every queue stands under
  its own name, every topic has a storage that can be created and there is an HTTP configuration if a topic is served over
  HTTP, \<open>UpdateSetting\<close> returns, the gateway's port and service id
  and the configurations that clients are authenticated against are those of the update, and when the
  registry has executed the commands it was sent, its workers serve exactly the topics of these
  configurations, each over the storage configured for it. Neither the update nor a command panics.
\<close>

theorem settings_update_takes_effect:
  assumes "decode_QueueConfs (QueueConfig_text net) = Some confs" "decode_TagsMapping (TagsMapping_text net) = Some tags"
    and "proper_queues (node_of net st) confs" "updateServiceId ips (InnerIpPrefix g) (GatewayPort g) = Ret sid"
    and "ms_inv (MuxManager st)" "cmdC (MuxManager st) = []"
    and "2 * length confs + length (queueConfig (MuxManager st)) \<le> cmdC_cap"
  shows "\<exists>st' ms. UpdateSetting ips g net st = Ret (Some st') \<and> ServiceId st' = sid
     \<and> map_option srv_GatewayPort (ServerConf st') = Some (GatewayPort g)
     \<and> current_QueueConfs st' = enable_tags (Tags net) tags confs
     \<and> Serve_turns (node_of net st') (length (cmdC (MuxManager st'))) (MuxManager st') = Ret ms \<and> cmdC ms = [] \<and> ms_inv ms
     \<and> serves (current_QueueConfs st') ms"
proof -
  have load: "load_queues net = Some (enable_tags (Tags net) tags confs)" using assms(1,2) by (rule load_queues_decoded)
  have len: "length (enable_tags (Tags net) tags confs) = length confs" by (rule enable_tags_length)
  from UpdateSetting_serves [OF load load_queues_named [OF load assms(1,3)] assms(4-6)] assms(7) UpdateSetting_server
  show ?thesis unfolding len by metis
qed

theorem settings_update_takes_effect_witness:
  "\<exists>st' ms. UpdateSetting [] demo_global demo_config init_globals = Ret (Some st')
     \<and> Serve_turns (node_of demo_config st') (length (cmdC (MuxManager st'))) (MuxManager st') = Ret ms
     \<and> serves (current_QueueConfs st') ms \<and> consumes (current_QueueConfs st') ''q'' ''t''"
proof -
  obtain sid where "updateServiceId [] (InnerIpPrefix demo_global) (GatewayPort demo_global) = Ret sid"
    by (simp add: updateServiceId_def demo_global_def)
  moreover have "proper_queues d demo_decoded" "length demo_decoded = 1" for d by (rule demo_decoded_proper) (simp add: demo_decoded_def)
  moreover have "ms_inv (MuxManager init_globals)" "cmdC (MuxManager init_globals) = []" "queueConfig (MuxManager init_globals) = []"
    by (simp_all add: init_globals_def NewMuxServer_def ms_inv_def)
  ultimately obtain st' ms where st': "UpdateSetting [] demo_global demo_config init_globals = Ret (Some st')"
    "Serve_turns (node_of demo_config st') (length (cmdC (MuxManager st'))) (MuxManager st') = Ret ms" "serves (current_QueueConfs st') ms"
    "current_QueueConfs st' = enable_tags (Tags demo_config) [(''a'', [(''q'', [''t''])])] demo_decoded"
    using settings_update_takes_effect [OF demo_config_decoded, of init_globals "[]" demo_global sid]
    by (auto simp: cmdC_cap_def)
  have "consumes (current_QueueConfs st') ''q'' ''t''"
    unfolding st'(4) consumes_tags by (simp add: demo_config_def demo_net_def demo_decoded_def topic_conf_def selects_def)
  with st' show ?thesis by blast
qed

text \<open>
  C35. The actions of the administration on a topic with a worker: the path \<open>/recover\<close> moves the oldest jobs of
  the retry list, as many as asked for, behind the jobs of the common list and reports their number;
  \<open>/clean/failed/jobs\<close> empties the retry list, reports how many jobs it held and touches no other list;
  \<open>/get/queue/length\<close> reports the lengths of the three lists and changes nothing.
\<close>

theorem admin_actions_on_topic:
  assumes "redis_lists cl lst up" "e_redis env = cl" "up w" "\<forall>kind. dec kind form = Inr r"
    and "GetMuxer ms (req_Queue r) (req_Topic r) = Inr mx" "redisCli (mx_storager mx)"
    and "L = queued (lst w) (mx_storager mx) (req_Queue r) (req_Topic r)" "int (length (L RetryQueue)) < 2 ^ 63"
    and "m = retry_moves (req_Count r) (length (L RetryQueue))"
  shows "ServiceHandler ''/recover'' = Some Recover
     \<and> (\<exists>w' L'. RecoverAction dec et env ms form w = Ret (Some (ok (DCount (int m)), w'))
        \<and> up w' \<and> L' = queued (lst w') (mx_storager mx) (req_Queue r) (req_Topic r)
        \<and> L' RetryQueue = drop m (L RetryQueue) \<and> L' CommonQueue = L CommonQueue @ take m (L RetryQueue))
     \<and> ServiceHandler ''/clean/failed/jobs'' = Some CleanFailedJobs
     \<and> (\<exists>w' L'. CleanFailedJobsAction dec et env ms form w = Ret (ok (DCount (int (length (L RetryQueue)))), w')
        \<and> up w' \<and> L' = queued (lst w') (mx_storager mx) (req_Queue r) (req_Topic r)
        \<and> L' RetryQueue = []
        \<and> (\<forall>s q t qt. GetKey q t qt \<noteq> GetKey (req_Queue r) (req_Topic r) RetryQueue \<or> address s \<noteq> address (mx_storager mx)
             \<longrightarrow> queued (lst w') s q t qt = queued (lst w) s q t qt))
     \<and> ServiceHandler ''/get/queue/length'' = Some GetQueueLength
     \<and> (\<exists>w'. GetQueueLengthAction dec et env ms form w
          = Ret (ok (DLengths (int (length (L CommonQueue))) (int (length (L RetryQueue))) (int (length (L TimeoutQueue)))), w')
        \<and> up w' \<and> lst w' = lst w)"
proof -
  have dec: "dec CountReq form = Inr r" "dec PlainReq form = Inr r" using assms(4) by simp_all
  have "\<exists>w' L'. RecoverAction dec et env ms form w = Ret (Some (ok (DCount (int m)), w'))
        \<and> up w' \<and> L' = queued (lst w') (mx_storager mx) (req_Queue r) (req_Topic r)
        \<and> L' RetryQueue = drop m (L RetryQueue) \<and> L' CommonQueue = L CommonQueue @ take m (L RetryQueue)"
    using redis_lists.RecoverAction_moves [where dec = dec and form = form and r = r, OF assms(1-3) dec(1) assms(5,6) refl, of m et]
      assms(7-9) by simp
  moreover have "\<exists>w' L'. CleanFailedJobsAction dec et env ms form w = Ret (ok (DCount (int (length (L RetryQueue)))), w')
        \<and> up w' \<and> L' = queued (lst w') (mx_storager mx) (req_Queue r) (req_Topic r)
        \<and> L' RetryQueue = []
        \<and> (\<forall>s q t qt. GetKey q t qt \<noteq> GetKey (req_Queue r) (req_Topic r) RetryQueue \<or> address s \<noteq> address (mx_storager mx)
             \<longrightarrow> queued (lst w') s q t qt = queued (lst w) s q t qt)"
    using redis_lists.CleanFailedJobsAction_empties [where dec = dec and form = form and r = r, OF assms(1-3) dec(2) assms(5,6), of et]
    unfolding assms(7) by blast
  ultimately show ?thesis
    using redis_lists.GetQueueLengthAction_lengths [where dec = dec and form = form and r = r, OF assms(1-3) dec(2) assms(5,6), of et]
      routes(1-3) by (simp add: assms(7))
qed

theorem admin_actions_on_topic_witness:
  "(\<exists>w'. RecoverAction demo_schema (\<lambda>e. []) demo_env demo_server [(''queue'', [''q'']), (''topic'', [''t''])] demo_mem
        = Ret (Some (ok (DCount 1), w')) \<and> queued w' demo_store ''q'' ''t'' CommonQueue = [demo_job, demo_tried])
   \<and> (\<exists>w'. GetQueueLengthAction demo_schema (\<lambda>e. []) demo_env demo_server [(''queue'', [''q'']), (''topic'', [''t''])] demo_mem
        = Ret (ok (DLengths 1 1 0), w'))"
proof -
  let ?f = "[(''queue'', [''q'']), (''topic'', [''t''])]"
  define r where "r = \<lparr>req_Queue = ''q'', req_Topic = ''t'', req_Count = 5, req_Type = [], req_Value = []\<rparr>"
  have "\<forall>kind. demo_schema kind ?f = Inr r" by (simp add: demo_schema_def FormValue_def r_def)
  moreover have "GetMuxer demo_server (req_Queue r) (req_Topic r) = Inr demo_muxer" by (simp add: GetMuxer_def r_def)
  moreover have "redisCli (mx_storager demo_muxer)" by (simp add: demo_muxer_def)
  ultimately show ?thesis
    using admin_actions_on_topic [OF mem.redis_lists_axioms, of demo_env demo_mem demo_schema ?f r demo_server demo_muxer _ 1 "\<lambda>e. []"]
    by (simp add: r_def demo_muxer_def retry_moves_def) blast
qed

text \<open>
  C36. The configuration the administration service shows is the configuration of the bus: the response is
  JSON whose data, given back to the bus as the text of its queues, is decoded to equal configurations under the same
  names (as \<open>reflect.DeepEqual\<close> compares them), of queues and of topics; only the flags that are set from the tags of the machine are
  not part of it. The texts are well-formed UTF-8 and the numbers fit their 64-bit types.
\<close>

theorem queue_config_round_trip:
  assumes "confs_printable (current_QueueConfs st)" "data = map_json QueueConfig_json (current_QueueConfs st)"
  shows "json_parse (renderJSON (QueueConfigAction st)) = Some (JObj [(''error_code'', JInt 0), (''error'', JStr []), (''data'', data)])
     \<and> (\<exists>confs. decode_QueueConfs (json_marshal data) = Some confs \<and> length confs = length (current_QueueConfs st)
          \<and> (\<forall>q. rel_option DeepEqual (map_of confs q) (map_option strip_queue (map_of (current_QueueConfs st) q)))
          \<and> (\<forall>q t. topic_conf confs q t = map_option strip_topic (topic_conf (current_QueueConfs st) q t)))"
  unfolding assms(2) QueueConfigAction_read [OF assms(1)] decode_printed [OF assms(1)]
  using printed_same [OF assms(1)] printed_queues [OF assms(1)] by (simp add: printed_confs_def sorted_map_def)

theorem queue_config_round_trip_witness:
  "confs_printable demo_confs \<and> (\<exists>confs. decode_QueueConfs (json_marshal (map_json QueueConfig_json demo_confs)) = Some confs
     \<and> length confs = 1 \<and> topic_conf confs ''q'' ''t'' = Some demo_topic
     \<and> rel_option DeepEqual (map_of confs ''q'') (Some (strip_queue demo_queue)))"
proof -
  let ?st = "\<lparr>ServerConfStorage = None, QueueConfsStorage = Some demo_confs, ServiceId = [], MuxManager = demo_server,
     CgiPoolManager = [], CGIErrorCollection = None, CGITaskDebug = None, HttpConfigManager = None\<rparr>"
  have c: "current_QueueConfs ?st = demo_confs" by (simp add: current_QueueConfs_def)
  have ok: "confs_printable demo_confs"
    by (simp add: confs_printable_def demo_confs_def wf_map_def queue_printable_def demo_queue_def topic_printable_def demo_topic_def
        demo_storage_conf_def storage_printable_def RunTypeHttp_def in_i64_def maxUint64_def valid_utf8_ascii)
  have s: "strip_topic demo_topic = demo_topic" by (simp add: strip_topic_def demo_topic_def)
  have d: "length demo_confs = 1" "map_of demo_confs ''q'' = Some demo_queue" by (simp_all add: demo_confs_def)
  obtain confs where confs: "decode_QueueConfs (json_marshal (map_json QueueConfig_json demo_confs)) = Some confs" "length confs = length demo_confs"
    "\<And>q. rel_option DeepEqual (map_of confs q) (map_option strip_queue (map_of demo_confs q))"
    "\<And>q t. topic_conf confs q t = map_option strip_topic (topic_conf demo_confs q t)"
    using queue_config_round_trip [of ?st, unfolded c, OF ok refl] by blast
  then show ?thesis using ok confs(3) [of "''q''"] by (simp add: d s)
qed

section \<open>The Go SDK\<close>

text \<open>
  C37. What a worker of the bus sends reaches the application: with a server of the SDK on the other side that started
  with a router for the worker's path, a batch is handled by exactly the handler that this router has for its queue and topic,
  which reads from the form the queue, the topic and a JSON text that parses to the jobs that were sent; the worker gets the
  code of the handler's response (404 without a handler, 500 when the data cannot be rendered), or a transport error when the handler returns nil; what
  the handler has done by then stays done in every case. The worker's ping
  succeeds if and only if a handler for its topic is registered.
\<close>

theorem sdk_receives_jobs:
  assumes "path_ok (hcm_path hcm)" "tc_HttpConfig (hcm_Topic hcm) = []"
    and "sdk_Serve rs hs = Ret m" "map_of rs (url_path (hcm_path hcm)) = Some router"
    and "form = ParseQuery (Values_Encode (job_form jobs))"
  shows "FormValue form ''queue'' = queueName jobs \<and> FormValue form ''topic'' = topicName jobs
     \<and> FormValue form ''jobs'' = jobs_json jobs
     \<and> ((\<forall>j \<in> set (Slice jobs). wf_job j) \<longrightarrow>
          json_parse (FormValue form ''jobs'') = Some (JArr (map Job_json (Slice jobs))))
     \<and> hcm_SendJobs path_ok (mux_do url_path m) hcm jobs w =
       (case map_of (queueTopicSet router) (queueName jobs @ ''/'' @ topicName jobs) of
          None \<Rightarrow> (Inr \<lparr>Code = ''404'', ErrorCode = ''404'', ConsumeTopics = [], Msg = NotFound_body\<rparr>, w)
        | Some h \<Rightarrow>
            (case h form w of
               (None, w') \<Rightarrow> (Inl ''EOF'', w')
             | (Some r, w') \<Rightarrow>
                 (case sdk_marshal r of
                    None \<Rightarrow> (Inr \<lparr>Code = ''500'', ErrorCode = ''500'', ConsumeTopics = [], Msg = ''null''\<rparr>, w')
                  | Some body \<Rightarrow>
                      (Inr \<lparr>Code = show_int (sr_Code r), ErrorCode = show_int (sr_ErrorCode r), ConsumeTopics = [], Msg = body\<rparr>, w'))))
     \<and> (list_all (\<lambda>k. CHR '','' \<notin> set k) (keys (queueTopicSet router)) \<longrightarrow>
         (fst (HttpWorker_SendPing (NewHttpWorker q t n s (hcm_sender path_ok (mux_do url_path m) hcm)) w) = None
          \<longleftrightarrow> map_of (queueTopicSet router) (q @ ''/'' @ t) \<noteq> None))"
  using hcm_SendJobs_serve [where path_ok = path_ok and hcm = hcm, OF assms(1,2), of router jobs w]
    SendPing_serve [where path_ok = path_ok and hcm = hcm, OF assms(1,2), of router q t n s w]
  unfolding assms(5) hcm_routes [where hcm = hcm and url_path = url_path, OF assms(3,4)]
  by (simp add: list_all_iff FormValue_parsed [OF job_form_wf] job_form_values jobs_json_def json_parse_Slice
      del: json_marshal.simps)

theorem sdk_receives_jobs_witness:
  "\<exists>m. sdk_Serve [(''/jobs'', demo_router)] [] = Ret m
   \<and> hcm_SendJobs (\<lambda>p. True) (mux_do (drop 8) m) \<lparr>hcm_Topic = demo_topic, hcm_path = ''http://x/jobs''\<rparr> (batch ''q'' ''t'' ''x'' demo_job) []
     = (Inr \<lparr>Code = show_int 200, ErrorCode = show_int 0, ConsumeTopics = [], Msg = the (sdk_marshal \<lparr>sr_ErrorCode = 0, sr_Code = 200, sr_Data = Some (JStr [])\<rparr>)\<rparr>,
        [jobs_json (batch ''q'' ''t'' ''x'' demo_job)])
   \<and> fst (HttpWorker_SendPing (NewHttpWorker ''q'' ''t'' 1 demo_store (hcm_sender (\<lambda>p. True) (mux_do (drop 8) m)
       \<lparr>hcm_Topic = demo_topic, hcm_path = ''http://x/jobs''\<rparr>)) []) = None"
proof -
  obtain m where m: "sdk_Serve [(''/jobs'', demo_router)] [] = Ret m"
    using sdk_Serve_iff [of "[(''/jobs'', demo_router)]" "[]"] by (auto simp: wf_map_def)
  show ?thesis
    using m sdk_receives_jobs [of "\<lambda>p. True" "\<lparr>hcm_Topic = demo_topic, hcm_path = ''http://x/jobs''\<rparr>" _ _ _ "drop 8" demo_router _
        "batch ''q'' ''t'' ''x'' demo_job" "[]" "''q''" "''t''" 1 demo_store, OF _ _ m _ refl]
    by (simp add: demo_topic_def demo_router_def demo_handler_def sdk_marshal_def ExecSuccess_def)
qed

section \<open>Logging\<close>

text \<open>
  C38. Within an hour the log is append-only: whatever the order in which lines are written, the buffer
  is handed over and the channel is emptied, nothing blocks and no file is changed, and the file, the
  channel and the buffer together hold what was there before followed by exactly the written lines
  in their order. (As long as the file stays below its maximal size and the channel within its capacity.)
\<close>

theorem log_is_append_only:
  assumes "log_open now li f" "length (log_text li f) + length (lines_of es) \<le> maxFileSize"
    and "length (li_bufferQueue li) + ticks_of es \<le> bufferQueue_cap"
  shows "\<exists>li' f'. log_run now es li f = Some (li', f') \<and> log_open now li' f' \<and> log_text li' f' = log_text li f @ lines_of es"
  using assms by (rule log_run_appends)

theorem log_is_append_only_witness:
  "\<exists>li' f'. log_run 2019010112 [WriteLine ''a'', Tick, WriteLine ''b'', Flush, Tick] (fst demo_log) (snd demo_log) = Some (li', f')
     \<and> log_text li' f' = ''ab''"
  using log_is_append_only [OF demo_log_open(1), of "[WriteLine ''a'', Tick, WriteLine ''b'', Flush, Tick]"]
  by (auto simp: maxFileSize_def bufferQueue_cap_def)

section \<open>The process\<close>

text \<open>
  C39. A handled signal stops the bus: when the handler takes \<open>SIGINT\<close>, or \<open>SIGUSR2\<close> with a successful restart, both
  listeners are closed and every worker returns at its next turn without touching a job; and whatever happens
  then, in any order, once the servers have noticed, five seconds have passed and \<open>main\<close> has run, the process has
  ended, however many connections are still open. Without a further signal (and a discovery client that exits)
  its end is a nil dereference in the last line of \<open>main\<close>.
\<close>

theorem graceful_stop:
  assumes "p_reach x p" "p_end p = None" "p_handler p = HLoop" "p_ch p = sig # c" "sig = SIGUSR2 \<longrightarrow> r = None"
    and "p1 = p_step x (HandlerTurn r) p" "length cs = GraceStopTimeout" "subseq (stop_turns cs) es"
  shows "p_listening p1 = [False, False] \<and> Mux_worker_turn env conf m (p_cancelled p1) b = Ret (Return, b)
     \<and> Mux_retry_turn env m (p_cancelled p1) b = Ret (Return, b) \<and> p_end (p_run x es p1) \<noteq> None
     \<and> ((\<forall>e \<in> set es. \<forall>s. e \<noteq> Deliver s) \<and> (\<forall>s. \<not> x s) \<longrightarrow> p_end (p_run x es p1) = Some NilPanic)"
proof -
  note h = handled_signal [OF p_reach_inv [OF assms(1)] assms(2-6)]
  have inv: "p_inv p1" using p_inv_step [OF p_reach_inv [OF assms(1)]] assms(6) by simp
  note stop = stop_turns_end [OF inv h(1) assms(7,8), of x]
  have "p_end (p_run x es p1) = Some NilPanic" if "\<forall>e \<in> set es. \<forall>s. e \<noteq> Deliver s" "\<forall>s. \<not> x s"
    using end_by_main [OF that(1) _ h(3), of x] that(2) stop by auto
  with h stop show ?thesis by (simp add: Mux_worker_turn_def Mux_retry_turn_def)
qed

theorem graceful_stop_witness:
  "\<exists>p1. p1 = p_run (\<lambda>s. False) [HandlerTurn None, Deliver SIGINT, HandlerTurn None] started \<and> p_cancelled p1
     \<and> p_end (p_run (\<lambda>s. False) (stop_turns [4, 3, 3, 2, 2]) p1) = Some NilPanic"
proof -
  define p where "p = p_run (\<lambda>s. False) [HandlerTurn None, Deliver SIGINT] started"
  define es where "es = stop_turns [4, 3, 3, 2, 2]"
  have p: "p_reach (\<lambda>s. False) p" by (simp add: p_def p_reach.intros)
  have f: "p_end p = None" "p_handler p = HLoop" "p_ch p = [SIGINT]" unfolding p_def by code_simp+
  have r: "SIGINT = SIGUSR2 \<longrightarrow> (None :: string option) = None" by simp
  have l: "length [4, 3, 3, 2, 2 :: nat] = GraceStopTimeout" and es: "subseq (stop_turns [4, 3, 3, 2, 2]) es"
    by (simp_all add: GraceStopTimeout_def es_def)
  have d: "\<forall>e \<in> set es. \<forall>s. e \<noteq> Deliver s" by (simp add: es_def stop_turns_def)
  have e: "p_end (p_run (\<lambda>s. False) es (p_step (\<lambda>s. False) (HandlerTurn None) p)) = Some NilPanic"
    using graceful_stop [OF p f r refl l es] d by blast
  have "p_cancelled (p_step (\<lambda>s. False) (HandlerTurn None) p)" unfolding p_def by code_simp
  with e show ?thesis by (simp add: p_def es_def [symmetric])
qed

text \<open>
  C40. Other signals never stop it gracefully. As long as neither \<open>SIGINT\<close> nor \<open>SIGUSR2\<close> arrives, both listeners stay open and
  no worker is cancelled; \<open>SIGTERM\<close>, which the administration's operation \<open>stop\<close> sends, is among them. And after a restart
  that failed the handler is gone: whatever happens, listeners and workers go on, and a process whose discovery
  client does not exit survives every further \<open>SIGINT\<close>, \<open>SIGUSR2\<close> and \<open>SIGTERM\<close>.
\<close>

theorem signals_not_handled:
  assumes "\<forall>e \<in> set es. \<forall>i. e \<noteq> ListenerFails i"
  shows "(Deliver SIGINT \<notin> set es \<and> Deliver SIGUSR2 \<notin> set es \<longrightarrow>
        p_listening (p_run x es started) = [True, True] \<and> \<not> p_cancelled (p_run x es started))
     \<and> snd (ManageServiceAction pid (Some ''true'') ''stop'') = Some SIGTERM \<and> SIGTERM \<noteq> SIGINT \<and> SIGTERM \<noteq> SIGUSR2
     \<and> (p_reach x p \<and> p_end p = None \<and> p_handler p = HLoop \<and> p_ch p = SIGUSR2 # c \<and> p_listening p = [True, True]
          \<and> p' = p_run x (HandlerTurn (Some err) # es) p \<longrightarrow>
        p_listening p' = [True, True] \<and> \<not> p_cancelled p'
        \<and> ((\<forall>s. \<not> x s) \<and> (\<forall>s. Deliver s \<in> set es \<longrightarrow> s \<in> {SIGINT, SIGUSR2, SIGTERM}) \<longrightarrow> p_end p' = None))"
proof (intro conjI impI)
  have u: "undisturbed started" by (simp add: undisturbed_def started_def)
  show "p_listening (p_run x es started) = [True, True]" "\<not> p_cancelled (p_run x es started)"
    if "Deliver SIGINT \<notin> set es \<and> Deliver SIGUSR2 \<notin> set es"
    using undisturbed_run [OF u assms, of x] that by (auto simp: undisturbed_def)
  show "snd (ManageServiceAction pid (Some ''true'') ''stop'') = Some SIGTERM" by (simp add: ManageServiceAction_def)
  show "SIGTERM \<noteq> SIGINT" "SIGTERM \<noteq> SIGUSR2" by (simp_all add: SIGTERM_def SIGINT_def SIGUSR2_def)
  assume p: "p_reach x p \<and> p_end p = None \<and> p_handler p = HLoop \<and> p_ch p = SIGUSR2 # c \<and> p_listening p = [True, True]
      \<and> p' = p_run x (HandlerTurn (Some err) # es) p"
  define p1 where "p1 = p\<lparr>p_ch := c, p_handler := HDone\<rparr>"
  have p': "p' = p_run x es p1" using p failed_restart [of p c x err] by (simp add: p1_def)
  have p1: "undisturbed p1" "p_handler p1 = HDone" "p_mask p1 = [SIGINT, SIGUSR2]" "p_end p1 = None"
    using p p_reach_inv [of x p] by (auto simp: undisturbed_def p1_def p_inv_def)
  show "p_listening p' = [True, True]" "\<not> p_cancelled p'"
    using undisturbed_run [OF p1(1) assms, of x] p1(2) by (auto simp: undisturbed_def p')
  assume "(\<forall>s. \<not> x s) \<and> (\<forall>s. Deliver s \<in> set es \<longrightarrow> s \<in> {SIGINT, SIGUSR2, SIGTERM})"
  then show "p_end p' = None" unfolding p' by (intro asked_signals_survive [OF p1(1,4,2,3)] assms) auto
qed

theorem signals_not_handled_witness:
  "p_listening (p_run (\<lambda>s. True) [HandlerTurn None, Deliver SIGTERM, DiscoveryTurn] started) = [True, True]
   \<and> p_end (p_run (\<lambda>s. False) [HandlerTurn None, Deliver SIGUSR2, HandlerTurn (Some ''no file''), Deliver SIGINT, Deliver SIGTERM, HandlerTurn None]
       started) = None"
proof -
  define p where "p = p_run (\<lambda>s. False) [HandlerTurn None, Deliver SIGUSR2] started"
  define es where "es = [Deliver SIGINT, Deliver SIGTERM, HandlerTurn None]"
  define es' where "es' = [HandlerTurn None, Deliver SIGTERM, DiscoveryTurn]"
  have p: "p_reach (\<lambda>s. False) p" by (simp add: p_def p_reach.intros)
  have f: "p_end p = None" "p_handler p = HLoop" "p_ch p = [SIGUSR2]" "p_listening p = [True, True]" unfolding p_def by code_simp+
  have no: "\<forall>e \<in> set es. \<forall>i. e \<noteq> ListenerFails i" "\<forall>e \<in> set es'. \<forall>i. e \<noteq> ListenerFails i"
    "\<forall>s. Deliver s \<in> set es \<longrightarrow> s \<in> {SIGINT, SIGUSR2, SIGTERM}" "Deliver SIGINT \<notin> set es'" "Deliver SIGUSR2 \<notin> set es'"
    by (auto simp: es_def es'_def SIGTERM_def SIGINT_def SIGUSR2_def)
  have "p_end (p_run (\<lambda>s. False) (HandlerTurn (Some ''no file'') # es) p) = None"
    using signals_not_handled [OF no(1), of "\<lambda>s. False" 1 p "[]" _ "''no file''"] p f no(3) by blast
  moreover have "p_listening (p_run (\<lambda>s. True) es' started) = [True, True]"
    using signals_not_handled [OF no(2), of "\<lambda>s. True"] no(4,5) by blast
  ultimately show ?thesis by (simp add: p_def es_def es'_def)
qed

end
